(* ===== verification/Rialto_Prelude.thy ===== *)
theory Rialto_Prelude
  imports Main "HOL-Library.AList" "HOL-Library.Word"
begin

text \<open>
  Shared vocabulary of the development.

  \<^item> Type synonyms for the machine integers that the sources keep at a width.
  \<^item> The model of \<open>std::map\<close> and \<open>std::unordered_map\<close>: an association list
    whose keys are distinct. The order of the list is the iteration order of
    the container; every theorem holds for each such order.
  \<^item> Two interfaces used by all components: \<open>invariant_system\<close> (an invariant of a
    step relation holds in every reachable state) and \<open>operation_system\<close> (the same
    for a component driven by a sequence of calls).
\<close>

type_synonym u8 = "8 word"
type_synonym u16 = "16 word"
type_synonym u32 = "32 word"
type_synonym u64 = "64 word"

text \<open>Collections filled by the components: equations of state accessors that are not
  written by an operation (\<open>frame\<close>) and the container laws (\<open>container\<close>).\<close>

named_theorems frame
named_theorems container

section \<open>Associative containers\<close>

abbreviation keys :: "('k \<times> 'v) list \<Rightarrow> 'k list" where
  "keys m \<equiv> map fst m"

abbreviation vals :: "('k \<times> 'v) list \<Rightarrow> 'v list" where
  "vals m \<equiv> map snd m"

text \<open>\<open>m.find(k)\<close>, \<open>m[k] = v\<close>, \<open>m.erase(k)\<close> and an update through the iterator
  returned by \<open>find\<close>.\<close>

abbreviation find_key :: "('k \<times> 'v) list \<Rightarrow> 'k \<Rightarrow> 'v option" where
  "find_key m k \<equiv> map_of m k"

abbreviation put_key :: "'k \<Rightarrow> 'v \<Rightarrow> ('k \<times> 'v) list \<Rightarrow> ('k \<times> 'v) list" where
  "put_key k v m \<equiv> AList.update k v m"

abbreviation erase_key :: "'k \<Rightarrow> ('k \<times> 'v) list \<Rightarrow> ('k \<times> 'v) list" where
  "erase_key k m \<equiv> AList.delete k m"

abbreviation edit_key :: "'k \<Rightarrow> ('v \<Rightarrow> 'v) \<Rightarrow> ('k \<times> 'v) list \<Rightarrow> ('k \<times> 'v) list" where
  "edit_key k f m \<equiv> AList.map_entry k f m"

lemma find_put [simp, container]:
  "find_key (put_key k v m) j = (if j = k then Some v else find_key m j)"
  by (simp add: update_conv')

lemma find_erase [simp, container]:
  "find_key (erase_key k m) j = (if j = k then None else find_key m j)"
  by (simp add: delete_conv')

lemma find_edit [simp, container]:
  "find_key (edit_key k f m) j = (if j = k then map_option f (find_key m k) else find_key m j)"
  by (induction m) auto

lemma keys_edit [simp, container]: "keys (edit_key k f m) = keys m"
  by (induction m) auto

lemma distinct_keys_put [simp, intro, container]:
  "distinct (keys m) \<Longrightarrow> distinct (keys (put_key k v m))"
  by (rule distinct_update)

lemma distinct_keys_erase [simp, intro, container]:
  "distinct (keys m) \<Longrightarrow> distinct (keys (erase_key k m))"
  by (rule distinct_delete)

lemma image_fst_put [simp, container]: "fst ` set (put_key k v m) = insert k (fst ` set m)"
  using dom_update [of k v m] by (simp add: dom_map_of_conv_image_fst)

lemma image_fst_erase [simp, container]: "fst ` set (erase_key k m) = fst ` set m - {k}"
  by (induction m) auto

lemma in_vals_conv:
  "distinct (keys m) \<Longrightarrow> (k, v) \<in> set m \<longleftrightarrow> find_key m k = Some v"
  by simp

lemma in_set_keys_conv: "k \<in> set (keys m) \<longleftrightarrow> find_key m k \<noteq> None"
  by (simp add: map_of_eq_None_iff)

lemma find_key_map_snd [simp]:
  "find_key (map (\<lambda>(k, v). (k, f v)) m) k = map_option f (find_key m k)"
  by (induction m) auto

lemma keys_map_snd [simp]: "keys (map (\<lambda>(k, v). (k, f v)) m) = keys m"
  by (induction m) auto

lemma list_all_lookup:
  "distinct (keys m) \<Longrightarrow>
   list_all (\<lambda>(k, v). P k v) m \<longleftrightarrow> (\<forall>k v. find_key m k = Some v \<longrightarrow> P k v)"
  by (auto simp: list_all_iff)

lemma list_ex_lookup:
  "distinct (keys m) \<Longrightarrow>
   list_ex (\<lambda>(k, v). P k v) m \<longleftrightarrow> (\<exists>k v. find_key m k = Some v \<and> P k v)"
  by (force simp: list_ex_iff)

section \<open>Invariants of step relations and of call sequences\<close>

locale invariant_system =
  fixes start :: "'s \<Rightarrow> bool"
    and step :: "'s \<Rightarrow> 's \<Rightarrow> bool"
    and inv :: "'s \<Rightarrow> bool"
  assumes inv_start: "start s \<Longrightarrow> inv s"
    and inv_step: "step s t \<Longrightarrow> inv s \<Longrightarrow> inv t"
begin

lemma inv_steps: "step\<^sup>*\<^sup>* s t \<Longrightarrow> inv s \<Longrightarrow> inv t"
  by (induction rule: rtranclp_induct) (auto intro: inv_step)

lemma inv_reachable: "start s \<Longrightarrow> step\<^sup>*\<^sup>* s t \<Longrightarrow> inv t"
  by (blast intro: inv_start inv_steps)

end

text \<open>A component driven by calls: \<open>exec c s\<close> is the state after the call \<open>c\<close>.\<close>

locale operation_system =
  fixes exec :: "'c \<Rightarrow> 's \<Rightarrow> 's"
    and inv :: "'s \<Rightarrow> bool"
  assumes inv_exec: "inv s \<Longrightarrow> inv (exec c s)"
begin

lemma inv_run: "inv s \<Longrightarrow> inv (fold exec cs s)"
  by (induction cs arbitrary: s) (auto intro: inv_exec)

end

end
