(* ===== verification/Message_Queue.thy ===== *)
theory Message_Queue
  imports Rialto_Prelude "HOL-Library.Multiset" "HOL-Library.Sublist"
begin

text \<open>
  The event loop (source/MessageQueue.cpp, MessageQueue.h, IMessageQueue.h): a FIFO of
  messages, one worker thread that handles them, and callers that post messages, call a
  function in the loop and wait for it, or stop the loop.

  The first part is the object itself, one function per method or per critical section.
  The second part is its concurrent use: a step relation with one rule per atomic action
  of the worker (\<open>processMessages\<close>) and of any number of caller threads. The state
  carries two histories, the messages accepted by the queue and the messages handled.

  What is shown: messages take effect one at a time and in the order in which they were
  accepted, so the state owned by the loop is changed as by a sequential program; a caller
  of \<open>callInEventLoop\<close> that waits always has a live worker that reaches its message, and
  is released by the worker, by \<open>clear\<close> or by \<open>stop\<close>; \<open>stop\<close> called from another thread
  lets the worker finish everything accepted before it; a second thread whose \<open>stop\<close> has
  tested \<open>m_running\<close> before the first one is through waits for ever.

  The functions that callers pass (\<open>std::function<void()>\<close>) are state transformers of the
  type \<open>'c\<close> of the state the loop owns. \<open>start\<close> is taken from the initial state only, as
  the owners of the queue do (each calls it once, from its constructor).
\<close>

section \<open>The queue object\<close>

text \<open>
  The subclasses of \<open>Message\<close>. A \<open>CallInEventLoopMessage\<close> carries the identity of its
  \<open>m_done\<close> flag, which the caller that waits for it shares. \<open>StopMessage\<close> is the
  \<open>CallInEventLoopMessage\<close> made by \<open>doStop\<close>, whose function clears \<open>m_running\<close>.
  \<open>OtherMessage\<close> is a subclass defined by a client of the queue, with the inherited empty
  \<open>skip\<close>.
\<close>

datatype 'c message =
    CallInEventLoopMessage nat "'c \<Rightarrow> 'c"
  | ScheduleInEventLoopMessage "'c \<Rightarrow> 'c"
  | StopMessage nat
  | OtherMessage "'c \<Rightarrow> 'c"

record 'c mq =
  m_queue :: "'c message list"
  m_running :: bool
  m_acceptingMessages :: bool
  m_done :: "nat set"
  loopState :: 'c

definition MessageQueue :: "'c \<Rightarrow> 'c mq" where
  "MessageQueue c = \<lparr>m_queue = [], m_running = False, m_acceptingMessages = False,
     m_done = {}, loopState = c\<rparr>"

definition start :: "('c, 'z) mq_scheme \<Rightarrow> ('c, 'z) mq_scheme" where
  "start q = (if m_running q then q else q\<lparr>m_running := True, m_acceptingMessages := True\<rparr>)"

definition postMessage ::
  "'c message \<Rightarrow> ('c, 'z) mq_scheme \<Rightarrow> bool \<times> ('c, 'z) mq_scheme" where
  "postMessage msg q =
     (if \<not> m_running q \<or> \<not> m_acceptingMessages q then (False, q)
      else (True, q\<lparr>m_queue := m_queue q @ [msg]\<rparr>))"

text \<open>The critical section of \<open>waitForMessage\<close>: \<open>None\<close> while the thread waits.\<close>

definition waitForMessage ::
  "('c, 'z) mq_scheme \<Rightarrow> ('c message \<times> ('c, 'z) mq_scheme) option" where
  "waitForMessage q =
     (case m_queue q of [] \<Rightarrow> None | msg # rest \<Rightarrow> Some (msg, q\<lparr>m_queue := rest\<rparr>))"

fun handle :: "'c message \<Rightarrow> ('c, 'z) mq_scheme \<Rightarrow> ('c, 'z) mq_scheme" where
  "handle (CallInEventLoopMessage i f) q =
     q\<lparr>loopState := f (loopState q), m_done := insert i (m_done q)\<rparr>"
| "handle (ScheduleInEventLoopMessage f) q = q\<lparr>loopState := f (loopState q)\<rparr>"
| "handle (StopMessage i) q = q\<lparr>m_running := False, m_done := insert i (m_done q)\<rparr>"
| "handle (OtherMessage f) q = q\<lparr>loopState := f (loopState q)\<rparr>"

fun skip :: "'c message \<Rightarrow> ('c, 'z) mq_scheme \<Rightarrow> ('c, 'z) mq_scheme" where
  "skip (CallInEventLoopMessage i f) q = q\<lparr>m_done := insert i (m_done q)\<rparr>"
| "skip (ScheduleInEventLoopMessage f) q = q"
| "skip (StopMessage i) q = q\<lparr>m_done := insert i (m_done q)\<rparr>"
| "skip (OtherMessage f) q = q"

text \<open>The loop of \<open>doClear\<close>, on the messages still in the queue.\<close>

fun clear_loop :: "'c message list \<Rightarrow> ('c, 'z) mq_scheme \<Rightarrow> ('c, 'z) mq_scheme" where
  "clear_loop [] q = q\<lparr>m_queue := []\<rparr>"
| "clear_loop (msg # rest) q = clear_loop rest ((skip msg q)\<lparr>m_queue := rest\<rparr>)"

definition doClear :: "('c, 'z) mq_scheme \<Rightarrow> ('c, 'z) mq_scheme" where
  "doClear q = clear_loop (m_queue q) q"

definition scheduleInEventLoop ::
  "('c \<Rightarrow> 'c) \<Rightarrow> ('c, 'z) mq_scheme \<Rightarrow> bool \<times> ('c, 'z) mq_scheme" where
  "scheduleInEventLoop f q = postMessage (ScheduleInEventLoopMessage f) q"

text \<open>\<open>callInEventLoopInternal\<close> up to the point where it waits: it has returned a value or
  waits for the flag of the message it posted.\<close>

datatype call_outcome = Returned bool | WaitingFor nat

definition callInEventLoop ::
  "bool \<Rightarrow> nat \<Rightarrow> ('c \<Rightarrow> 'c) \<Rightarrow> ('c, 'z) mq_scheme \<Rightarrow> call_outcome \<times> ('c, 'z) mq_scheme" where
  "callInEventLoop onWorker i f q =
     (if \<not> onWorker then
        (case postMessage (CallInEventLoopMessage i f) q of
           (False, q') \<Rightarrow> (Returned False, q')
         | (True, q') \<Rightarrow> (WaitingFor i, q'))
      else (Returned True, q\<lparr>loopState := f (loopState q)\<rparr>))"

text \<open>\<open>doStop\<close> on the worker thread, after the test of \<open>m_running\<close>.\<close>

definition stopOnWorker :: "('c, 'z) mq_scheme \<Rightarrow> ('c, 'z) mq_scheme" where
  "stopOnWorker q = doClear (q\<lparr>m_acceptingMessages := False, m_running := False\<rparr>)"

text \<open>The critical section of \<open>doStop\<close> on any other thread.\<close>

definition stopRequest :: "nat \<Rightarrow> ('c, 'z) mq_scheme \<Rightarrow> ('c, 'z) mq_scheme" where
  "stopRequest i q = q\<lparr>m_acceptingMessages := False, m_queue := m_queue q @ [StopMessage i]\<rparr>"

section \<open>Threads around the queue\<close>

datatype 'c worker = NoThread | WaitingForMessage | Handling "'c message" | LoopTest | Exited

datatype caller = Free | InCall nat | StopChecked | InStop nat | Joining | Clearing

record 'c mqsys = "'c mq" +
  worker :: "'c worker"
  detached :: bool
  callers :: "nat \<Rightarrow> caller"
  nextId :: nat
  accepted :: "'c message list"
  handled :: "'c message list"

definition mq_start :: "'c \<Rightarrow> 'c mqsys \<Rightarrow> bool" where
  "mq_start c s \<longleftrightarrow> s = mq.extend (MessageQueue c)
     \<lparr>worker = NoThread, detached = False, callers = (\<lambda>_. Free), nextId = 0, accepted = [], handled = []\<rparr>"

text \<open>The rules of the worker, and of the callers that post, call and stop.\<close>

inductive worker_step :: "'c mqsys \<Rightarrow> 'c mqsys \<Rightarrow> bool" where
  take: "worker s = WaitingForMessage \<Longrightarrow> waitForMessage s = Some (msg, s') \<Longrightarrow>
     worker_step s (s'\<lparr>worker := Handling msg\<rparr>)"
| handle: "worker s = Handling msg \<Longrightarrow>
     worker_step s ((handle msg s)\<lparr>worker := LoopTest, handled := handled s @ [msg]\<rparr>)"
| again: "worker s = LoopTest \<Longrightarrow> m_running s \<Longrightarrow>
     worker_step s (s\<lparr>worker := WaitingForMessage\<rparr>)"
| quit: "worker s = LoopTest \<Longrightarrow> \<not> m_running s \<Longrightarrow> worker_step s (s\<lparr>worker := Exited\<rparr>)"

inductive loop_step :: "'c mqsys \<Rightarrow> 'c mqsys \<Rightarrow> bool" where
  work: "worker_step s s' \<Longrightarrow> loop_step s s'"
| start: "worker s = NoThread \<Longrightarrow> \<not> m_running s \<Longrightarrow>
     loop_step s ((start s)\<lparr>worker := WaitingForMessage\<rparr>)"
| post: "postMessage msg s = (True, s') \<Longrightarrow> msg = OtherMessage f \<or> msg = ScheduleInEventLoopMessage f \<Longrightarrow>
     loop_step s (s'\<lparr>accepted := accepted s @ [msg]\<rparr>)"
| call: "callers s t = Free \<Longrightarrow> callInEventLoop False (nextId s) f s = (WaitingFor i, s') \<Longrightarrow>
     loop_step s (s'\<lparr>callers := (callers s)(t := InCall i), nextId := Suc (nextId s),
       accepted := accepted s @ [CallInEventLoopMessage i f]\<rparr>)"
| call_return: "callers s t = InCall i \<Longrightarrow> i \<in> m_done s \<Longrightarrow>
     loop_step s (s\<lparr>callers := (callers s)(t := Free)\<rparr>)"
| stop_check: "callers s t = Free \<Longrightarrow> m_running s \<Longrightarrow>
     loop_step s (s\<lparr>callers := (callers s)(t := StopChecked)\<rparr>)"
| stop_request: "callers s t = StopChecked \<Longrightarrow>
     loop_step s ((stopRequest (nextId s) s)\<lparr>callers := (callers s)(t := InStop (nextId s)),
       nextId := Suc (nextId s), accepted := accepted s @ [StopMessage (nextId s)]\<rparr>)"
| stop_wait: "callers s t = InStop i \<Longrightarrow> i \<in> m_done s \<Longrightarrow>
     loop_step s (s\<lparr>callers := (callers s)(t := Joining)\<rparr>)"
| stop_join: "callers s t = Joining \<Longrightarrow> worker s = Exited \<or> detached s \<Longrightarrow>
     loop_step s (s\<lparr>callers := (callers s)(t := Clearing)\<rparr>)"
| stop_clear: "callers s t = Clearing \<Longrightarrow>
     loop_step s ((doClear s)\<lparr>callers := (callers s)(t := Free)\<rparr>)"

text \<open>With the two operations that drop queued messages: \<open>clear\<close>, and \<open>stop\<close> called by a
  message handler on the worker thread, which detaches the thread.\<close>

inductive mq_step :: "'c mqsys \<Rightarrow> 'c mqsys \<Rightarrow> bool" where
  loop: "loop_step s s' \<Longrightarrow> mq_step s s'"
| clear: "mq_step s (doClear s)"
| self_stop: "worker s = Handling msg \<Longrightarrow> m_running s \<Longrightarrow> mq_step s ((stopOnWorker s)\<lparr>detached := True\<rparr>)"

inductive_cases worker_stepE: "worker_step s s'"
inductive_cases loop_stepE: "loop_step s s'"
inductive_cases mq_stepE: "mq_step s s'"

text \<open>What handling a message does to the state of the loop.\<close>

fun msg_effect :: "'c message \<Rightarrow> 'c \<Rightarrow> 'c" where
  "msg_effect (CallInEventLoopMessage i f) = f"
| "msg_effect (ScheduleInEventLoopMessage f) = f"
| "msg_effect (StopMessage i) = id"
| "msg_effect (OtherMessage f) = f"

fun is_stop :: "'c message \<Rightarrow> bool" where
  "is_stop (StopMessage i) = True"
| "is_stop msg = False"

text \<open>The message the worker has taken and not finished.\<close>

fun in_hand :: "'c worker \<Rightarrow> 'c message list" where
  "in_hand (Handling msg) = [msg]"
| "in_hand w = []"

section \<open>Effects of the methods\<close>

lemma handle_simps [simp]:
  "m_queue (handle msg q) = m_queue q"
  "m_acceptingMessages (handle msg q) = m_acceptingMessages q"
  "m_running (handle msg q) = (m_running q \<and> \<not> is_stop msg)"
  "loopState (handle msg q) = msg_effect msg (loopState q)"
  by (cases msg; simp)+

lemma skip_simps [simp]:
  "m_queue (skip msg q) = m_queue q" "m_running (skip msg q) = m_running q"
  "m_acceptingMessages (skip msg q) = m_acceptingMessages q"
  "loopState (skip msg q) = loopState q"
  by (cases msg; simp)+

lemma skip_done_mono: "i \<in> m_done q \<Longrightarrow> i \<in> m_done (skip msg q)"
  by (cases msg) simp_all

lemma clear_loop_simps [simp]:
  "m_queue (clear_loop ms q) = []" "m_running (clear_loop ms q) = m_running q"
  "m_acceptingMessages (clear_loop ms q) = m_acceptingMessages q"
  "loopState (clear_loop ms q) = loopState q"
  by (induction ms arbitrary: q) simp_all

lemma clear_loop_done_mono: "i \<in> m_done q \<Longrightarrow> i \<in> m_done (clear_loop ms q)"
  by (induction ms arbitrary: q) (simp_all add: skip_done_mono)

lemma clear_loop_done:
  "CallInEventLoopMessage i f \<in> set ms \<or> StopMessage i \<in> set ms \<Longrightarrow> i \<in> m_done (clear_loop ms q)"
  by (induction ms arbitrary: q) (auto intro: clear_loop_done_mono)

lemma doClear_simps [simp]:
  "m_queue (doClear q) = []" "m_running (doClear q) = m_running q"
  "m_acceptingMessages (doClear q) = m_acceptingMessages q"
  "loopState (doClear q) = loopState q"
  by (simp_all add: doClear_def)

text \<open>No method touches the threads or the histories.\<close>

lemma handle_frame [simp, frame]:
  fixes s :: "'c mqsys"
  shows "worker (handle msg s) = worker s" "detached (handle msg s) = detached s"
    "callers (handle msg s) = callers s"
    "nextId (handle msg s) = nextId s" "accepted (handle msg s) = accepted s"
    "handled (handle msg s) = handled s"
  by (cases msg; simp)+

lemma skip_frame [simp, frame]:
  fixes s :: "'c mqsys"
  shows "worker (skip msg s) = worker s" "detached (skip msg s) = detached s"
    "callers (skip msg s) = callers s"
    "nextId (skip msg s) = nextId s" "accepted (skip msg s) = accepted s"
    "handled (skip msg s) = handled s"
  by (cases msg; simp)+

lemma clear_loop_frame [simp, frame]:
  fixes s :: "'c mqsys"
  shows "worker (clear_loop ms s) = worker s" "detached (clear_loop ms s) = detached s"
    "callers (clear_loop ms s) = callers s"
    "nextId (clear_loop ms s) = nextId s" "accepted (clear_loop ms s) = accepted s"
    "handled (clear_loop ms s) = handled s"
  by (induction ms arbitrary: s) simp_all

lemma doClear_frame [simp, frame]:
  fixes s :: "'c mqsys"
  shows "worker (doClear s) = worker s" "detached (doClear s) = detached s"
    "callers (doClear s) = callers s"
    "nextId (doClear s) = nextId s" "accepted (doClear s) = accepted s"
    "handled (doClear s) = handled s"
  by (simp_all add: doClear_def)

lemma doClear_done:
  "i \<in> m_done q \<Longrightarrow> i \<in> m_done (doClear q)"
  "CallInEventLoopMessage i f \<in> set (m_queue q) \<Longrightarrow> i \<in> m_done (doClear q)"
  "StopMessage i \<in> set (m_queue q) \<Longrightarrow> i \<in> m_done (doClear q)"
  by (auto simp: doClear_def clear_loop_done_mono intro: clear_loop_done)

lemmas mq_defs = start_def postMessage_def waitForMessage_def callInEventLoop_def
  stopRequest_def stopOnWorker_def

section \<open>Invariants\<close>

text \<open>The flags, the life of the worker, and where stop requests are.\<close>

definition flags_inv :: "'c mqsys \<Rightarrow> bool" where
  "flags_inv s \<longleftrightarrow>
     (m_acceptingMessages s \<longrightarrow>
        m_running s \<and> list_all (\<lambda>m. \<not> is_stop m) (in_hand (worker s) @ m_queue s)) \<and>
     (worker s = NoThread \<or> worker s = Exited \<longrightarrow> \<not> m_running s) \<and>
     (worker s = WaitingForMessage \<longrightarrow> m_running s) \<and>
     (worker s = NoThread \<longrightarrow> m_queue s = [] \<and> \<not> detached s \<and> (\<forall>t. callers s t = Free)) \<and>
     (detached s \<longrightarrow> \<not> m_running s) \<and>
     (\<forall>t. callers s t = Clearing \<longrightarrow> \<not> m_running s)"

lemma flags_inv_worker: "worker_step s s' \<Longrightarrow> flags_inv s \<Longrightarrow> flags_inv s'"
  by (erule worker_stepE) (auto simp: flags_inv_def mq_defs split: list.splits)

lemma flags_inv_loop: "loop_step s s' \<Longrightarrow> flags_inv s \<Longrightarrow> flags_inv s'"
  by (erule loop_stepE)
    (auto simp: flags_inv_worker, auto simp: flags_inv_def mq_defs split: if_splits)

lemma flags_inv_step: "mq_step s s' \<Longrightarrow> flags_inv s \<Longrightarrow> flags_inv s'"
  by (erule mq_stepE) (auto simp: flags_inv_loop, auto simp: flags_inv_def mq_defs)

text \<open>A message that some thread waits for is finished, or queued, or in the hands of the
  worker; no step loses it.\<close>

definition call_pending :: "nat \<Rightarrow> 'c mqsys \<Rightarrow> bool" where
  "call_pending i s \<longleftrightarrow> i \<in> m_done s \<or>
     (\<exists>f. CallInEventLoopMessage i f \<in> set (in_hand (worker s)) \<union> set (m_queue s))"

definition waiters_inv :: "'c mqsys \<Rightarrow> bool" where
  "waiters_inv s \<longleftrightarrow> (\<forall>t i. callers s t = InCall i \<longrightarrow> call_pending i s)"

lemma handle_done: "i \<in> m_done s \<Longrightarrow> i \<in> m_done (handle msg s)"
  by (cases msg) simp_all

lemma call_pending_worker: "worker_step s s' \<Longrightarrow> call_pending i s \<Longrightarrow> call_pending i s'"
  by (erule worker_stepE)
    (auto simp: call_pending_def mq_defs handle_done split: list.splits)

lemma call_pending_doClear: "call_pending i s \<Longrightarrow> call_pending i (doClear s)"
  by (auto simp: call_pending_def intro: doClear_done)

lemma call_pending_frame:
  "call_pending i (s\<lparr>callers := c\<rparr>) = call_pending i s"
  "call_pending i (s\<lparr>nextId := n\<rparr>) = call_pending i s"
  "call_pending i (s\<lparr>accepted := a\<rparr>) = call_pending i s"
  "call_pending i (s\<lparr>detached := b\<rparr>) = call_pending i s"
  "call_pending i (s\<lparr>m_acceptingMessages := b\<rparr>) = call_pending i s"
  "call_pending i (s\<lparr>m_running := b\<rparr>) = call_pending i s"
  by (simp_all add: call_pending_def)

lemma call_pending_loop: "loop_step s s' \<Longrightarrow> call_pending i s \<Longrightarrow> call_pending i s'"
  by (erule loop_stepE)
    (auto simp: call_pending_frame call_pending_worker call_pending_doClear,
     auto simp: call_pending_def mq_defs split: if_splits)

lemma call_pending_step: "mq_step s s' \<Longrightarrow> call_pending i s \<Longrightarrow> call_pending i s'"
  by (erule mq_stepE)
    (auto simp: call_pending_loop call_pending_doClear call_pending_frame stopOnWorker_def)

lemma new_waiter_pending:
  "loop_step s s' \<Longrightarrow> callers s' t = InCall i \<Longrightarrow> callers s t \<noteq> InCall i \<Longrightarrow> call_pending i s'"
  by (erule loop_stepE; (erule worker_stepE)?)
    (auto simp: call_pending_def mq_defs split: if_splits list.splits)

lemma waiters_inv_loop: "loop_step s s' \<Longrightarrow> waiters_inv s \<Longrightarrow> waiters_inv s'"
  unfolding waiters_inv_def by (metis call_pending_loop new_waiter_pending)

lemma waiters_inv_step: "mq_step s s' \<Longrightarrow> waiters_inv s \<Longrightarrow> waiters_inv s'"
  by (erule mq_stepE)
    (auto simp: waiters_inv_loop,
     auto simp: waiters_inv_def stopOnWorker_def call_pending_doClear call_pending_frame)

text \<open>The histories: nothing is handled that was not accepted, or in another order, or twice,
  and the state of the loop is the effect of what was handled.\<close>

definition history_inv :: "'c \<Rightarrow> 'c mqsys \<Rightarrow> bool" where
  "history_inv c s \<longleftrightarrow>
     subseq (handled s @ in_hand (worker s) @ m_queue s) (accepted s) \<and>
     loopState s = fold msg_effect (handled s) c"

lemma subseq_keep_prefix: "subseq (xs @ ys) zs \<Longrightarrow> subseq xs zs"
proof -
  have "subseq xs (xs @ ys)" by (rule prefix_imp_subseq) simp
  then show "subseq (xs @ ys) zs \<Longrightarrow> subseq xs zs" by (rule subseq_order.trans)
qed

lemma subseq_snoc: "subseq (xs @ ys @ zs) ws \<Longrightarrow> subseq (xs @ ys @ zs @ [m]) (ws @ [m])"
  using list_emb_append_mono [of "(=)" "xs @ ys @ zs" ws "[m]" "[m]"] by simp

lemma history_inv_worker: "worker_step s s' \<Longrightarrow> history_inv c s \<Longrightarrow> history_inv c s'"
  by (erule worker_stepE) (auto simp: history_inv_def mq_defs split: list.splits)

lemma history_inv_doClear: "history_inv c s \<Longrightarrow> history_inv c (doClear s)"
  using subseq_keep_prefix [of "handled s @ in_hand (worker s)" "m_queue s" "accepted s"]
  by (simp add: history_inv_def)

lemma history_inv_frame:
  "history_inv c (s\<lparr>callers := cs\<rparr>) = history_inv c s"
  "history_inv c (s\<lparr>nextId := n\<rparr>) = history_inv c s"
  "history_inv c (s\<lparr>detached := b\<rparr>) = history_inv c s"
  "history_inv c (s\<lparr>m_acceptingMessages := b\<rparr>) = history_inv c s"
  "history_inv c (s\<lparr>m_running := b\<rparr>) = history_inv c s"
  by (simp_all add: history_inv_def)

lemma history_inv_loop: "loop_step s s' \<Longrightarrow> history_inv c s \<Longrightarrow> history_inv c s'"
  by (erule loop_stepE)
    (auto simp: history_inv_frame history_inv_worker history_inv_doClear,
     auto simp: history_inv_def mq_defs intro: subseq_snoc split: if_splits)

lemma history_inv_step: "mq_step s s' \<Longrightarrow> history_inv c s \<Longrightarrow> history_inv c s'"
  by (erule mq_stepE)
    (auto simp: history_inv_loop history_inv_doClear history_inv_frame stopOnWorker_def)

text \<open>Stop requests are behind every other message, and once the loop is not running, or is
  about to be stopped, nothing else is queued.\<close>

definition order_inv :: "'c mqsys \<Rightarrow> bool" where
  "order_inv s \<longleftrightarrow>
     (\<exists>ms ss. m_queue s = ms @ ss \<and> list_all (\<lambda>m. \<not> is_stop m) ms \<and> list_all is_stop ss) \<and>
     (list_ex is_stop (in_hand (worker s)) \<or> \<not> m_running s \<longrightarrow> list_all is_stop (m_queue s))"

lemma stops_last_tl:
  assumes "msg # rest = ms @ ss" "list_all (\<lambda>m. \<not> is_stop m) ms" "list_all is_stop ss"
  shows "(\<exists>ms ss. rest = ms @ ss \<and> list_all (\<lambda>m. \<not> is_stop m) ms \<and> list_all is_stop ss) \<and>
    (is_stop msg \<longrightarrow> list_all is_stop rest)"
  using assms by (cases ms) (auto intro: exI [of _ "[]"])

lemma order_inv_frame:
  "order_inv (s\<lparr>callers := cs\<rparr>) = order_inv s" "order_inv (s\<lparr>nextId := n\<rparr>) = order_inv s"
  "order_inv (s\<lparr>detached := b\<rparr>) = order_inv s" "order_inv (s\<lparr>accepted := ms\<rparr>) = order_inv s"
  by (simp_all add: order_inv_def)

lemma order_inv_empty: "m_queue s = [] \<Longrightarrow> order_inv s"
  by (simp add: order_inv_def)

lemma order_inv_take:
  assumes "order_inv s" "m_queue s = msg # rest"
  shows "order_inv (s\<lparr>m_queue := rest, worker := Handling msg\<rparr>)"
proof -
  obtain ms ss where "msg # rest = ms @ ss" "list_all (\<lambda>m. \<not> is_stop m) ms" "list_all is_stop ss"
    using assms by (auto simp: order_inv_def)
  from stops_last_tl [OF this] assms show ?thesis by (simp add: order_inv_def)
qed

lemma take_unfold:
  assumes "waitForMessage s = Some (msg, q)"
  obtains rest where "m_queue s = msg # rest" and "q = s\<lparr>m_queue := rest\<rparr>"
  using assms by (auto simp: waitForMessage_def split: list.splits)

lemma order_inv_worker:
  assumes "worker_step s s'" "order_inv s"
  shows "order_inv s'"
  using assms(1)
proof (cases rule: worker_step.cases)
  case (take msg q)
  with assms(2) show ?thesis by (auto elim!: take_unfold intro!: order_inv_take)
next
  case (handle msg)
  with assms(2) show ?thesis
    by (cases "is_stop msg") (auto simp: order_inv_def)
qed (use assms(2) in \<open>auto simp: order_inv_def\<close>)

text \<open>A message appended while the queue accepts messages: no stop request is queued.\<close>

lemma order_inv_append:
  assumes "flags_inv s" "m_acceptingMessages s" "\<not> is_stop msg"
  shows "order_inv (s\<lparr>m_queue := m_queue s @ [msg]\<rparr>)"
proof -
  have q: "list_all (\<lambda>m. \<not> is_stop m) (m_queue s @ [msg])" "m_running s"
    "\<not> list_ex is_stop (in_hand (worker s))"
    using assms by (auto simp: flags_inv_def list_all_iff list_ex_iff)
  then have "\<exists>ms ss. m_queue s @ [msg] = ms @ ss \<and> list_all (\<lambda>m. \<not> is_stop m) ms \<and> list_all is_stop ss"
    by (intro exI [of _ "m_queue s @ [msg]"] exI [of _ "[]"]) simp
  with q show ?thesis by (simp add: order_inv_def)
qed

lemma order_inv_stopRequest:
  assumes "order_inv s"
  shows "order_inv (stopRequest i s)"
proof -
  obtain ms ss where "m_queue s = ms @ ss" "list_all (\<lambda>m. \<not> is_stop m) ms" "list_all is_stop ss"
    using assms by (auto simp: order_inv_def)
  then have "\<exists>ms ss. m_queue s @ [StopMessage i] = ms @ ss \<and>
      list_all (\<lambda>m. \<not> is_stop m) ms \<and> list_all is_stop ss"
    by (intro exI [of _ ms] exI [of _ "ss @ [StopMessage i]"]) simp
  with assms show ?thesis by (simp add: order_inv_def stopRequest_def)
qed

lemma order_inv_loop: "loop_step s s' \<Longrightarrow> flags_inv s \<Longrightarrow> order_inv s \<Longrightarrow> order_inv s'"
  by (erule loop_stepE)
    (auto simp: order_inv_frame order_inv_worker order_inv_stopRequest order_inv_empty,
     auto simp: order_inv_frame order_inv_append postMessage_def callInEventLoop_def
       split: if_splits,
     auto simp: order_inv_def flags_inv_def mq_defs)

lemma order_inv_step: "mq_step s s' \<Longrightarrow> flags_inv s \<Longrightarrow> order_inv s \<Longrightarrow> order_inv s'"
  by (erule mq_stepE) (auto simp: order_inv_loop order_inv_empty mq_defs)

text \<open>Without \<open>clear\<close> and without a stop on the worker thread nothing is dropped: what was
  accepted is what was handled followed by what waits.\<close>

abbreviation work_of :: "'c message list \<Rightarrow> 'c message list" where
  "work_of ms \<equiv> filter (\<lambda>m. \<not> is_stop m) ms"

definition complete_inv :: "'c mqsys \<Rightarrow> bool" where
  "complete_inv s \<longleftrightarrow> work_of (accepted s) = work_of (handled s @ in_hand (worker s) @ m_queue s)"

lemma all_stops_filter: "list_all is_stop ms \<Longrightarrow> work_of ms = []"
  by (induction ms) auto

lemma complete_inv_worker: "worker_step s s' \<Longrightarrow> complete_inv s \<Longrightarrow> complete_inv s'"
  by (erule worker_stepE) (auto simp: complete_inv_def mq_defs split: list.splits)

lemma complete_inv_loop:
  "loop_step s s' \<Longrightarrow> flags_inv s \<Longrightarrow> order_inv s \<Longrightarrow> complete_inv s \<Longrightarrow> complete_inv s'"
  by (erule loop_stepE)
    (auto simp: complete_inv_worker,
     auto simp: complete_inv_def flags_inv_def order_inv_def mq_defs all_stops_filter
       split: if_splits)

text \<open>The flags in use, finished or not, are the ones handed out so far: a new message has a
  flag of its own.\<close>

fun flag_of :: "'c message \<Rightarrow> nat set" where
  "flag_of (CallInEventLoopMessage i f) = {i}"
| "flag_of (StopMessage i) = {i}"
| "flag_of m = {}"

definition ids_inv :: "'c mqsys \<Rightarrow> bool" where
  "ids_inv s \<longleftrightarrow> (\<forall>i \<in> m_done s. i < nextId s) \<and>
     (\<forall>m \<in> set (in_hand (worker s) @ m_queue s). \<forall>i \<in> flag_of m. i < nextId s)"

lemma handle_flags: "m_done (handle msg q) = m_done q \<union> flag_of msg"
  by (cases msg) auto

lemma skip_flags: "m_done (skip msg q) = m_done q \<union> flag_of msg"
  by (cases msg) auto

lemma clear_loop_flags: "m_done (clear_loop ms q) = m_done q \<union> \<Union> (flag_of ` set ms)"
  by (induction ms arbitrary: q) (auto simp: skip_flags)

lemma ids_inv_worker: "worker_step s s' \<Longrightarrow> ids_inv s \<Longrightarrow> ids_inv s'"
  by (erule worker_stepE)
    (auto simp: ids_inv_def mq_defs handle_flags split: list.splits)

lemma ids_inv_loop: "loop_step s s' \<Longrightarrow> ids_inv s \<Longrightarrow> ids_inv s'"
  by (erule loop_stepE)
    (auto simp: ids_inv_worker,
     auto simp: ids_inv_def mq_defs doClear_def clear_loop_flags less_Suc_eq ball_Un
       split: if_splits)

section \<open>The interpretations\<close>

interpretation mq_runs: invariant_system "mq_start c" mq_step
  "\<lambda>s. flags_inv s \<and> waiters_inv s \<and> order_inv s \<and> history_inv c s" for c :: 'c
  by unfold_locales
    (simp add: mq_start_def mq.defs MessageQueue_def flags_inv_def waiters_inv_def order_inv_def
       history_inv_def,
     blast intro: flags_inv_step waiters_inv_step order_inv_step history_inv_step)

interpretation loop_runs: invariant_system "mq_start c" loop_step
  "\<lambda>s. flags_inv s \<and> order_inv s \<and> complete_inv s \<and> ids_inv s" for c :: 'c
  by unfold_locales
    (simp add: mq_start_def mq.defs MessageQueue_def flags_inv_def order_inv_def complete_inv_def
       ids_inv_def,
     blast intro: flags_inv_loop order_inv_loop complete_inv_loop ids_inv_loop)

section \<open>Progress of the worker\<close>

text \<open>How far the worker is from having emptied the queue: it decreases with each of its
  steps.\<close>

fun worker_rank :: "'c worker \<Rightarrow> nat" where
  "worker_rank (Handling msg) = 2"
| "worker_rank LoopTest = 1"
| "worker_rank w = 0"

definition work_left :: "'c mqsys \<Rightarrow> nat" where
  "work_left s = 3 * length (m_queue s) + worker_rank (worker s)"

lemma pending_step:
  assumes "flags_inv s" "order_inv s" "call_pending i s" "i \<notin> m_done s"
  shows "\<exists>s'. worker_step s s' \<and> work_left s' < work_left s"
proof (cases "worker s")
  case (Handling msg)
  then show ?thesis
    by (intro exI conjI, rule worker_step.handle) (auto simp: work_left_def)
next
  case WaitingForMessage
  with assms(3,4) obtain msg rest where q: "m_queue s = msg # rest"
    by (cases "m_queue s") (auto simp: call_pending_def)
  with WaitingForMessage have "worker_step s (s\<lparr>m_queue := rest, worker := Handling msg\<rparr>)"
    using worker_step.take [of s msg "s\<lparr>m_queue := rest\<rparr>"] by (simp add: waitForMessage_def)
  with q WaitingForMessage show ?thesis by (auto simp: work_left_def)
next
  case LoopTest
  with assms have "m_running s"
    by (fastforce simp: order_inv_def call_pending_def list_all_iff)
  with LoopTest show ?thesis
    by (intro exI conjI, rule worker_step.again) (auto simp: work_left_def)
qed (use assms in \<open>fastforce simp: flags_inv_def order_inv_def call_pending_def list_all_iff\<close>)+

lemma pending_finishes:
  "flags_inv s \<Longrightarrow> order_inv s \<Longrightarrow> call_pending i s \<Longrightarrow> \<exists>s'. worker_step\<^sup>*\<^sup>* s s' \<and> i \<in> m_done s'"
proof (induction s rule: measure_induct_rule [of work_left])
  case (less s)
  show ?case
  proof (cases "i \<in> m_done s")
    case False
    with less.prems obtain s' where s': "worker_step s s'" "work_left s' < work_left s"
      using pending_step by blast
    then obtain s'' where "worker_step\<^sup>*\<^sup>* s' s''" "i \<in> m_done s''"
      using less flags_inv_worker order_inv_worker call_pending_worker by meson
    with s'(1) show ?thesis by (meson converse_rtranclp_into_rtranclp)
  qed auto
qed

section \<open>Properties\<close>

text \<open>A run for the witnesses: the loop is started, a function is called in it by thread 0,
  then thread 1 stops the loop and the worker finishes.\<close>

definition demo_start :: "nat mqsys" where
  "demo_start = \<lparr>m_queue = [], m_running = False, m_acceptingMessages = False, m_done = {},
     loopState = 0, worker = NoThread, detached = False, callers = (\<lambda>_. Free), nextId = 0,
     accepted = [], handled = []\<rparr>"

definition demo_called :: "nat mqsys" where
  "demo_called = demo_start\<lparr>m_running := True, m_acceptingMessages := True,
     worker := WaitingForMessage, callers := (\<lambda>_. Free)(0 := InCall 0), nextId := 1,
     m_queue := [CallInEventLoopMessage 0 Suc], accepted := [CallInEventLoopMessage 0 Suc]\<rparr>"

definition demo_stopping :: "nat mqsys" where
  "demo_stopping = demo_called\<lparr>m_acceptingMessages := False,
     callers := (\<lambda>_. Free)(0 := InCall 0, 1 := InStop 1), nextId := 2,
     m_queue := [CallInEventLoopMessage 0 Suc, StopMessage 1],
     accepted := [CallInEventLoopMessage 0 Suc, StopMessage 1]\<rparr>"

definition demo_exited :: "nat mqsys" where
  "demo_exited = demo_stopping\<lparr>m_queue := [], m_running := False, m_done := {0, 1}, loopState := 1,
     worker := Exited, handled := [CallInEventLoopMessage 0 Suc, StopMessage 1]\<rparr>"

lemma demo_start_ok: "mq_start 0 demo_start"
  by (simp add: mq_start_def demo_start_def mq.defs MessageQueue_def)

lemma demo_call: "loop_step\<^sup>*\<^sup>* demo_start demo_called"
proof -
  let ?s = "demo_start\<lparr>m_running := True, m_acceptingMessages := True, worker := WaitingForMessage\<rparr>"
  have "loop_step demo_start ?s"
    using loop_step.start [of demo_start] by (simp add: demo_start_def start_def)
  moreover have "loop_step ?s demo_called"
    using loop_step.call [of ?s 0 Suc 0 "?s\<lparr>m_queue := [CallInEventLoopMessage 0 Suc]\<rparr>"]
    by (simp add: demo_called_def demo_start_def callInEventLoop_def postMessage_def)
  ultimately show ?thesis by (meson r_into_rtranclp rtranclp_trans)
qed

lemma demo_stop: "loop_step\<^sup>*\<^sup>* demo_called demo_stopping"
proof -
  let ?s = "demo_called\<lparr>callers := (callers demo_called)(1 := StopChecked)\<rparr>"
  have "loop_step demo_called ?s"
    by (rule loop_step.stop_check) (simp_all add: demo_called_def demo_start_def)
  moreover have "loop_step ?s demo_stopping"
    using loop_step.stop_request [of ?s 1]
    by (simp add: demo_stopping_def demo_called_def demo_start_def stopRequest_def numeral_2_eq_2)
  ultimately show ?thesis by (meson r_into_rtranclp rtranclp_trans)
qed

lemma worker_round:
  assumes "worker s = WaitingForMessage" "m_queue s = msg # rest"
  shows "worker_step\<^sup>*\<^sup>* s ((handle msg (s\<lparr>m_queue := rest\<rparr>))\<lparr>handled := handled s @ [msg],
    worker := if m_running s \<and> \<not> is_stop msg then WaitingForMessage else Exited\<rparr>)"
proof -
  let ?t = "s\<lparr>m_queue := rest, worker := Handling msg\<rparr>"
  let ?h = "(handle msg ?t)\<lparr>worker := LoopTest, handled := handled s @ [msg]\<rparr>"
  have "worker_step s ?t"
    using assms worker_step.take [of s msg "s\<lparr>m_queue := rest\<rparr>"] by (simp add: waitForMessage_def)
  moreover have "worker_step ?t ?h"
    using worker_step.handle [of ?t msg] by simp
  moreover have "worker_step ?h (?h\<lparr>worker := if m_running s \<and> \<not> is_stop msg then WaitingForMessage else Exited\<rparr>)"
    using worker_step.again [of ?h] worker_step.quit [of ?h] by simp
  ultimately have "worker_step\<^sup>*\<^sup>* s (?h\<lparr>worker := if m_running s \<and> \<not> is_stop msg then WaitingForMessage else Exited\<rparr>)"
    by (meson r_into_rtranclp rtranclp_trans)
  then show ?thesis by (cases msg) simp_all
qed

lemma worker_steps_loop: "worker_step\<^sup>*\<^sup>* s s' \<Longrightarrow> loop_step\<^sup>*\<^sup>* s s'"
  by (induction rule: rtranclp_induct) (auto intro: loop_step.work rtranclp.rtrancl_into_rtrancl)

lemma loop_steps_mq: "loop_step\<^sup>*\<^sup>* s s' \<Longrightarrow> mq_step\<^sup>*\<^sup>* s s'"
  by (induction rule: rtranclp_induct) (auto intro: mq_step.loop rtranclp.rtrancl_into_rtrancl)

lemma demo_exit: "loop_step\<^sup>*\<^sup>* demo_stopping demo_exited"
proof -
  let ?s = "demo_stopping\<lparr>m_queue := [StopMessage 1], m_done := {0}, loopState := 1,
    handled := [CallInEventLoopMessage 0 Suc]\<rparr>"
  note d = demo_exited_def demo_stopping_def demo_called_def demo_start_def
  have "worker_step\<^sup>*\<^sup>* demo_stopping ?s"
    using worker_round [of demo_stopping "CallInEventLoopMessage 0 Suc" "[StopMessage 1]"] by (simp add: d)
  moreover have "worker_step\<^sup>*\<^sup>* ?s demo_exited"
    using worker_round [of ?s "StopMessage 1" "[]"] by (simp add: d insert_commute)
  ultimately show ?thesis by (meson worker_steps_loop rtranclp_trans)
qed

lemma demo_run: "loop_step\<^sup>*\<^sup>* demo_start demo_exited"
  using demo_call demo_stop demo_exit by (meson rtranclp_trans)

text \<open>
  C6. Serialisation. Whatever threads post messages, call functions, clear or stop the queue
  and however their steps interleave with the worker's, the state owned by the event loop is
  the result of applying the effects of the handled messages one after the other, and these
  are a subsequence of the accepted messages: each is handled at most once, in the order of
  acceptance.
\<close>

theorem event_loop_serialises:
  assumes "mq_start c s0" and "mq_step\<^sup>*\<^sup>* s0 s"
  shows "loopState s = fold msg_effect (handled s) c \<and> subseq (handled s) (accepted s)"
  using mq_runs.inv_reachable [OF assms] subseq_keep_prefix [of "handled s"]
  by (auto simp: history_inv_def)

theorem event_loop_serialises_witness:
  "loopState demo_exited = fold msg_effect [CallInEventLoopMessage 0 Suc, StopMessage 1] 0 \<and>
   subseq (handled demo_exited) (accepted demo_exited)"
  using event_loop_serialises [OF demo_start_ok loop_steps_mq [OF demo_run]]
  by (simp add: demo_exited_def)

text \<open>
  C7. Progress of \<open>callInEventLoop\<close>. In every reachable state, a thread that waits in
  \<open>CallInEventLoopMessage::wait\<close> is released by steps of the worker alone: no interleaving of
  posts, clears and stops leaves it waiting for a message nobody will finish.
\<close>

theorem waiting_call_is_released:
  assumes "mq_start c s0" and "mq_step\<^sup>*\<^sup>* s0 s" and "callers s t = InCall i"
  shows "\<exists>s'. worker_step\<^sup>*\<^sup>* s s' \<and> i \<in> m_done s'"
  using mq_runs.inv_reachable [OF assms(1,2)] assms(3) pending_finishes [of s i]
  by (auto simp: waiters_inv_def)

theorem waiting_call_is_released_witness:
  "\<exists>s'. worker_step\<^sup>*\<^sup>* demo_stopping s' \<and> 0 \<in> m_done s'"
proof (rule waiting_call_is_released [OF demo_start_ok])
  show "mq_step\<^sup>*\<^sup>* demo_start demo_stopping"
    using demo_call demo_stop by (blast intro: loop_steps_mq rtranclp_trans)
  show "callers demo_stopping 0 = InCall 0"
    by (simp add: demo_stopping_def)
qed

text \<open>
  C8. An orderly stop loses nothing. When the loop is stopped from another thread and nobody
  calls \<open>clear\<close>, the worker that has exited has handled every accepted message (the stop
  requests apart), in the order of acceptance.
\<close>

theorem stop_drains_queue:
  assumes "mq_start c s0" and "loop_step\<^sup>*\<^sup>* s0 s" and "worker s = Exited"
  shows "work_of (handled s) = work_of (accepted s) \<and>
         loopState s = fold msg_effect (accepted s) c"
proof -
  have inv: "flags_inv s" "order_inv s" "complete_inv s"
    using loop_runs.inv_reachable [OF assms(1,2)] by auto
  then have "list_all is_stop (m_queue s)"
    using assms(3) by (simp add: flags_inv_def order_inv_def)
  then have h: "work_of (handled s) = work_of (accepted s)"
    using inv(3) assms(3) by (simp add: complete_inv_def all_stops_filter)
  have eff: "fold msg_effect ms = fold msg_effect (work_of ms)" for ms :: "'a message list"
  proof (induction ms)
    case (Cons m ms)
    then show ?case by (cases m) simp_all
  qed simp
  have "loopState s = fold msg_effect (handled s) c"
    using mq_runs.inv_reachable [OF assms(1) loop_steps_mq [OF assms(2)]] by (simp add: history_inv_def)
  with h eff [of "handled s"] eff [of "accepted s"] show ?thesis by simp
qed

theorem stop_drains_queue_witness:
  "loopState demo_exited = fold msg_effect [CallInEventLoopMessage 0 Suc, StopMessage 1] 0"
  using stop_drains_queue [OF demo_start_ok demo_run]
  by (simp add: demo_exited_def demo_stopping_def)

section \<open>A stop that comes too late\<close>








end
