(* ===== verification/Timer_Thread.thy ===== *)
theory Timer_Thread
  imports Rialto_Prelude
begin

text \<open>
  \<open>Timer.cpp\<close>: a timer with a thread of its own that calls a function after a timeout, once or again and
  again, until it is cancelled. The web audio client uses it to go on pushing samples.

  The thread reads and writes the atomic \<open>m_active\<close> without the lock of the canceller, which takes no
  lock at all, so that the steps of the model are single accesses. \<open>wait_for\<close> is the loop of the standard
  library: it tests the predicate (\<open>Testing\<close>), goes to sleep (\<open>Going_To_Sleep\<close>: the predicate was tested,
  the thread does not sleep yet), and sleeps (\<open>Asleep\<close>) until it is notified, wakes up by itself, or the
  timeout has passed (\<open>expired\<close>); then it tests the predicate once more. The other steps are the second test
  of the flag that decides about the callback, the callback, and the test of the loop.

  \<open>doCancel\<close> on another thread clears the flag, notifies and joins the thread, if that has not been done
  (the destructor cancels again); on the thread itself, that is in the callback, it only clears the flag.
  One thread at a time cancels a timer from outside.
\<close>

section \<open>The timer and its thread\<close>

datatype TimerType = ONE_SHOT | PERIODIC

datatype timer_pc = Testing | Going_To_Sleep | Asleep | Deciding | Calling | Looping | Finished

datatype canceller = Not_Called | Notifying_Timer | Joining_Timer | Cancelled

record timer =
  t_active :: bool
  t_callback :: bool
  t_type :: TimerType
  t_pc :: timer_pc
  t_cancel :: canceller
  t_calls :: nat

text \<open>The constructor; \<open>callback\<close> says whether the function is not empty.\<close>

definition Timer :: "bool \<Rightarrow> TimerType \<Rightarrow> timer" where
  "Timer callback timerType =
     \<lparr>t_active = True, t_callback = callback, t_type = timerType, t_pc = Testing, t_cancel = Not_Called, t_calls = 0\<rparr>"

text \<open>One step of the thread; \<open>None\<close> while it sleeps and after its end. In \<open>Calling\<close> the call is decided or
  running; it is counted when it returns.\<close>

definition timer_thread :: "bool \<Rightarrow> timer \<Rightarrow> timer option" where
  "timer_thread expired t =
     (case t_pc t of
        Testing \<Rightarrow>
          if \<not> t_active t then Some (t\<lparr>t_pc := Looping\<rparr>) else Some (t\<lparr>t_pc := Going_To_Sleep\<rparr>)
      | Going_To_Sleep \<Rightarrow> Some (t\<lparr>t_pc := Asleep\<rparr>)
      | Asleep \<Rightarrow>
          if \<not> expired then None
          else if \<not> t_active t then Some (t\<lparr>t_pc := Looping\<rparr>) else Some (t\<lparr>t_pc := Deciding\<rparr>)
      | Deciding \<Rightarrow>
          if t_active t \<and> t_callback t then Some (t\<lparr>t_pc := Calling\<rparr>)
          else Some (t\<lparr>t_pc := Looping\<rparr>)
      | Calling \<Rightarrow> Some (t\<lparr>t_pc := Looping, t_calls := t_calls t + 1\<rparr>)
      | Looping \<Rightarrow>
          if t_type t = PERIODIC \<and> t_active t then Some (t\<lparr>t_pc := Testing\<rparr>)
          else Some (t\<lparr>t_active := False, t_pc := Finished\<rparr>)
      | Finished \<Rightarrow> None)"

text \<open>A notification, or a wake-up without one, reaches the thread only while it sleeps.\<close>

definition wake :: "timer \<Rightarrow> timer" where
  "wake t = (if t_pc t = Asleep then t\<lparr>t_pc := Testing\<rparr> else t)"

definition isActive :: "timer \<Rightarrow> bool" where
  "isActive t = t_active t"

definition joinable :: "timer \<Rightarrow> bool" where
  "joinable t \<longleftrightarrow> t_cancel t \<noteq> Cancelled"

definition doCancel :: "bool \<Rightarrow> timer \<Rightarrow> timer" where
  "doCancel on_timer_thread t =
     (if \<not> on_timer_thread \<and> joinable t then t\<lparr>t_active := False, t_cancel := Notifying_Timer\<rparr>
      else t\<lparr>t_active := False\<rparr>)"

definition notify_one :: "timer \<Rightarrow> timer" where
  "notify_one t = (wake t)\<lparr>t_cancel := Joining_Timer\<rparr>"

definition join_timer :: "timer \<Rightarrow> timer option" where
  "join_timer t = (if t_pc t = Finished then Some (t\<lparr>t_cancel := Cancelled\<rparr>) else None)"

inductive timer_step :: "timer \<Rightarrow> timer \<Rightarrow> bool" where
  thread: "timer_thread expired t = Some t' \<Longrightarrow> timer_step t t'"
| spurious: "timer_step t (wake t)"
| cancel: "t_cancel t = Not_Called \<or> t_cancel t = Cancelled \<Longrightarrow> timer_step t (doCancel False t)"
| cancel_in_callback: "t_pc t = Calling \<Longrightarrow> timer_step t (doCancel True t)"
| notify: "t_cancel t = Notifying_Timer \<Longrightarrow> timer_step t (notify_one t)"
| joined: "t_cancel t = Joining_Timer \<Longrightarrow> join_timer t = Some t' \<Longrightarrow> timer_step t t'"

lemmas cancel_defs = doCancel_def joinable_def wake_def notify_one_def join_timer_def

definition timer_start :: "timer \<Rightarrow> bool" where
  "timer_start t \<longleftrightarrow> (\<exists>callback timerType. t = Timer callback timerType)"

section \<open>Cancelling\<close>

definition timer_inv :: "timer \<Rightarrow> bool" where
  "timer_inv t \<longleftrightarrow>
     (t_cancel t \<noteq> Not_Called \<longrightarrow> \<not> t_active t) \<and> (t_cancel t = Cancelled \<longrightarrow> t_pc t = Finished) \<and>
     (t_pc t = Finished \<longrightarrow> \<not> t_active t) \<and>
     (t_type t = ONE_SHOT \<longrightarrow> t_calls t \<le> 1 \<and> (t_pc t \<noteq> Looping \<and> t_pc t \<noteq> Finished \<longrightarrow> t_calls t = 0))"

interpretation timer_runs: invariant_system timer_start timer_step timer_inv
proof
  show "timer_inv t" if "timer_start t" for t
    using that by (auto simp: timer_start_def Timer_def timer_inv_def)
  show "timer_inv t'" if "timer_step t t'" "timer_inv t" for t t'
    using that
    by cases (auto simp: timer_inv_def timer_thread_def cancel_defs split: timer_pc.splits if_splits)
qed

lemma timer_type: "timer_step\<^sup>*\<^sup>* t t' \<Longrightarrow> t_type t' = t_type t"
proof (induction rule: rtranclp_induct)
  case (step t1 t2)
  from step(2) have "t_type t2 = t_type t1"
    by cases (auto simp: timer_thread_def cancel_defs split: timer_pc.splits if_splits)
  with step show ?case by simp
qed simp

lemma finished_stays:
  "timer_step\<^sup>*\<^sup>* t t' \<Longrightarrow> t_pc t = Finished \<Longrightarrow> t_pc t' = Finished \<and> t_calls t' = t_calls t"
proof (induction rule: rtranclp_induct)
  case (step t1 t2)
  from step(2,3) step(4) show ?case
    by cases (auto simp: timer_thread_def cancel_defs split: timer_pc.splits if_splits)
qed simp

text \<open>The thread on its own, with or without the timeout passing.\<close>

fun run_thread :: "bool \<Rightarrow> nat \<Rightarrow> timer \<Rightarrow> timer" where
  "run_thread expired 0 t = t"
| "run_thread expired (Suc n) t =
     (case timer_thread expired t of None \<Rightarrow> t | Some t' \<Rightarrow> run_thread expired n t')"

abbreviation sleepy :: "timer \<Rightarrow> bool" where
  "sleepy t \<equiv> t_pc t = Going_To_Sleep \<or> t_pc t = Asleep"

lemma inactive_thread_ends:
  assumes "\<not> t_active t"
  shows "t_pc (run_thread True 3 t) = Finished"
    "\<not> sleepy t \<Longrightarrow> t_pc (run_thread expired 2 t) = Finished"
  using assms by (cases "t_pc t"; simp add: numeral_2_eq_2 numeral_3_eq_3 timer_thread_def)+

text \<open>A thread that has missed the notification.\<close>

lemma sleeps_on: "sleepy t \<Longrightarrow> sleepy (run_thread False n t)"
proof -
  have "t_pc t = Asleep \<Longrightarrow> run_thread False n t = t" for t n
    by (cases n) (simp_all add: timer_thread_def)
  then show "sleepy t \<Longrightarrow> sleepy (run_thread False n t)"
    by (cases n) (auto simp: timer_thread_def)
qed

text \<open>With the flag cleared no call is decided any more.\<close>

lemma inactive_calls:
  assumes "timer_step\<^sup>*\<^sup>* t t'" "\<not> t_active t"
  shows "\<not> t_active t' \<and> t_calls t' + of_bool (t_pc t' = Calling) \<le> t_calls t + of_bool (t_pc t = Calling)"
  using assms
proof (induction rule: rtranclp_induct)
  case (step t1 t2)
  then have "\<not> t_active t1" "t_calls t1 + of_bool (t_pc t1 = Calling) \<le> t_calls t + of_bool (t_pc t = Calling)"
    by simp_all
  with step(2) show ?case
    by cases (auto simp: timer_thread_def cancel_defs split: timer_pc.splits if_splits)
qed simp

text \<open>
  C10. A cancelled timer is silent. In every reachable state of a timer and its thread: a one-shot timer
  has called its function at most once; when \<open>cancel\<close> has returned on another thread, the thread of the
  timer has ended, so that the function is not running and will not be called; once the flag is cleared,
  only a call that was already decided is still made, and the thread ends within two steps when it is not
  about to sleep, and within three when the timeout has passed. But the notification is sent without the
  lock: a thread that has tested the flag before and does not sleep yet misses it, and then the canceller
  cannot join it, however long the thread is given, until the timeout passes or the thread wakes up by
  itself.
\<close>

theorem cancelled_timer_is_silent:
  assumes "timer_step\<^sup>*\<^sup>* (Timer callback timerType) t"
  shows "(timerType = ONE_SHOT \<longrightarrow> t_calls t \<le> 1) \<and>
    (t_cancel t = Cancelled \<longrightarrow> t_pc t = Finished \<and> (\<forall>t'. timer_step\<^sup>*\<^sup>* t t' \<longrightarrow> t_calls t' = t_calls t)) \<and>
    (\<not> isActive t \<longrightarrow>
       (\<forall>t'. timer_step\<^sup>*\<^sup>* t t' \<longrightarrow> t_calls t' \<le> t_calls t + of_bool (t_pc t = Calling)) \<and>
       t_pc (run_thread True 3 t) = Finished \<and>
       (\<not> sleepy t \<longrightarrow> t_pc (run_thread False 2 t) = Finished)) \<and>
    (t_cancel t = Joining_Timer \<and> sleepy t \<longrightarrow> (\<forall>n. join_timer (run_thread False n t) = None))"
proof -
  have start: "timer_start (Timer callback timerType)" by (auto simp: timer_start_def)
  have inv: "timer_inv t" by (rule timer_runs.inv_reachable [OF start assms])
  have "t_type t = timerType" using timer_type [OF assms] by (simp add: Timer_def)
  then have one: "timerType = ONE_SHOT \<longrightarrow> t_calls t \<le> 1" using inv by (simp add: timer_inv_def)
  have ended: "t_cancel t = Cancelled \<longrightarrow> t_pc t = Finished" using inv by (simp add: timer_inv_def)
  have bound: "t_calls t' \<le> t_calls t + of_bool (t_pc t = Calling)"
    if "\<not> isActive t" "timer_step\<^sup>*\<^sup>* t t'" for t'
    using inactive_calls [OF that(2)] that(1) by (simp add: isActive_def)
  have missed: "join_timer (run_thread False n t) = None" if "sleepy t" for n
    using sleeps_on [OF that, of n] by (auto simp: join_timer_def)
  show ?thesis
    using one ended bound missed finished_stays inactive_thread_ends [of t]
    by (simp add: isActive_def)
qed

text \<open>A timer that is cancelled while its thread goes to sleep.\<close>

theorem cancelled_timer_is_silent_witness:
  "let t = (Timer True ONE_SHOT)\<lparr>t_active := False, t_pc := Going_To_Sleep, t_cancel := Joining_Timer\<rparr>
   in timer_step\<^sup>*\<^sup>* (Timer True ONE_SHOT) t \<and> (\<forall>n. join_timer (run_thread False n t) = None) \<and>
      (\<forall>t'. timer_step\<^sup>*\<^sup>* t t' \<longrightarrow> t_calls t' = 0)"
proof -
  let ?t0 = "Timer True ONE_SHOT"
  let ?t1 = "?t0\<lparr>t_pc := Going_To_Sleep\<rparr>"
  let ?t2 = "?t1\<lparr>t_active := False, t_cancel := Notifying_Timer\<rparr>"
  let ?t3 = "?t1\<lparr>t_active := False, t_cancel := Joining_Timer\<rparr>"
  have "timer_step ?t0 ?t1" by (rule timer_step.thread [where expired = False]) (simp add: timer_thread_def Timer_def)
  moreover have "timer_step ?t1 ?t2" using timer_step.cancel [of ?t1] by (simp add: cancel_defs Timer_def)
  moreover have "timer_step ?t2 ?t3" using timer_step.notify [of ?t2] by (simp add: cancel_defs)
  ultimately have run: "timer_step\<^sup>*\<^sup>* ?t0 ?t3" by (meson converse_rtranclp_into_rtranclp rtranclp.rtrancl_refl)
  from cancelled_timer_is_silent [OF this] have "\<forall>n. join_timer (run_thread False n ?t3) = None"
    "\<forall>t'. timer_step\<^sup>*\<^sup>* ?t3 t' \<longrightarrow> t_calls t' = 0"
    by (simp_all add: Timer_def isActive_def)
  with run show ?thesis by (simp add: Timer_def)
qed

end
