(* ===== verification/Gst_Types.thy ===== *)
theory Gst_Types
  imports Rialto_Prelude Complex_Main
begin

text \<open>
  The data that the sources exchange with GStreamer and with the Rialto client library.

  Neither library is part of the repository. Its enumerations are datatypes with the
  enumerators that the sources name (and one more for the \<open>default\<close> branches), its opaque
  objects are records of the answers that the accessor functions called by the sources give,
  and its operations that change something are fields of the record \<open>env\<close>: every function of
  the model that makes such a call takes an \<open>env\<close>, so that the theorems hold for all answers.
  Output parameters that a call may leave unwritten are the \<open>option\<close> in an \<open>answer\<close>.

  \<open>double\<close> values are only stored, compared and passed on; they are real numbers here.
\<close>

section \<open>GStreamer\<close>

datatype GstState =
  GST_STATE_VOID_PENDING | GST_STATE_NULL | GST_STATE_READY | GST_STATE_PAUSED | GST_STATE_PLAYING

datatype GstStateChange =
    GST_STATE_CHANGE_NULL_TO_READY | GST_STATE_CHANGE_READY_TO_PAUSED
  | GST_STATE_CHANGE_PAUSED_TO_PLAYING | GST_STATE_CHANGE_PLAYING_TO_PAUSED
  | GST_STATE_CHANGE_PAUSED_TO_READY | GST_STATE_CHANGE_READY_TO_NULL | GST_STATE_CHANGE_OTHER

datatype GstStateChangeReturn =
    GST_STATE_CHANGE_FAILURE | GST_STATE_CHANGE_SUCCESS | GST_STATE_CHANGE_ASYNC
  | GST_STATE_CHANGE_NO_PREROLL

datatype GstFlowReturn = GST_FLOW_OK | GST_FLOW_FLUSHING | GST_FLOW_ERROR

datatype GstFormat = GST_FORMAT_UNDEFINED | GST_FORMAT_DEFAULT | GST_FORMAT_BYTES | GST_FORMAT_TIME
  | GST_FORMAT_BUFFERS | GST_FORMAT_PERCENT

text \<open>\<open>GST_CLOCK_TIME_NONE\<close> and \<open>GST_BUFFER_OFFSET_NONE\<close> are \<open>(guint64) -1\<close>;
  \<open>GST_SEQNUM_INVALID\<close> is 0.\<close>

definition GST_CLOCK_TIME_NONE :: u64 where "GST_CLOCK_TIME_NONE = -1"
definition GST_BUFFER_OFFSET_NONE :: u64 where "GST_BUFFER_OFFSET_NONE = -1"
definition GST_SEQNUM_INVALID :: u32 where "GST_SEQNUM_INVALID = 0"
definition GST_STREAM_ERROR_DECRYPT :: int where "GST_STREAM_ERROR_DECRYPT = 12"

record GstSegment =
  seg_flags_reset_only :: bool    \<comment> \<open>\<open>flags == GST_SEGMENT_FLAG_RESET\<close>\<close>
  seg_rate :: real
  seg_applied_rate :: real
  seg_format :: GstFormat
  seg_start :: u64
  seg_stop :: u64
  seg_duration :: u64

text \<open>A \<open>GValue\<close> inside a \<open>GstStructure\<close>, by the answers of \<open>gst_value_get_buffer\<close> (the bytes
  of the buffer, or \<open>None\<close> inside when it cannot be mapped), \<open>g_value_get_string\<close>,
  \<open>gst_value_get_bitmask\<close> and the elements of a \<open>GstValueArray\<close>.\<close>

datatype field_value = FieldValue
  (gst_value_get_buffer: "u8 list option option")
  (field_get_string: "string option")
  (gst_value_get_bitmask: u64)
  (gst_value_array: "field_value list")

record GstStructure =
  gst_structure_get_name :: "string option"
  gst_structure_get_int :: "string \<Rightarrow> int option"
  gst_structure_get_uint :: "string \<Rightarrow> u32 option"
  gst_structure_get_int64 :: "string \<Rightarrow> int option"
  gst_structure_get_uint64 :: "string \<Rightarrow> u64 option"
  gst_structure_get_boolean :: "string \<Rightarrow> bool option"
  gst_structure_get_double :: "string \<Rightarrow> real option"
  gst_structure_get_string :: "string \<Rightarrow> string option"
  gst_structure_get_fraction :: "string \<Rightarrow> (int \<times> int) option"
  gst_structure_get_value :: "string \<Rightarrow> field_value option"

text \<open>A structure with a name and no field; the fields wanted are added by record update.\<close>

definition named_structure :: "string option \<Rightarrow> GstStructure" where
  "named_structure n = \<lparr>gst_structure_get_name = n, gst_structure_get_int = \<lambda>_. None,
     gst_structure_get_uint = \<lambda>_. None, gst_structure_get_int64 = \<lambda>_. None,
     gst_structure_get_uint64 = \<lambda>_. None, gst_structure_get_boolean = \<lambda>_. None,
     gst_structure_get_double = \<lambda>_. None, gst_structure_get_string = \<lambda>_. None,
     gst_structure_get_fraction = \<lambda>_. None, gst_structure_get_value = \<lambda>_. None\<rparr>"

text \<open>Caps: their first structure, and the answer of \<open>gst_codec_utils_opus_parse_caps\<close>
  (sample rate, channels) with the bytes of the header that
  \<open>gst_codec_utils_opus_create_header\<close> makes from it (\<open>None\<close> if it cannot be mapped).\<close>

record GstCaps =
  caps_structure :: GstStructure
  opus_parse_caps :: "(u32 \<times> u8) option"
  opus_header :: "u8 list option"

text \<open>A buffer: its times, its bytes, whether \<open>gst_buffer_map\<close> succeeds, the structure of the
  Rialto protection metadata and the audio clipping metadata.\<close>

record GstBuffer =
  GST_BUFFER_PTS :: u64
  GST_BUFFER_DURATION :: u64
  GST_BUFFER_OFFSET :: u64
  buffer_bytes :: "u8 list"
  buffer_maps :: bool
  protection_meta :: "GstStructure option"
  clipping_meta :: "(u64 \<times> u64) option"

definition gst_buffer_map :: "GstBuffer \<Rightarrow> u8 list option" where
  "gst_buffer_map b = (if buffer_maps b then Some (buffer_bytes b) else None)"

record GstSample =
  sample_buffer :: GstBuffer
  sample_caps :: "GstCaps option"
  sample_segment :: GstSegment

datatype GstMessage =
    MSG_EOS | MSG_ERROR int string | MSG_STATE_CHANGED GstState GstState GstState
  | MSG_ASYNC_START | MSG_ASYNC_DONE | MSG_RESET_TIME | MSG_INSTANT_RATE_REQUEST real u32
  | MSG_QOS GstFormat u64 u64 | MSG_APPLICATION string | MSG_FORWARDED nat

text \<open>Signals that a sink emits.\<close>

datatype sink_signal = BUFFER_UNDERFLOW | FIRST_VIDEO_FRAME

text \<open>The fields of \<open>GstElement\<close> that the sources read and write, the messages posted on the
  bus and the signals emitted.\<close>

record GstElement =
  GST_STATE :: GstState
  GST_STATE_NEXT :: GstState
  GST_STATE_PENDING :: GstState
  GST_STATE_RETURN :: GstStateChangeReturn
  bus :: "GstMessage list"
  signals :: "sink_signal list"

definition gst_element_post_message :: "GstMessage \<Rightarrow> GstElement \<Rightarrow> GstElement" where
  "gst_element_post_message m e = e\<lparr>bus := bus e @ [m]\<rparr>"

definition g_signal_emit :: "sink_signal \<Rightarrow> GstElement \<Rightarrow> GstElement" where
  "g_signal_emit g e = e\<lparr>signals := signals e @ [g]\<rparr>"

lemma post_message_simps [simp]:
  "GST_STATE (gst_element_post_message m e) = GST_STATE e"
  "GST_STATE_NEXT (gst_element_post_message m e) = GST_STATE_NEXT e"
  "GST_STATE_PENDING (gst_element_post_message m e) = GST_STATE_PENDING e"
  "GST_STATE_RETURN (gst_element_post_message m e) = GST_STATE_RETURN e"
  "bus (gst_element_post_message m e) = bus e @ [m]"
  "signals (gst_element_post_message m e) = signals e"
  by (simp_all add: gst_element_post_message_def)

text \<open>Values of GObject properties.\<close>

datatype GValue =
    V_boolean bool | V_int int | V_uint u32 | V_int64 int | V_double real
  | V_string "string option" | V_boxed GstStructure | V_stats u64 u64 | V_sample "GstSample option"

text \<open>The typed readers. The type of a property's value is fixed by its \<open>GParamSpec\<close>; on a
  value of another type they return GLib's zero.\<close>

fun g_value_get_boolean :: "GValue \<Rightarrow> bool" where
  "g_value_get_boolean (V_boolean b) = b" | "g_value_get_boolean _ = False"
fun g_value_get_int :: "GValue \<Rightarrow> int" where
  "g_value_get_int (V_int i) = i" | "g_value_get_int _ = 0"
fun g_value_get_uint :: "GValue \<Rightarrow> u32" where
  "g_value_get_uint (V_uint i) = i" | "g_value_get_uint _ = 0"
fun g_value_get_double :: "GValue \<Rightarrow> real" where
  "g_value_get_double (V_double r) = r" | "g_value_get_double _ = 0"
fun g_value_get_string :: "GValue \<Rightarrow> string option" where
  "g_value_get_string (V_string s) = s" | "g_value_get_string _ = None"
fun g_value_get_boxed :: "GValue \<Rightarrow> GstStructure option" where
  "g_value_get_boxed (V_boxed s) = Some s" | "g_value_get_boxed _ = None"

section \<open>Rialto\<close>

datatype PlaybackState = PS_IDLE | PS_PLAYING | PS_PAUSED | PS_END_OF_STREAM | PS_SEEK_DONE
  | PS_FAILURE | PS_OTHER

datatype MediaSourceType = MST_AUDIO | MST_VIDEO | MST_SUBTITLE | MST_UNKNOWN

datatype MediaSourceStatus = MSS_OK | MSS_EOS | MSS_ERROR | MSS_NO_AVAILABLE_SAMPLES

datatype AddSegmentStatus = ASS_OK | ASS_NO_SPACE | ASS_ERROR

datatype PlaybackError = PE_DECRYPTION | PE_OUTPUT_PROTECTION | PE_UNKNOWN

datatype ApplicationState = AS_UNKNOWN | AS_RUNNING | AS_INACTIVE

datatype EaseType = EASE_LINEAR | EASE_IN_CUBIC | EASE_OUT_CUBIC

datatype EncryptionFormat = EF_CLEAR | EF_CENC | EF_WEBM

datatype CipherMode = CM_UNKNOWN | CM_CBCS | CM_CENC | CM_CBC1 | CM_CENS

datatype CodecDataType = CDT_BUFFER | CDT_STRING

record CodecData =
  cd_data :: "u8 list"
  cd_type :: CodecDataType

datatype SegmentAlignment = SA_UNDEFINED | SA_NAL | SA_AU

datatype StreamFormat = SF_UNDEFINED | SF_RAW | SF_AVC | SF_BYTE_STREAM | SF_HVC1 | SF_HEV1

datatype Layout = INTERLEAVED | NON_INTERLEAVED

datatype Format =
    F_S8 | F_U8 | F_S16LE | F_S16BE | F_U16LE | F_U16BE | F_S24_32LE | F_S24_32BE | F_U24_32LE
  | F_U24_32BE | F_S32LE | F_S32BE | F_U32LE | F_U32BE | F_S24LE | F_S24BE | F_U24LE | F_U24BE
  | F_S20LE | F_S20BE | F_U20LE | F_U20BE | F_S18LE | F_S18BE | F_U18LE | F_U18BE | F_F32LE
  | F_F32BE | F_F64LE | F_F64BE

text \<open>Aggregate initialisers leave the members they do not name at their defaults.\<close>

record AudioConfig =
  numberOfChannels :: u32
  sampleRate :: u32
  codecSpecificConfig :: "u8 list"
  ac_format :: "Format option"
  ac_layout :: "Layout option"
  channelMask :: "u64 option"
  streamHeader :: "u8 list list"
  framed :: "bool option"

definition default_AudioConfig :: AudioConfig where
  "default_AudioConfig = \<lparr>numberOfChannels = 0, sampleRate = 0, codecSpecificConfig = [],
     ac_format = None, ac_layout = None, channelMask = None, streamHeader = [], framed = None\<rparr>"

text \<open>The subclasses of \<open>IMediaPipeline::MediaSource\<close>.\<close>

datatype MediaSource =
    MediaSourceAudio string bool AudioConfig SegmentAlignment StreamFormat "CodecData option"
  | MediaSourceVideo string bool int int SegmentAlignment StreamFormat "CodecData option"
  | MediaSourceVideoDolbyVision string u32 bool int int SegmentAlignment StreamFormat "CodecData option"
  | MediaSourceSubtitle string string

fun getType :: "MediaSource \<Rightarrow> MediaSourceType" where
  "getType (MediaSourceAudio _ _ _ _ _ _) = MST_AUDIO"
| "getType (MediaSourceVideo _ _ _ _ _ _ _) = MST_VIDEO"
| "getType (MediaSourceVideoDolbyVision _ _ _ _ _ _ _ _) = MST_VIDEO"
| "getType (MediaSourceSubtitle _ _) = MST_SUBTITLE"

text \<open>\<open>std::string\<close> as a vector of its bytes.\<close>

definition string_bytes :: "string \<Rightarrow> u8 list" where
  "string_bytes s = map (\<lambda>c. of_nat (of_char c)) s"

section \<open>Answers of calls\<close>

type_synonym 'a answer = "bool \<times> 'a option"

text \<open>The variable passed by reference after the call: unchanged when it was not written.\<close>

definition out :: "'a \<Rightarrow> 'a answer \<Rightarrow> 'a" where
  "out d a = (case snd a of None \<Rightarrow> d | Some v \<Rightarrow> v)"

end
