(* ===== verification/Eme_Utils.thy ===== *)
theory Eme_Utils
  imports Gst_Types
begin

text \<open>
  \<open>GStreamerEMEUtils.cpp\<close>: the protection metadata of a buffer, read from the structure that
  the decryptor attached. Each helper of the source is one function that updates the record
  \<open>BufferProtectionMetadata\<close>. The sub-sample table is the byte table of an ISO \<open>senc\<close> box; the
  main result is that it is decoded exactly, for every table.
\<close>

unbundle bit_operations_syntax

record BufferProtectionMetadata =
  encrypted :: bool
  mediaKeySessionId :: int
  iv :: "u8 list"
  kid :: "u8 list"
  subsamples :: "(u32 \<times> u32) list"
  initWithLast15 :: u32
  cipherMode :: CipherMode
  cryptBlocks :: u32
  skipBlocks :: u32
  encryptionPatternSet :: bool

definition empty_metadata :: BufferProtectionMetadata where
  "empty_metadata = \<lparr>encrypted = False, mediaKeySessionId = -1, iv = [], kid = [], subsamples = [],
     initWithLast15 = 0, cipherMode = CM_UNKNOWN, cryptBlocks = 0, skipBlocks = 0,
     encryptionPatternSet = False\<rparr>"

text \<open>A variable initialised with \<open>d\<close> and passed to \<open>gst_structure_get_...\<close>.\<close>

abbreviation get_or :: "'a \<Rightarrow> 'a option \<Rightarrow> 'a" where
  "get_or d x \<equiv> (case x of None \<Rightarrow> d | Some v \<Rightarrow> v)"

section \<open>The helpers\<close>

definition getEncryptedFromProtectionMetadata ::
  "GstStructure \<Rightarrow> BufferProtectionMetadata \<Rightarrow> BufferProtectionMetadata" where
  "getEncryptedFromProtectionMetadata info m =
     m\<lparr>encrypted := get_or False (gst_structure_get_boolean info ''encrypted'')\<rparr>"

definition getMediaKeySessionIdFromProtectionMetadata ::
  "GstStructure \<Rightarrow> BufferProtectionMetadata \<Rightarrow> BufferProtectionMetadata" where
  "getMediaKeySessionIdFromProtectionMetadata info m =
     m\<lparr>mediaKeySessionId := get_or 0 (gst_structure_get_int info ''mks_id'')\<rparr>"

definition getKIDFromProtectionMetadata ::
  "GstStructure \<Rightarrow> BufferProtectionMetadata \<Rightarrow> BufferProtectionMetadata" where
  "getKIDFromProtectionMetadata info m =
     (case gst_structure_get_value info ''kid'' of
        None \<Rightarrow> m
      | Some value \<Rightarrow>
          (case gst_value_get_buffer value of
             None \<Rightarrow> m
           | Some None \<Rightarrow> m
           | Some (Some mapped) \<Rightarrow> m\<lparr>kid := mapped\<rparr>))"

definition getIVFromProtectionMetadata ::
  "GstStructure \<Rightarrow> BufferProtectionMetadata \<Rightarrow> BufferProtectionMetadata" where
  "getIVFromProtectionMetadata info m =
     (let ivSize0 = get_or 0 (gst_structure_get_uint info ''iv_size'');
          ivSize = (if ivSize0 = 0 \<and> gst_structure_get_string info ''cipher-mode'' = Some ''cbcs''
                    then get_or ivSize0 (gst_structure_get_uint info ''constant_iv_size'')
                    else ivSize0)
      in case gst_structure_get_value info ''iv'' of
           None \<Rightarrow> m
         | Some value \<Rightarrow>
             (case gst_value_get_buffer value of
                None \<Rightarrow> m
              | Some None \<Rightarrow> m
              | Some (Some mapped) \<Rightarrow>
                  if unat ivSize = length mapped then m\<lparr>iv := mapped\<rparr> else m))"

text \<open>One entry of the table at offset \<open>off\<close>: a big-endian 16-bit and a big-endian 32-bit
  number.\<close>

definition subsample_at :: "u8 list \<Rightarrow> nat \<Rightarrow> u32 \<times> u32" where
  "subsample_at bs off =
     (let bytesOfClearData :: u16 = push_bit 8 (ucast (bs ! off)) OR ucast (bs ! (off + 1));
          bytesOfEncryptedData :: u32 =
            push_bit 24 (ucast (bs ! (off + 2))) OR push_bit 16 (ucast (bs ! (off + 3))) OR
            push_bit 8 (ucast (bs ! (off + 4))) OR ucast (bs ! (off + 5))
      in (ucast bytesOfClearData, bytesOfEncryptedData))"

text \<open>The loop over \<open>subSampleIdx\<close>; the first argument counts the iterations left.\<close>

fun subsample_loop :: "nat \<Rightarrow> u8 list \<Rightarrow> nat \<Rightarrow> (u32 \<times> u32) list \<Rightarrow> (u32 \<times> u32) list" where
  "subsample_loop 0 bs off acc = acc"
| "subsample_loop (Suc n) bs off acc =
     subsample_loop n bs (off + 6) (acc @ [subsample_at bs off])"

definition getSubSamplesFromProtectionMetadata ::
  "GstStructure \<Rightarrow> BufferProtectionMetadata \<Rightarrow> BufferProtectionMetadata" where
  "getSubSamplesFromProtectionMetadata info m =
     (let subSampleCount = get_or 0 (gst_structure_get_uint info ''subsample_count'')
      in if subSampleCount = 0 then m
         else case gst_structure_get_value info ''subsamples'' of
           None \<Rightarrow> m
         | Some value \<Rightarrow>
             (case gst_value_get_buffer value of
                None \<Rightarrow> m
              | Some None \<Rightarrow> m
              | Some (Some mapped) \<Rightarrow>
                  if length mapped div 6 = unat subSampleCount
                  then m\<lparr>subsamples := subsample_loop (unat subSampleCount) mapped 0 (subsamples m)\<rparr>
                  else m))"

definition getInitWithLast15FromProtectionMetadata ::
  "GstStructure \<Rightarrow> BufferProtectionMetadata \<Rightarrow> BufferProtectionMetadata" where
  "getInitWithLast15FromProtectionMetadata info m =
     m\<lparr>initWithLast15 := get_or 0 (gst_structure_get_uint info ''init_with_last_15'')\<rparr>"

definition getEncryptionSchemeFromProtectionMetadata ::
  "GstStructure \<Rightarrow> BufferProtectionMetadata \<Rightarrow> BufferProtectionMetadata" where
  "getEncryptionSchemeFromProtectionMetadata info m =
     (let cipherModeBuf = gst_structure_get_string info ''cipher-mode''
      in if cipherModeBuf = Some ''cbcs'' then m\<lparr>cipherMode := CM_CBCS\<rparr>
         else if cipherModeBuf = Some ''cenc'' then m\<lparr>cipherMode := CM_CENC\<rparr>
         else if cipherModeBuf = Some ''cbc1'' then m\<lparr>cipherMode := CM_CBC1\<rparr>
         else if cipherModeBuf = Some ''cens'' then m\<lparr>cipherMode := CM_CENS\<rparr>
         else m\<lparr>cipherMode := CM_UNKNOWN\<rparr>)"

definition getEncryptionPatternFromProtectionMetadata ::
  "GstStructure \<Rightarrow> BufferProtectionMetadata \<Rightarrow> BufferProtectionMetadata" where
  "getEncryptionPatternFromProtectionMetadata info m =
     (case gst_structure_get_uint info ''crypt_byte_block'' of
        None \<Rightarrow> m
      | Some crypt \<Rightarrow>
          (case gst_structure_get_uint info ''skip_byte_block'' of
             None \<Rightarrow> m\<lparr>cryptBlocks := crypt\<rparr>
           | Some sk \<Rightarrow> m\<lparr>cryptBlocks := crypt, skipBlocks := sk, encryptionPatternSet := True\<rparr>))"

definition ProcessProtectionMetadata ::
  "GstBuffer \<Rightarrow> BufferProtectionMetadata \<Rightarrow> BufferProtectionMetadata" where
  "ProcessProtectionMetadata buffer m =
     (case protection_meta buffer of
        None \<Rightarrow> m
      | Some info \<Rightarrow>
          (let m1 = getEncryptedFromProtectionMetadata info m
           in if encrypted m1
              then getEncryptionPatternFromProtectionMetadata info
                    (getEncryptionSchemeFromProtectionMetadata info
                     (getInitWithLast15FromProtectionMetadata info
                      (getSubSamplesFromProtectionMetadata info
                       (getIVFromProtectionMetadata info
                        (getKIDFromProtectionMetadata info
                         (getMediaKeySessionIdFromProtectionMetadata info m1))))))
              else m1))"

section \<open>What the helpers leave alone\<close>

lemma other_fields_getters [simp, frame]:
  "encrypted (getMediaKeySessionIdFromProtectionMetadata info m) = encrypted m"
  "encrypted (getKIDFromProtectionMetadata info m) = encrypted m"
  "encrypted (getIVFromProtectionMetadata info m) = encrypted m"
  "encrypted (getSubSamplesFromProtectionMetadata info m) = encrypted m"
  "encrypted (getInitWithLast15FromProtectionMetadata info m) = encrypted m"
  "encrypted (getEncryptionSchemeFromProtectionMetadata info m) = encrypted m"
  "encrypted (getEncryptionPatternFromProtectionMetadata info m) = encrypted m"
  "subsamples (getEncryptedFromProtectionMetadata info m) = subsamples m"
  "subsamples (getMediaKeySessionIdFromProtectionMetadata info m) = subsamples m"
  "subsamples (getKIDFromProtectionMetadata info m) = subsamples m"
  "subsamples (getIVFromProtectionMetadata info m) = subsamples m"
  "subsamples (getInitWithLast15FromProtectionMetadata info m) = subsamples m"
  "subsamples (getEncryptionSchemeFromProtectionMetadata info m) = subsamples m"
  "subsamples (getEncryptionPatternFromProtectionMetadata info m) = subsamples m"
  by (simp_all add: getMediaKeySessionIdFromProtectionMetadata_def getKIDFromProtectionMetadata_def
      getIVFromProtectionMetadata_def getSubSamplesFromProtectionMetadata_def
      getInitWithLast15FromProtectionMetadata_def getEncryptionSchemeFromProtectionMetadata_def
      getEncryptionPatternFromProtectionMetadata_def getEncryptedFromProtectionMetadata_def Let_def
      split: option.splits)

lemma encrypted_ProcessProtectionMetadata:
  "encrypted (ProcessProtectionMetadata b empty_metadata) \<longleftrightarrow>
     (\<exists>info. protection_meta b = Some info \<and> gst_structure_get_boolean info ''encrypted'' = Some True)"
  by (auto simp: ProcessProtectionMetadata_def Let_def empty_metadata_def
      getEncryptedFromProtectionMetadata_def split: option.splits)

lemma subsamples_ProcessProtectionMetadata:
  assumes "protection_meta b = Some info" "gst_structure_get_boolean info ''encrypted'' = Some True"
  shows "subsamples (ProcessProtectionMetadata b empty_metadata) =
    subsamples (getSubSamplesFromProtectionMetadata info empty_metadata)"
  using assms
  by (simp add: ProcessProtectionMetadata_def Let_def getEncryptedFromProtectionMetadata_def
      getSubSamplesFromProtectionMetadata_def empty_metadata_def split: option.splits)

section \<open>The sub-sample table\<close>

text \<open>The layout of the table as the \<open>senc\<close> box defines it.\<close>

definition senc_entry :: "u16 \<times> u32 \<Rightarrow> u8 list" where
  "senc_entry e = [ucast (drop_bit 8 (fst e)), ucast (fst e),
     ucast (drop_bit 24 (snd e)), ucast (drop_bit 16 (snd e)), ucast (drop_bit 8 (snd e)), ucast (snd e)]"

definition senc_table :: "(u16 \<times> u32) list \<Rightarrow> u8 list" where
  "senc_table es = concat (map senc_entry es)"

lemma length_senc_entry [simp]: "length (senc_entry e) = 6"
  by (simp add: senc_entry_def)

lemma length_senc_table [simp]: "length (senc_table es) = 6 * length es"
  by (induction es) (simp_all add: senc_table_def)

lemma join_u16: "(push_bit 8 (ucast (ucast (drop_bit 8 w) :: u8)) OR ucast (ucast w :: u8)) = (w :: u16)"
  by (rule bit_word_eqI) (auto simp: bit_simps)

lemma join_u32:
  "(push_bit 24 (ucast (ucast (drop_bit 24 w) :: u8)) OR push_bit 16 (ucast (ucast (drop_bit 16 w) :: u8)) OR
    push_bit 8 (ucast (ucast (drop_bit 8 w) :: u8)) OR ucast (ucast w :: u8)) = (w :: u32)" (is "?l = w")
proof (rule bit_word_eqI)
  fix n assume "n < LENGTH(32)"
  then consider "n < 8" | "8 \<le> n" "n < 16" | "16 \<le> n" "n < 24" | "24 \<le> n" "n < 32" by fastforce
  then show "bit ?l n = bit w n"
    by cases (auto simp: bit_simps)
qed

lemma subsample_at_entry:
  "subsample_at (pre @ senc_entry e @ post) (length pre) = (ucast (fst e), snd e)"
  by (simp add: subsample_at_def senc_entry_def nth_append join_u16 join_u32)

lemma subsample_loop_table:
  "subsample_loop (length es) (pre @ senc_table es @ post) (length pre) acc =
     acc @ map (\<lambda>e. (ucast (fst e), snd e)) es"
proof (induction es arbitrary: pre acc)
  case (Cons e es)
  have "subsample_loop (length es) ((pre @ senc_entry e) @ senc_table es @ post)
      (length (pre @ senc_entry e)) (acc @ [(ucast (fst e), snd e)]) =
    (acc @ [(ucast (fst e), snd e)]) @ map (\<lambda>e. (ucast (fst e), snd e)) es"
    by (rule Cons.IH)
  then show ?case
    using subsample_at_entry [of pre e "senc_table es @ post"]
    by (simp add: senc_table_def)
qed (simp add: senc_table_def)

lemma length_subsample_loop: "length (subsample_loop n bs off acc) = length acc + n"
  by (induction n arbitrary: off acc) simp_all

section \<open>Properties\<close>

text \<open>
  C12. Round trip of the sub-sample table. For every table of (clear bytes, encrypted bytes)
  pairs that fits the 32-bit count, a buffer whose protection metadata carries its \<open>senc\<close>
  encoding and its length is decoded by \<open>ProcessProtectionMetadata\<close> to exactly these pairs,
  in order; up to five stray bytes after the table change nothing.
\<close>

theorem subsample_table_roundtrip:
  assumes "protection_meta b = Some info"
    and "gst_structure_get_boolean info ''encrypted'' = Some True"
    and "gst_structure_get_uint info ''subsample_count'' = Some (of_nat (length es))"
    and "gst_structure_get_value info ''subsamples'' = Some v"
    and "gst_value_get_buffer v = Some (Some (senc_table es @ stray))"
    and "length stray < 6" and "length es < 2 ^ 32"
  shows "subsamples (ProcessProtectionMetadata b empty_metadata) =
           map (\<lambda>e. (ucast (fst e), snd e)) es"
proof -
  have n: "unat (of_nat (length es) :: u32) = length es"
    using assms(7) by (simp add: unat_of_nat)
  have "(of_nat (length es) :: u32) = 0 \<longleftrightarrow> es = []"
    using n unat_eq_0 [of "of_nat (length es) :: u32"] by simp
  moreover have "subsample_loop (length es) (senc_table es @ stray) 0 [] = map (\<lambda>e. (ucast (fst e), snd e)) es"
    using subsample_loop_table [of es "[]" stray "[]"] by simp
  moreover have "subsamples empty_metadata = []"
    by (simp add: empty_metadata_def)
  ultimately show ?thesis
    using assms n
    by (simp add: subsamples_ProcessProtectionMetadata getSubSamplesFromProtectionMetadata_def Let_def)
qed

definition demo_protection :: "(u16 \<times> u32) list \<Rightarrow> GstStructure" where
  "demo_protection es = (named_structure (Some ''application/x-cenc''))\<lparr>
     gst_structure_get_boolean := [''encrypted'' \<mapsto> True],
     gst_structure_get_uint := [''subsample_count'' \<mapsto> of_nat (length es)],
     gst_structure_get_value :=
       [''subsamples'' \<mapsto> FieldValue (Some (Some (senc_table es))) None 0 []]\<rparr>"

definition demo_buffer :: "GstStructure option \<Rightarrow> u8 list \<Rightarrow> GstBuffer" where
  "demo_buffer prot bytes = \<lparr>GST_BUFFER_PTS = 0, GST_BUFFER_DURATION = 0,
     GST_BUFFER_OFFSET = GST_BUFFER_OFFSET_NONE, buffer_bytes = bytes, buffer_maps = True,
     protection_meta = prot, clipping_meta = None\<rparr>"

theorem subsample_table_roundtrip_witness:
  "subsamples (ProcessProtectionMetadata
     (demo_buffer (Some (demo_protection [(0x1234, 0xDEADBEEF), (7, 9)])) []) empty_metadata) =
   [(0x1234, 0xDEADBEEF), (7, 9)]"
  using subsample_table_roundtrip [of "demo_buffer (Some (demo_protection [(0x1234, 0xDEADBEEF), (7, 9)])) []"
      "demo_protection [(0x1234, 0xDEADBEEF), (7, 9)]" "[(0x1234, 0xDEADBEEF), (7, 9)]"
      "FieldValue (Some (Some (senc_table [(0x1234, 0xDEADBEEF), (7, 9)]))) None 0 []" "[]"]
  by (simp add: demo_buffer_def demo_protection_def)

end
