(* ===== verification/Buffer_Parser.thy ===== *)
theory Buffer_Parser
  imports Eme_Utils Mse_Utils
begin

text \<open>
  \<open>BufferParser.cpp\<close>: from a sample to the media segment that is handed to the Rialto server.
  \<open>parseBuffer\<close> is the template method of the base class; the part that depends on the media
  type is its argument, and the locale \<open>buffer_parser\<close> states what the base class relies on.
  The three subclasses are its interpretations.
\<close>

section \<open>Segments\<close>

text \<open>The media specific members; the frame rate is \<open>None\<close> when both of its numbers are left at
  \<open>kUndefinedSize\<close>.\<close>

datatype segment_part =
    AudioPart int int u64 u64
  | VideoPart int int "(int \<times> int) option"
  | NoPart

record MediaSegment =
  ms_sourceId :: int
  ms_type :: MediaSourceType
  ms_timeStamp :: int
  ms_duration :: int
  ms_part :: segment_part
  ms_data :: "u8 list"
  ms_codecData :: "CodecData option"
  ms_encrypted :: bool
  ms_mediaKeySessionId :: int
  ms_keyId :: "u8 list"
  ms_initVector :: "u8 list"
  ms_initWithLast15 :: u32
  ms_cipherMode :: CipherMode
  ms_pattern :: "(u32 \<times> u32) option"
  ms_subSamples :: "(u32 \<times> u32) list"
  ms_displayOffset :: "u64 option"

text \<open>A segment after its constructor.\<close>

definition new_segment :: "int \<Rightarrow> MediaSourceType \<Rightarrow> int \<Rightarrow> int \<Rightarrow> segment_part \<Rightarrow> MediaSegment" where
  "new_segment streamId type timeStamp duration part =
     \<lparr>ms_sourceId = streamId, ms_type = type, ms_timeStamp = timeStamp, ms_duration = duration,
      ms_part = part, ms_data = [], ms_codecData = None, ms_encrypted = False,
      ms_mediaKeySessionId = 0, ms_keyId = [], ms_initVector = [], ms_initWithLast15 = 0,
      ms_cipherMode = CM_UNKNOWN, ms_pattern = None, ms_subSamples = [], ms_displayOffset = None\<rparr>"

section \<open>The base class\<close>

definition encryption_format :: "string \<Rightarrow> EncryptionFormat" where
  "encryption_format mediaType =
     (if mediaType = ''application/x-cenc'' then EF_CENC
      else if mediaType = ''application/x-webm-enc'' then EF_WEBM else EF_CLEAR)"

text \<open>A missing structure name makes the \<open>std::string\<close> constructor throw.\<close>

definition addProtectionMetadataToSegment ::
  "GstBuffer \<Rightarrow> u8 list \<Rightarrow> GstStructure \<Rightarrow> MediaSegment \<Rightarrow> null_string + MediaSegment" where
  "addProtectionMetadataToSegment buffer mapped structure segment =
     (let metadata0 = ProcessProtectionMetadata buffer empty_metadata
      in case gst_structure_get_name structure of
           None \<Rightarrow> Inl NULL_STRING
         | Some mediaType \<Rightarrow>
             (let fmt = encryption_format mediaType;
                  metadata = (if (fmt = EF_WEBM \<or> fmt = EF_CENC) \<and>
                                 encrypted metadata0 \<and> subsamples metadata0 = []
                              then metadata0\<lparr>subsamples := [(0, of_nat (length mapped))]\<rparr>
                              else metadata0)
              in if encrypted metadata
                 then Inr (segment\<lparr>ms_encrypted := True,
                        ms_mediaKeySessionId := mediaKeySessionId metadata,
                        ms_keyId := kid metadata, ms_initVector := iv metadata,
                        ms_initWithLast15 := initWithLast15 metadata,
                        ms_cipherMode := cipherMode metadata,
                        ms_pattern := (if encryptionPatternSet metadata
                                       then Some (cryptBlocks metadata, skipBlocks metadata)
                                       else ms_pattern segment),
                        ms_subSamples := ms_subSamples segment @ subsamples metadata\<rparr>)
                 else Inr segment))"

definition addCodecDataToSegment :: "GstStructure \<Rightarrow> MediaSegment \<Rightarrow> MediaSegment" where
  "addCodecDataToSegment structure segment =
     (case gst_structure_get_value structure ''codec_data'' of
        None \<Rightarrow> segment
      | Some codec_data \<Rightarrow>
          (case gst_value_get_buffer codec_data of
             Some (Some mapped) \<Rightarrow>
               segment\<lparr>ms_codecData := Some \<lparr>cd_data = mapped, cd_type = CDT_BUFFER\<rparr>\<rparr>
           | Some None \<Rightarrow> segment
           | None \<Rightarrow>
               (case field_get_string codec_data of
                  None \<Rightarrow> segment
                | Some str \<Rightarrow>
                    segment\<lparr>ms_codecData := Some \<lparr>cd_data = string_bytes str, cd_type = CDT_STRING\<rparr>\<rparr>)))"

definition addDisplayOffsetToSegment :: "u64 \<Rightarrow> MediaSegment \<Rightarrow> MediaSegment" where
  "addDisplayOffsetToSegment displayOffset segment =
     (if GST_BUFFER_OFFSET_NONE \<noteq> displayOffset
      then segment\<lparr>ms_displayOffset := Some displayOffset\<rparr> else segment)"

text \<open>\<open>parseBuffer\<close> with the virtual method as its first argument.\<close>

type_synonym specific_parser = "GstBuffer \<Rightarrow> int \<Rightarrow> GstStructure \<Rightarrow> int \<Rightarrow> int \<Rightarrow> MediaSegment"

definition parse_with ::
  "specific_parser \<Rightarrow> GstCaps option \<Rightarrow> GstBuffer \<Rightarrow> u8 list \<Rightarrow> int \<Rightarrow> null_string + MediaSegment" where
  "parse_with specific caps buffer mapped streamId =
     (case caps of
        None \<Rightarrow> Inl NULL_STRING
      | Some c \<Rightarrow>
          (let timeStamp = sint (GST_BUFFER_PTS buffer);
               duration = sint (GST_BUFFER_DURATION buffer);
               structure = caps_structure c;
               mseData = (specific buffer streamId structure timeStamp duration)\<lparr>ms_data := mapped\<rparr>
           in case addProtectionMetadataToSegment buffer mapped structure
                     (addCodecDataToSegment structure mseData) of
                Inl e \<Rightarrow> Inl e
              | Inr seg \<Rightarrow> Inr (addDisplayOffsetToSegment (GST_BUFFER_OFFSET buffer) seg)))"

section \<open>The subclasses\<close>

datatype BufferParser = AudioBufferParser | VideoBufferParser | SubtitleBufferParser

definition audio_parseSpecificPartOfBuffer :: specific_parser where
  "audio_parseSpecificPartOfBuffer buffer streamId structure timeStamp duration =
     (let clipping = (case clipping_meta buffer of None \<Rightarrow> (0, 0) | Some c \<Rightarrow> c)
      in new_segment streamId MST_AUDIO timeStamp duration
           (AudioPart (int_field structure ''rate'') (int_field structure ''channels'')
              (fst clipping) (snd clipping)))"

definition video_parseSpecificPartOfBuffer :: specific_parser where
  "video_parseSpecificPartOfBuffer buffer streamId structure timeStamp duration =
     new_segment streamId MST_VIDEO timeStamp duration
       (VideoPart (int_field structure ''width'') (int_field structure ''height'')
          (gst_structure_get_fraction structure ''framerate''))"

definition subtitle_parseSpecificPartOfBuffer :: specific_parser where
  "subtitle_parseSpecificPartOfBuffer buffer streamId structure timeStamp duration =
     new_segment streamId MST_SUBTITLE timeStamp duration NoPart"

fun parseSpecificPartOfBuffer :: "BufferParser \<Rightarrow> specific_parser" where
  "parseSpecificPartOfBuffer AudioBufferParser = audio_parseSpecificPartOfBuffer"
| "parseSpecificPartOfBuffer VideoBufferParser = video_parseSpecificPartOfBuffer"
| "parseSpecificPartOfBuffer SubtitleBufferParser = subtitle_parseSpecificPartOfBuffer"

definition parseBuffer ::
  "BufferParser \<Rightarrow> GstSample \<Rightarrow> GstBuffer \<Rightarrow> u8 list \<Rightarrow> int \<Rightarrow> null_string + MediaSegment" where
  "parseBuffer parser sample buffer mapped streamId =
     parse_with (parseSpecificPartOfBuffer parser) (sample_caps sample) buffer mapped streamId"

section \<open>The contract of the virtual method\<close>

lemma addCodecDataToSegment_eq:
  "ms_codecData segment = None \<Longrightarrow>
   addCodecDataToSegment structure segment = segment\<lparr>ms_codecData := get_codec_data structure\<rparr>"
  by (auto simp: addCodecDataToSegment_def get_codec_data_def split: option.splits)

lemma addProtection_cases:
  assumes "addProtectionMetadataToSegment b mapped s seg0 = Inr seg"
    and "\<not> ms_encrypted seg0" and "ms_subSamples seg0 = []"
    and md: "md = ProcessProtectionMetadata b empty_metadata"
  shows "ms_encrypted seg = encrypted md \<and>
    (\<exists>name. gst_structure_get_name s = Some name \<and>
      (ms_encrypted seg \<and> encryption_format name \<noteq> EF_CLEAR \<longrightarrow>
         ms_subSamples seg = (if subsamples md = [] then [(0, of_nat (length mapped))] else subsamples md)))"
proof -
  obtain name where name: "gst_structure_get_name s = Some name"
    using assms(1) by (cases "gst_structure_get_name s") (simp_all add: addProtectionMetadataToSegment_def)
  show ?thesis
  proof (cases "encrypted md")
    case True
    then show ?thesis
      using assms(1,3) name
      by (cases "subsamples md = []"; cases "encryption_format name")
        (auto simp: addProtectionMetadataToSegment_def Let_def md [symmetric])
  next
    case False
    then show ?thesis
      using assms(1,2) name by (simp add: addProtectionMetadataToSegment_def Let_def md [symmetric])
  qed
qed

lemma addDisplayOffset_frame [simp, frame]:
  "ms_encrypted (addDisplayOffsetToSegment off seg) = ms_encrypted seg"
  "ms_subSamples (addDisplayOffsetToSegment off seg) = ms_subSamples seg"
  by (simp_all add: addDisplayOffsetToSegment_def)

locale buffer_parser =
  fixes specific :: specific_parser
    and media :: MediaSourceType
  assumes fresh: "\<exists>part. specific b i s t d = new_segment i media t d part"
begin

text \<open>What the finished segment says, whatever the subclass: identity, times, payload and codec
  data are those of the sample, and an encrypted segment of a CENC or WEBM stream names its
  encrypted ranges.\<close>

lemma parsed_base:
  assumes "parse_with specific caps b mapped i = Inr seg"
  shows "ms_sourceId seg = i \<and> ms_type seg = media \<and> ms_data seg = mapped \<and>
    ms_timeStamp seg = sint (GST_BUFFER_PTS b) \<and> ms_duration seg = sint (GST_BUFFER_DURATION b) \<and>
    (\<exists>c. caps = Some c \<and> ms_codecData seg = get_codec_data (caps_structure c)) \<and>
    ms_displayOffset seg =
      (if GST_BUFFER_OFFSET b = GST_BUFFER_OFFSET_NONE then None else Some (GST_BUFFER_OFFSET b))"
proof -
  obtain c where c: "caps = Some c"
    using assms by (auto simp: parse_with_def split: option.splits)
  obtain part where "specific b i (caps_structure c) (sint (GST_BUFFER_PTS b)) (sint (GST_BUFFER_DURATION b)) =
      new_segment i media (sint (GST_BUFFER_PTS b)) (sint (GST_BUFFER_DURATION b)) part"
    using fresh by blast
  with assms c show ?thesis
    by (auto simp: parse_with_def Let_def new_segment_def addCodecDataToSegment_eq
        addProtectionMetadataToSegment_def addDisplayOffsetToSegment_def split: option.splits if_splits sum.splits)
qed

lemma parsed_protection:
  assumes "parse_with specific (Some c) b mapped i = Inr seg"
  shows "ms_encrypted seg = encrypted (ProcessProtectionMetadata b empty_metadata) \<and>
    (\<exists>name. gst_structure_get_name (caps_structure c) = Some name \<and>
      (ms_encrypted seg \<and> encryption_format name \<noteq> EF_CLEAR \<longrightarrow>
         ms_subSamples seg =
           (if subsamples (ProcessProtectionMetadata b empty_metadata) = []
            then [(0, of_nat (length mapped))]
            else subsamples (ProcessProtectionMetadata b empty_metadata))))"
proof -
  let ?t = "sint (GST_BUFFER_PTS b)" and ?d = "sint (GST_BUFFER_DURATION b)" and ?s = "caps_structure c"
  obtain part where part: "specific b i ?s ?t ?d = new_segment i media ?t ?d part"
    using fresh by blast
  define seg0 where "seg0 = addCodecDataToSegment ?s ((new_segment i media ?t ?d part)\<lparr>ms_data := mapped\<rparr>)"
  have seg0: "\<not> ms_encrypted seg0" "ms_subSamples seg0 = []"
    by (simp_all add: seg0_def addCodecDataToSegment_eq new_segment_def)
  obtain seg1 where "addProtectionMetadataToSegment b mapped ?s seg0 = Inr seg1"
    and seg: "seg = addDisplayOffsetToSegment (GST_BUFFER_OFFSET b) seg1"
    using assms part by (auto simp: parse_with_def Let_def seg0_def split: sum.splits)
  from addProtection_cases [OF this(1) seg0 refl] show ?thesis
    unfolding seg addDisplayOffset_frame .
qed

end

interpretation audio_parser: buffer_parser audio_parseSpecificPartOfBuffer MST_AUDIO
  by unfold_locales (auto simp: audio_parseSpecificPartOfBuffer_def Let_def)

interpretation video_parser: buffer_parser video_parseSpecificPartOfBuffer MST_VIDEO
  by unfold_locales (auto simp: video_parseSpecificPartOfBuffer_def)

interpretation subtitle_parser: buffer_parser subtitle_parseSpecificPartOfBuffer MST_SUBTITLE
  by unfold_locales (auto simp: subtitle_parseSpecificPartOfBuffer_def)

fun parser_media :: "BufferParser \<Rightarrow> MediaSourceType" where
  "parser_media AudioBufferParser = MST_AUDIO"
| "parser_media VideoBufferParser = MST_VIDEO"
| "parser_media SubtitleBufferParser = MST_SUBTITLE"

section \<open>Properties\<close>

text \<open>
  A parsed segment carries the sample unchanged: for each of the three parsers, whenever
  \<open>parseBuffer\<close> returns a segment, its source id, media type, payload, time stamp, duration
  and codec data are those of the request, of the parser and of the sample.
\<close>

theorem parseBuffer_faithful:
  assumes "parseBuffer parser sample b mapped i = Inr seg"
  shows "ms_sourceId seg = i \<and> ms_type seg = parser_media parser \<and> ms_data seg = mapped \<and>
    ms_timeStamp seg = sint (GST_BUFFER_PTS b) \<and> ms_duration seg = sint (GST_BUFFER_DURATION b) \<and>
    (\<exists>c. sample_caps sample = Some c \<and> ms_codecData seg = get_codec_data (caps_structure c))"
  using assms
  by (cases parser)
    (auto simp: parseBuffer_def dest: audio_parser.parsed_base video_parser.parsed_base
       subtitle_parser.parsed_base)

definition demo_sample :: "string \<Rightarrow> GstBuffer \<Rightarrow> GstSample" where
  "demo_sample name b = \<lparr>sample_buffer = b,
     sample_caps = Some \<lparr>caps_structure = named_structure (Some name), opus_parse_caps = None,
       opus_header = None\<rparr>,
     sample_segment = \<lparr>seg_flags_reset_only = False, seg_rate = 1, seg_applied_rate = 1,
       seg_format = GST_FORMAT_TIME, seg_start = 0, seg_stop = GST_CLOCK_TIME_NONE,
       seg_duration = GST_CLOCK_TIME_NONE\<rparr>\<rparr>"

definition clear_video_segment :: MediaSegment where
  "clear_video_segment = (new_segment 3 MST_VIDEO 0 0 (VideoPart 0 0 None))\<lparr>ms_data := [1, 2]\<rparr>"

lemma demo_parse:
  "parseBuffer VideoBufferParser (demo_sample ''video/x-h264'' (demo_buffer None [1, 2]))
     (demo_buffer None [1, 2]) [1, 2] 3 = Inr clear_video_segment"
  by (simp add: parseBuffer_def parse_with_def demo_sample_def demo_buffer_def named_structure_def
      video_parseSpecificPartOfBuffer_def new_segment_def int_field_def addCodecDataToSegment_def
      addProtectionMetadataToSegment_def ProcessProtectionMetadata_def empty_metadata_def
      addDisplayOffsetToSegment_def clear_video_segment_def)

theorem parseBuffer_faithful_witness:
  "ms_sourceId clear_video_segment = 3 \<and> ms_type clear_video_segment = MST_VIDEO \<and>
   ms_data clear_video_segment = [1, 2]"
  using parseBuffer_faithful [OF demo_parse] by simp

text \<open>
  Protection. A segment is marked encrypted exactly when the metadata of the buffer says so,
  and an encrypted segment of a CENC or WEBM stream always describes which bytes are encrypted:
  by the sub-sample table of the metadata or, when that is empty, by one range over the payload.
\<close>

theorem parseBuffer_protection:
  assumes "parseBuffer parser sample b mapped i = Inr seg"
    and "sample_caps sample = Some c"
  shows "ms_encrypted seg = encrypted (ProcessProtectionMetadata b empty_metadata) \<and>
    (ms_encrypted seg \<and>
     gst_structure_get_name (caps_structure c) \<in> {Some ''application/x-cenc'', Some ''application/x-webm-enc''} \<longrightarrow>
       ms_subSamples seg =
         (if subsamples (ProcessProtectionMetadata b empty_metadata) = []
          then [(0, of_nat (length mapped))]
          else subsamples (ProcessProtectionMetadata b empty_metadata)))"
  using assms
  by (cases parser)
    (auto simp: parseBuffer_def encryption_format_def dest!: audio_parser.parsed_protection
       video_parser.parsed_protection subtitle_parser.parsed_protection)

definition cenc_audio_segment :: MediaSegment where
  "cenc_audio_segment = (new_segment 4 MST_AUDIO 0 0 (AudioPart 0 0 0 0))\<lparr>ms_data := [1, 2],
     ms_encrypted := True, ms_subSamples := [(0, 2)]\<rparr>"

lemma demo_parse_cenc:
  "parseBuffer AudioBufferParser
     (demo_sample ''application/x-cenc'' (demo_buffer (Some (demo_protection [])) [1, 2]))
     (demo_buffer (Some (demo_protection [])) [1, 2]) [1, 2] 4 = Inr cenc_audio_segment"
  by (simp add: parseBuffer_def parse_with_def demo_sample_def demo_buffer_def named_structure_def
      audio_parseSpecificPartOfBuffer_def new_segment_def int_field_def addCodecDataToSegment_def
      addProtectionMetadataToSegment_def ProcessProtectionMetadata_def empty_metadata_def
      addDisplayOffsetToSegment_def cenc_audio_segment_def demo_protection_def encryption_format_def
      getEncryptedFromProtectionMetadata_def getMediaKeySessionIdFromProtectionMetadata_def
      getKIDFromProtectionMetadata_def getIVFromProtectionMetadata_def
      getSubSamplesFromProtectionMetadata_def getInitWithLast15FromProtectionMetadata_def
      getEncryptionSchemeFromProtectionMetadata_def getEncryptionPatternFromProtectionMetadata_def)

theorem parseBuffer_protection_witness:
  "ms_encrypted cenc_audio_segment \<and> ms_subSamples cenc_audio_segment = [(0, 2)] \<and>
   encrypted (ProcessProtectionMetadata (demo_buffer (Some (demo_protection [])) [1, 2]) empty_metadata)"
  using parseBuffer_protection [OF demo_parse_cenc]
  by (simp add: demo_sample_def cenc_audio_segment_def)

end
