(* ===== verification/Flush_Data_Sync.thy ===== *)
theory Flush_Data_Sync
  imports Rialto_Prelude
begin

text \<open>
  \<open>FlushAndDataSynchronizer\<close> (source/FlushAndDataSynchronizer.cpp, .h): for every source
  it records whether a flush is in progress and whether data arrived since the flush
  started. \<open>PullModePlaybackDelegate::startFlushing\<close> blocks in \<open>waitIfRequired\<close> until
  the recorded states allow a new flush, and
  \<open>GStreamerMSEMediaPlayerClient::notifyPlaybackInfo\<close> drops position updates while
  \<open>isAnySourceFlushing\<close> holds.

  Every operation takes the object's mutex for its whole body, so each is one atomic
  function of the map \<open>m_sourceStates\<close>. \<open>waitIfRequired\<close> is its wait predicate: the
  call returns in the first state in which the predicate holds.

  The interface the player client and the delegates rely on is the locale
  \<open>flush_synchronizer\<close>; the theory ends with its interpretation on the operations.
\<close>

section \<open>State and operations\<close>

datatype FlushState = IDLE | FLUSHING | FLUSHED

datatype DataState = NO_DATA | DATA_RECEIVED | DATA_PUSHED

record SourceState =
  flushState :: FlushState
  dataState :: DataState

text \<open>\<open>std::map<int32_t, SourceState> m_sourceStates\<close>.\<close>

type_synonym sync = "(int \<times> SourceState) list"

text \<open>The value \<open>operator[]\<close> inserts for a missing key: both enumerations are
  zero-initialised.\<close>

definition default_state :: SourceState where
  "default_state = \<lparr>flushState = IDLE, dataState = NO_DATA\<rparr>"

definition source_state :: "sync \<Rightarrow> int \<Rightarrow> SourceState" where
  "source_state m sid = (case find_key m sid of None \<Rightarrow> default_state | Some st \<Rightarrow> st)"

definition addSource :: "int \<Rightarrow> sync \<Rightarrow> sync" where
  "addSource sid m = put_key sid \<lparr>flushState = IDLE, dataState = NO_DATA\<rparr> m"

definition removeSource :: "int \<Rightarrow> sync \<Rightarrow> sync" where
  "removeSource sid m = erase_key sid m"

definition notifyFlushStarted :: "int \<Rightarrow> sync \<Rightarrow> sync" where
  "notifyFlushStarted sid m =
     (let m1 = put_key sid ((source_state m sid)\<lparr>flushState := FLUSHING\<rparr>) m
      in put_key sid ((source_state m1 sid)\<lparr>dataState := NO_DATA\<rparr>) m1)"

definition notifyFlushCompleted :: "int \<Rightarrow> sync \<Rightarrow> sync" where
  "notifyFlushCompleted sid m = put_key sid ((source_state m sid)\<lparr>flushState := FLUSHED\<rparr>) m"

text \<open>The test \<open>m_sourceStates[sourceId].dataState == NO_DATA\<close> inserts the default entry.\<close>

definition notifyDataReceived :: "int \<Rightarrow> sync \<Rightarrow> sync" where
  "notifyDataReceived sid m =
     (let m1 = put_key sid (source_state m sid) m
      in if dataState (source_state m1 sid) = NO_DATA
         then put_key sid ((source_state m1 sid)\<lparr>dataState := DATA_RECEIVED\<rparr>) m1
         else m1)"

definition notifyDataPushed :: "int \<Rightarrow> sync \<Rightarrow> sync" where
  "notifyDataPushed sid m =
     (let m1 = put_key sid ((source_state m sid)\<lparr>dataState := DATA_PUSHED\<rparr>) m
      in put_key sid ((source_state m1 sid)\<lparr>flushState := IDLE\<rparr>) m1)"

definition waitIfRequired :: "int \<Rightarrow> sync \<Rightarrow> bool" where
  "waitIfRequired sid m =
     (\<not> list_ex (\<lambda>(k, st). (k = sid \<and> flushState st = FLUSHING) \<or>
                          (flushState st \<noteq> IDLE \<and> dataState st = DATA_RECEIVED)) m)"

definition isAnySourceFlushing :: "sync \<Rightarrow> bool" where
  "isAnySourceFlushing m = list_ex (\<lambda>(k, st). flushState st = FLUSHING) m"

lemmas sync_ops = addSource_def removeSource_def notifyFlushStarted_def notifyFlushCompleted_def
  notifyDataReceived_def notifyDataPushed_def Let_def

section \<open>What each operation records\<close>

lemma source_state_put [simp]:
  "source_state (put_key k st m) j = (if j = k then st else source_state m j)"
  by (simp add: source_state_def)

lemma source_state_erase [simp]:
  "source_state (erase_key k m) j = (if j = k then default_state else source_state m j)"
  by (simp add: source_state_def)

lemma source_state_absent: "k \<notin> fst ` set m \<Longrightarrow> source_state m k = default_state"
  by (simp add: source_state_def map_of_eq_None_iff [THEN iffD2])

lemma source_state_ops [container]:
  "source_state (addSource k m) j = (if j = k then default_state else source_state m j)"
  "source_state (removeSource k m) j = (if j = k then default_state else source_state m j)"
  "source_state (notifyFlushStarted k m) j =
     (if j = k then \<lparr>flushState = FLUSHING, dataState = NO_DATA\<rparr> else source_state m j)"
  "source_state (notifyFlushCompleted k m) j =
     (if j = k then (source_state m k)\<lparr>flushState := FLUSHED\<rparr> else source_state m j)"
  "source_state (notifyDataPushed k m) j =
     (if j = k then \<lparr>flushState = IDLE, dataState = DATA_PUSHED\<rparr> else source_state m j)"
  by (simp_all add: sync_ops default_state_def)

lemma source_state_dataReceived [container]:
  "source_state (notifyDataReceived k m) j =
     (if j = k \<and> dataState (source_state m k) = NO_DATA
      then (source_state m k)\<lparr>dataState := DATA_RECEIVED\<rparr> else source_state m j)"
  by (simp add: sync_ops)

lemma keys_ops [container]:
  "set (keys (addSource k m)) = insert k (set (keys m))"
  "set (keys (removeSource k m)) = set (keys m) - {k}"
  "set (keys (notifyFlushStarted k m)) = insert k (set (keys m))"
  "set (keys (notifyFlushCompleted k m)) = insert k (set (keys m))"
  "set (keys (notifyDataReceived k m)) = insert k (set (keys m))"
  "set (keys (notifyDataPushed k m)) = insert k (set (keys m))"
  by (auto simp: sync_ops)

text \<open>The keys of a \<open>std::map\<close> are distinct, and every operation keeps them so.\<close>

lemma distinct_keys_ops [simp, intro, container]:
  assumes "distinct (keys m)"
  shows "distinct (keys (addSource k m))" "distinct (keys (removeSource k m))"
    "distinct (keys (notifyFlushStarted k m))" "distinct (keys (notifyFlushCompleted k m))"
    "distinct (keys (notifyDataReceived k m))" "distinct (keys (notifyDataPushed k m))"
  using assms by (simp_all add: sync_ops)

text \<open>The two queries, read through the state of each source: an entry that is absent
  behaves as the default entry.\<close>

lemma isAnySourceFlushing_iff:
  assumes "distinct (keys m)"
  shows "isAnySourceFlushing m \<longleftrightarrow> (\<exists>k. flushState (source_state m k) = FLUSHING)"
  unfolding isAnySourceFlushing_def list_ex_lookup [OF assms]
  by (auto simp: source_state_def default_state_def split: option.splits)

lemma waitIfRequired_iff:
  assumes "distinct (keys m)"
  shows "waitIfRequired sid m \<longleftrightarrow>
     flushState (source_state m sid) \<noteq> FLUSHING \<and>
     (\<forall>k. flushState (source_state m k) \<noteq> IDLE \<longrightarrow> dataState (source_state m k) \<noteq> DATA_RECEIVED)"
  unfolding waitIfRequired_def list_ex_lookup [OF assms]
  by (fastforce simp: source_state_def default_state_def split: option.splits)

section \<open>The interface of the synchronizer\<close>

text \<open>
  The contract of \<open>IFlushAndDataSynchronizer\<close>, over an abstract view of each source: the
  pair of its flush state and its data state. The laws say what every operation does to
  the view of the source it names and that it leaves the other sources alone.
\<close>

locale flush_synchronizer =
  fixes add remove flush_started flush_completed data_received data_pushed :: "int \<Rightarrow> 'm \<Rightarrow> 'm"
    and may_flush :: "int \<Rightarrow> 'm \<Rightarrow> bool"
    and any_flushing :: "'m \<Rightarrow> bool"
    and view :: "'m \<Rightarrow> int \<Rightarrow> FlushState \<times> DataState"
    and valid :: "'m \<Rightarrow> bool"
  assumes valid_ops: "valid m \<Longrightarrow> valid (add k m)" "valid m \<Longrightarrow> valid (remove k m)"
      "valid m \<Longrightarrow> valid (flush_started k m)" "valid m \<Longrightarrow> valid (flush_completed k m)"
      "valid m \<Longrightarrow> valid (data_received k m)" "valid m \<Longrightarrow> valid (data_pushed k m)"
    and view_add: "view (add k m) = (view m)(k := (IDLE, NO_DATA))"
    and view_remove: "view (remove k m) = (view m)(k := (IDLE, NO_DATA))"
    and view_started: "view (flush_started k m) = (view m)(k := (FLUSHING, NO_DATA))"
    and view_completed: "view (flush_completed k m) = (view m)(k := (FLUSHED, snd (view m k)))"
    and view_received: "view (data_received k m) =
      (if snd (view m k) = NO_DATA then (view m)(k := (fst (view m k), DATA_RECEIVED)) else view m)"
    and view_pushed: "view (data_pushed k m) = (view m)(k := (IDLE, DATA_PUSHED))"
    and may_flush_iff: "valid m \<Longrightarrow> may_flush sid m \<longleftrightarrow>
      fst (view m sid) \<noteq> FLUSHING \<and> (\<forall>k. fst (view m k) \<noteq> IDLE \<longrightarrow> snd (view m k) \<noteq> DATA_RECEIVED)"
    and any_flushing_iff: "valid m \<Longrightarrow> any_flushing m \<longleftrightarrow> (\<exists>k. fst (view m k) = FLUSHING)"
begin

text \<open>A source is quiet when no flush of it is under way or waiting for its data.\<close>

definition quiet :: "'m \<Rightarrow> bool" where
  "quiet m \<longleftrightarrow> (\<forall>k. fst (view m k) = IDLE)"

text \<open>A complete flush of one source: start, completion by the server, first buffer
  received, first buffer pushed.\<close>

definition flush_cycle :: "int \<Rightarrow> 'm \<Rightarrow> 'm" where
  "flush_cycle k m = data_pushed k (data_received k (flush_completed k (flush_started k m)))"

lemma quiet_may_flush: "valid m \<Longrightarrow> quiet m \<Longrightarrow> may_flush k m"
  by (auto simp: may_flush_iff quiet_def)

lemma quiet_flush_cycle: "quiet m \<Longrightarrow> quiet (flush_cycle k m)"
  by (auto simp: quiet_def flush_cycle_def view_pushed view_received view_completed view_started)

lemma valid_flush_cycle: "valid m \<Longrightarrow> valid (flush_cycle k m)"
  by (simp add: flush_cycle_def valid_ops)

text \<open>Any number of complete flushes leaves the synchronizer ready for the next one.\<close>

lemma flush_cycles:
  "valid m \<Longrightarrow> quiet m \<Longrightarrow> valid (fold flush_cycle ks m) \<and> quiet (fold flush_cycle ks m)"
  by (induction ks arbitrary: m) (auto intro: quiet_flush_cycle valid_flush_cycle)

lemma flush_cycles_may_flush:
  "valid m \<Longrightarrow> quiet m \<Longrightarrow> may_flush k (fold flush_cycle ks m) \<and> \<not> any_flushing (fold flush_cycle ks m)"
  using flush_cycles [of m ks] quiet_may_flush [of "fold flush_cycle ks m" k]
  by (auto simp: any_flushing_iff quiet_def)

text \<open>The source being flushed cannot be flushed again before the server reports the end of
  the flush or data is pushed, whatever happens to the other sources.\<close>

lemma started_blocks:
  "valid m \<Longrightarrow> fst (view m sid) = FLUSHING \<Longrightarrow> \<not> may_flush sid m \<and> any_flushing m"
  by (auto simp: may_flush_iff any_flushing_iff)

text \<open>Data received while a flush has not been answered with a push blocks the flush of
  every source.\<close>

lemma pending_data_blocks_all:
  "valid m \<Longrightarrow> fst (view m k) \<noteq> IDLE \<Longrightarrow> snd (view m k) = DATA_RECEIVED \<Longrightarrow> \<not> may_flush sid m"
  by (auto simp: may_flush_iff)

end

definition sync_view :: "sync \<Rightarrow> int \<Rightarrow> FlushState \<times> DataState" where
  "sync_view m k = (flushState (source_state m k), dataState (source_state m k))"

interpretation fds: flush_synchronizer addSource removeSource notifyFlushStarted
  notifyFlushCompleted notifyDataReceived notifyDataPushed waitIfRequired isAnySourceFlushing
  sync_view "\<lambda>m. distinct (keys m)"
  by unfold_locales
    (auto simp: sync_view_def fun_eq_iff source_state_ops source_state_dataReceived
       default_state_def isAnySourceFlushing_iff waitIfRequired_iff)

section \<open>Runs of the synchronizer\<close>

text \<open>The calls its clients make, in any order and on any source.\<close>

datatype sync_call =
  AddSource int | RemoveSource int | FlushStarted int | FlushCompleted int
  | DataReceived int | DataPushed int

fun sync_exec :: "sync_call \<Rightarrow> sync \<Rightarrow> sync" where
  "sync_exec (AddSource k) m = addSource k m"
| "sync_exec (RemoveSource k) m = removeSource k m"
| "sync_exec (FlushStarted k) m = notifyFlushStarted k m"
| "sync_exec (FlushCompleted k) m = notifyFlushCompleted k m"
| "sync_exec (DataReceived k) m = notifyDataReceived k m"
| "sync_exec (DataPushed k) m = notifyDataPushed k m"

text \<open>The calls that end the flush of a source.\<close>

definition ends_flush :: "int \<Rightarrow> sync_call \<Rightarrow> bool" where
  "ends_flush k c \<longleftrightarrow> c \<in> {AddSource k, RemoveSource k, FlushCompleted k, DataPushed k}"

interpretation fds_run: operation_system sync_exec "\<lambda>m. distinct (keys m)"
proof
  fix m :: sync and c
  assume "distinct (keys m)"
  then show "distinct (keys (sync_exec c m))" by (cases c) simp_all
qed

lemma exec_keeps_flushing:
  "flushState (source_state m k) = FLUSHING \<Longrightarrow> \<not> ends_flush k c \<Longrightarrow>
   flushState (source_state (sync_exec c m) k) = FLUSHING"
  by (cases c) (auto simp: source_state_ops source_state_dataReceived ends_flush_def)

lemma run_keeps_flushing:
  "flushState (source_state m k) = FLUSHING \<Longrightarrow> list_all (\<lambda>c. \<not> ends_flush k c) cs \<Longrightarrow>
   flushState (source_state (fold sync_exec cs m) k) = FLUSHING"
  by (induction cs arbitrary: m) (auto intro: exec_keeps_flushing)

lemma source_state_pushed_all:
  "source_state (fold notifyDataPushed ks m) j =
     (if j \<in> set ks then \<lparr>flushState = IDLE, dataState = DATA_PUSHED\<rparr> else source_state m j)"
  by (induction ks arbitrary: m) (auto simp: source_state_ops)

lemma distinct_pushed_all:
  "distinct (keys m) \<Longrightarrow> distinct (keys (fold notifyDataPushed ks m))"
  by (induction ks arbitrary: m) simp_all

section \<open>Properties\<close>

text \<open>
  Between the start of a flush of a source and one of the calls that end it (server
  completion, pushed data, removal or re-attachment of that source), whatever calls are
  made for any source in any order, a second flush of the source blocks in
  \<open>waitIfRequired\<close> and \<open>isAnySourceFlushing\<close> reports the flush.
\<close>

theorem flush_in_progress_blocks:
  assumes "distinct (keys m)"
    and "list_all (\<lambda>c. \<not> ends_flush k c) cs"
  shows "\<not> waitIfRequired k (fold sync_exec cs (notifyFlushStarted k m)) \<and>
         isAnySourceFlushing (fold sync_exec cs (notifyFlushStarted k m))"
proof -
  let ?m = "fold sync_exec cs (notifyFlushStarted k m)"
  have "flushState (source_state ?m k) = FLUSHING"
    using assms(2) by (simp add: run_keeps_flushing source_state_ops)
  moreover have "distinct (keys ?m)"
    using assms(1) by (simp add: fds_run.inv_run)
  ultimately show ?thesis
    using fds.started_blocks [of ?m k] by (simp_all add: sync_view_def)
qed

theorem flush_in_progress_blocks_witness:
  "\<not> waitIfRequired 1 (fold sync_exec [DataReceived 1, FlushStarted 2, FlushCompleted 2]
       (notifyFlushStarted 1 (addSource 2 (addSource 1 []))))"
  using flush_in_progress_blocks [of "addSource 2 (addSource 1 [])" 1
      "[DataReceived 1, FlushStarted 2, FlushCompleted 2]"]
  by (simp add: ends_flush_def addSource_def)

text \<open>
  Progress: from every state of the synchronizer, however it was reached, once data has
  been pushed for each recorded source a flush of any source may start and no source is
  reported as flushing.
\<close>

theorem pushing_all_unblocks:
  assumes "distinct (keys m)"
  shows "waitIfRequired k (fold notifyDataPushed (keys m) m) \<and>
         \<not> isAnySourceFlushing (fold notifyDataPushed (keys m) m)"
proof -
  let ?m = "fold notifyDataPushed (keys m) m"
  have "flushState (source_state ?m j) = IDLE" for j
    by (simp add: source_state_pushed_all source_state_absent default_state_def)
  then show ?thesis
    using distinct_pushed_all [OF assms] by (simp add: waitIfRequired_iff isAnySourceFlushing_iff)
qed

theorem pushing_all_unblocks_witness:
  "waitIfRequired 1 (fold notifyDataPushed [2, 1] (notifyDataReceived 2 (notifyFlushStarted 1
     [(2, \<lparr>flushState = FLUSHED, dataState = NO_DATA\<rparr>), (1, default_state)])))"
  using pushing_all_unblocks [of "notifyDataReceived 2 (notifyFlushStarted 1
     [(2, \<lparr>flushState = FLUSHED, dataState = NO_DATA\<rparr>), (1, default_state)])" 1]
  by (simp add: sync_ops source_state_def)

end
