(* ===== verification/Player_State.thy ===== *)
theory Player_State
  imports Buffer_Parser Flush_Data_Sync
begin

text \<open>
  The state shared by \<open>GStreamerMSEMediaPlayerClient\<close> and the pull mode delegates, and the
  delegate methods that do not call back into the client.

  A delegate object is a record \<open>delegate\<close>; the members of its three subclasses are the records
  \<open>audio\<close>, \<open>video\<close> and \<open>subtitle\<close> inside it, of which a delegate uses the one of its
  \<open>m_mediaSourceType\<close>. A client object is a record \<open>client\<close>; pointers from a client to its
  delegates (\<open>AttachedSource::m_delegate\<close>) are handles into the store \<open>delegates\<close> of the record
  \<open>player\<close>, on which the operations of the client work. The element behind
  \<open>AttachedSource::m_rialtoSink\<close> is the \<open>m_sink\<close> of that delegate.

  \<open>calls\<close> is the sequence of calls that the client made on its backend. The answers of the
  backend and of GStreamer are in the record \<open>env\<close> passed to each operation.
\<close>

section \<open>Delegates\<close>

record AudioFadeConfig =
  fade_volume :: real
  fade_duration :: u32
  fade_easeType :: EaseType

text \<open>Constants.h\<close>

definition kDefaultVolume :: real where "kDefaultVolume = 1"
definition kDefaultVolumeDuration :: u32 where "kDefaultVolumeDuration = 0"
definition kDefaultEaseType :: EaseType where "kDefaultEaseType = EASE_LINEAR"
definition kDefaultBufferingLimit :: u32 where "kDefaultBufferingLimit = 750"
definition kDefaultUseBuffering :: bool where "kDefaultUseBuffering = False"
definition kDefaultSync :: bool where "kDefaultSync = False"
definition kDefaultStreamSyncMode :: int where "kDefaultStreamSyncMode = 0"
definition kDefaultFadeVolume :: u32 where "kDefaultFadeVolume = 0"

record audio_members =
  a_targetVolume :: real
  a_mute :: bool
  a_isVolumeQueued :: bool
  a_isMuteQueued :: bool
  a_lowLatency :: bool
  a_isLowLatencyQueued :: bool
  a_sync :: bool
  a_isSyncQueued :: bool
  a_syncOff :: bool
  a_isSyncOffQueued :: bool
  a_streamSyncMode :: int
  a_isStreamSyncModeQueued :: bool
  a_audioFadeConfig :: AudioFadeConfig
  a_isAudioFadeQueued :: bool
  a_bufferingLimit :: u32
  a_isBufferingLimitQueued :: bool
  a_useBuffering :: bool
  a_isUseBufferingQueued :: bool

record video_members =
  v_maxWidth :: u32
  v_maxHeight :: u32
  v_stepOnPrerollEnabled :: bool
  v_videoRectangle :: string
  v_rectangleSettingQueued :: bool
  v_immediateOutput :: bool
  v_immediateOutputQueued :: bool
  v_syncmodeStreaming :: bool
  v_syncmodeStreamingQueued :: bool
  v_videoMute :: bool
  v_videoMuteQueued :: bool

record subtitle_members =
  s_textTrackIdentifier :: string
  s_isTextTrackIdentifierQueued :: bool
  s_isMuted :: bool
  s_isMuteQueued :: bool
  s_videoId :: u32
  s_queuedOffset :: "int option"

text \<open>\<open>MediaPlayerManager\<close>: the client (a handle; the weak pointer) and the bin it belongs to.\<close>

record manager =
  m_client :: "nat option"
  m_currentGstBinParent :: "nat option"

record delegate =
  m_sink :: GstElement
  m_sinkPad :: bool
  m_lastSegment :: GstSegment
  m_caps :: "GstCaps option"
  m_sourceId :: int
  m_samples :: "GstSample list"
  m_isEos :: bool
  m_segmentSet :: bool
  m_isSinkFlushOngoing :: bool
  m_isServerFlushOngoing :: bool
  m_isTimeResetOngoing :: bool
  m_isStateCommitNeeded :: bool
  m_mediaPlayerManager :: manager
  m_controlRemoved :: bool
  m_sourceAttached :: bool
  m_isSinglePathStream :: bool
  m_numOfStreams :: int
  m_hasDrm :: bool
  m_isAsync :: bool
  m_enableLastSample :: bool
  m_lastBuffer :: "GstBuffer option"
  m_mediaSourceType :: MediaSourceType
  m_lastInstantRateChangeSeqnum :: u32
  m_currentInstantRateChangeSeqnum :: u32
  audio :: audio_members
  video :: video_members
  subtitle :: subtitle_members

section \<open>Clients\<close>

datatype ClientState =
  CS_IDLE | CS_READY | CS_AWAITING_PAUSED | CS_PAUSED | CS_AWAITING_PLAYING | CS_PLAYING

datatype StateChangeResult = SUCCESS_ASYNC | SUCCESS_SYNC | NOT_ATTACHED

text \<open>A \<open>PullBufferMessage\<close> in the queue of a puller: source id, frame count, request id.\<close>

record PullBufferMessage =
  pb_sourceId :: int
  pb_frameCount :: nat
  pb_needDataRequestId :: u32

record BufferPuller =
  p_parser :: BufferParser
  p_running :: bool
  p_queue :: "PullBufferMessage list"

record AttachedSource =
  m_bufferPuller :: BufferPuller
  m_delegate :: nat
  m_type :: MediaSourceType
  m_position :: int
  m_isFlushing :: bool
  m_state :: ClientState

text \<open>The messages of the backend queue.\<close>

datatype client_message =
    HaveDataMessage MediaSourceStatus int u32
  | NeedDataMessage int nat u32
  | PlaybackStateMessage PlaybackState
  | QosMessage int u64 u64
  | BufferUnderflowMessage int
  | FirstFrameReceivedMessage int
  | PlaybackErrorMessage int PlaybackError
  | SetPositionMessage int
  | SetDurationMessage int
  | SourceFlushedMessage int

text \<open>The calls on \<open>MediaPlayerClientBackendInterface\<close> that reach the server.\<close>

datatype backend_call =
    B_create u32 u32 | B_load bool | B_attachSource MediaSource | B_removeSource int
  | B_allSourcesAttached | B_play | B_pause | B_stop | B_haveData MediaSourceStatus u32
  | B_setPlaybackRate real | B_setVideoWindow u32 u32 u32 u32
  | B_addSegment u32 MediaSegment AddSegmentStatus
  | B_setImmediateOutput int bool | B_renderFrame | B_setVolume real u32 EaseType
  | B_setMute bool int | B_setTextTrackIdentifier string | B_setLowLatency bool | B_setSync bool
  | B_setSyncOff bool | B_setStreamSyncMode int int | B_flush int bool
  | B_setSourcePosition int int bool real u64 | B_setSubtitleOffset int int
  | B_processAudioGap int u32 int bool | B_setBufferingLimit u32 | B_setUseBuffering bool
  | B_switchSource MediaSource

record Rectangle =
  rect_x :: u32
  rect_y :: u32
  rect_width :: u32
  rect_height :: u32

record PlaybackInfo =
  currentPosition :: int
  pi_volume :: real

text \<open>\<open>m_backendQueue\<close>: whether it runs and accepts messages, and what waits in it.\<close>

record client =
  queueRunning :: bool
  queueAccepting :: bool
  queueMessages :: "client_message list"
  m_clientBackend :: bool
  m_backendCreated :: bool
  m_duration :: int
  m_attachedSources :: "(int \<times> AttachedSource) list"
  m_wasAllSourcesAttachedSent :: bool
  m_audioStreams :: int
  m_videoStreams :: int
  m_subtitleStreams :: int
  m_playbackInfo :: PlaybackInfo
  m_flushAndDataSynchronizer :: sync
  wasPlayingBeforeEos :: bool
  m_videoRectangle :: Rectangle
  m_serverPlaybackState :: PlaybackState
  m_clientState :: ClientState
  m_streamingStopped :: bool
  m_maxWidth :: u32
  m_maxHeight :: u32
  m_isLive :: bool
  calls :: "backend_call list"

record player = client +
  delegates :: "nat \<Rightarrow> delegate"

section \<open>The environment\<close>

text \<open>
  What the Rialto server and GStreamer answer during one operation. \<open>be_attachSource\<close> gives the
  id that the server assigns, or \<open>None\<close> when it refuses; \<open>be_play_async\<close> is the output
  parameter of \<open>play\<close>; \<open>be_addSegment k\<close> answers the call made in the \<open>k\<close>-th round of the
  puller's loop.
\<close>

record env =
  be_created :: bool
  be_load :: bool
  be_attachSource :: "MediaSource \<Rightarrow> int option"
  be_removeSource :: "int \<Rightarrow> bool"
  be_play_async :: bool
  be_flush :: "int \<Rightarrow> bool \<Rightarrow> bool \<times> bool"
  be_setSourcePosition :: bool
  be_renderFrame :: bool
  be_getDuration :: "int answer"
  be_getImmediateOutput :: "int \<Rightarrow> bool answer"
  be_setImmediateOutput :: bool
  be_getStats :: "int \<Rightarrow> (u64 \<times> u64) answer"
  be_getVolume :: "real answer"
  be_getMute :: "int \<Rightarrow> bool answer"
  be_getTextTrackIdentifier :: "string answer"
  be_setLowLatency :: bool
  be_setSync :: bool
  be_getSync :: "bool answer"
  be_setSyncOff :: bool
  be_setStreamSyncMode :: bool
  be_getStreamSyncMode :: "int answer"
  be_getBufferingLimit :: "u32 answer"
  be_getUseBuffering :: "bool answer"
  be_switchSource :: bool
  be_addSegment :: "nat \<Rightarrow> u32 \<Rightarrow> MediaSegment \<Rightarrow> AddSegmentStatus"
  gst_post_ok :: bool
  gst_element_lost_state :: "GstElement \<Rightarrow> GstElement"

section \<open>Delegate methods without calls to the client\<close>

definition upd_sink :: "(GstElement \<Rightarrow> GstElement) \<Rightarrow> delegate \<Rightarrow> delegate" where
  "upd_sink f d = d\<lparr>m_sink := f (m_sink d)\<rparr>"

definition setLastBuffer :: "GstBuffer option \<Rightarrow> delegate \<Rightarrow> delegate" where
  "setLastBuffer buffer d = (if m_enableLastSample d then d\<lparr>m_lastBuffer := buffer\<rparr> else d)"

text \<open>The loop pops every sample; the waiting streaming thread is woken.\<close>

fun pop_all :: "GstSample list \<Rightarrow> GstSample list" where
  "pop_all [] = []"
| "pop_all (x # xs) = pop_all xs"

definition clearBuffersUnlocked :: "delegate \<Rightarrow> delegate" where
  "clearBuffersUnlocked d =
     setLastBuffer None (d\<lparr>m_isSinkFlushOngoing := True, m_samples := pop_all (m_samples d)\<rparr>)"

definition setSourceId :: "int \<Rightarrow> delegate \<Rightarrow> delegate" where
  "setSourceId sourceId d = d\<lparr>m_sourceId := sourceId\<rparr>"

definition handleEos :: "delegate \<Rightarrow> delegate" where
  "handleEos d =
     (let currentState = GST_STATE (m_sink d)
      in if currentState \<noteq> GST_STATE_PAUSED \<and> currentState \<noteq> GST_STATE_PLAYING
         then upd_sink (gst_element_post_message
                (MSG_ERROR 0 ''Rialto sinks received EOS in non-playing state'')) d
         else if \<not> m_isSinkFlushOngoing d \<and> \<not> m_isServerFlushOngoing d
         then upd_sink (gst_element_post_message MSG_EOS) d
         else d)"

definition handleFlushCompleted :: "delegate \<Rightarrow> delegate" where
  "handleFlushCompleted d = d\<lparr>m_isServerFlushOngoing := False, m_isTimeResetOngoing := False\<rparr>"

definition postAsyncStart :: "delegate \<Rightarrow> delegate" where
  "postAsyncStart d =
     upd_sink (gst_element_post_message MSG_ASYNC_START) (d\<lparr>m_isStateCommitNeeded := True\<rparr>)"

definition postAsyncDone :: "delegate \<Rightarrow> delegate" where
  "postAsyncDone d =
     upd_sink (gst_element_post_message MSG_ASYNC_DONE) (d\<lparr>m_isStateCommitNeeded := False\<rparr>)"

definition handleError :: "string \<Rightarrow> int \<Rightarrow> delegate \<Rightarrow> delegate" where
  "handleError message code d = upd_sink (gst_element_post_message (MSG_ERROR code message)) d"

definition notifyApplicationState :: "ApplicationState \<Rightarrow> delegate \<Rightarrow> delegate" where
  "notifyApplicationState state d =
     (if state = AS_UNKNOWN then handleError ''Rialto client reached unknown application state'' 0 d
      else d)"

definition lostState :: "env \<Rightarrow> delegate \<Rightarrow> delegate" where
  "lostState e d = upd_sink (gst_element_lost_state e) (d\<lparr>m_isStateCommitNeeded := True\<rparr>)"

text \<open>The three overrides of \<open>handleQos\<close> differ in the format of the statistics.\<close>

definition handleQos :: "u64 \<Rightarrow> u64 \<Rightarrow> delegate \<Rightarrow> delegate" where
  "handleQos processed dropped d =
     upd_sink (gst_element_post_message
       (MSG_QOS (if m_mediaSourceType d = MST_AUDIO then GST_FORMAT_DEFAULT else GST_FORMAT_BUFFERS)
          processed dropped)) d"

definition getFrontSample :: "delegate \<Rightarrow> GstSample option" where
  "getFrontSample d =
     (if m_isServerFlushOngoing d then None
      else case m_samples d of [] \<Rightarrow> None | sample # _ \<Rightarrow> Some sample)"

definition popSample :: "delegate \<Rightarrow> delegate" where
  "popSample d = (case m_samples d of [] \<Rightarrow> d | _ # rest \<Rightarrow> d\<lparr>m_samples := rest\<rparr>)"

definition isEos :: "delegate \<Rightarrow> bool" where
  "isEos d = (m_samples d = [] \<and> m_isEos d)"

definition isReadyToSendData :: "delegate \<Rightarrow> bool" where
  "isReadyToSendData d = (m_isEos d \<or> m_segmentSet d)"

text \<open>The part of \<open>handleStateChanged\<close> that completes an asynchronous state change.\<close>

definition commitState :: "delegate \<Rightarrow> delegate" where
  "commitState d =
     (let sink = m_sink d;
          current = GST_STATE sink; next = GST_STATE_NEXT sink; pending = GST_STATE_PENDING sink;
          postNext = (if next = pending then GST_STATE_VOID_PENDING else pending)
      in postAsyncDone (d\<lparr>m_sink := gst_element_post_message (MSG_STATE_CHANGED current next pending)
           (sink\<lparr>GST_STATE := next, GST_STATE_NEXT := postNext,
                 GST_STATE_PENDING := GST_STATE_VOID_PENDING,
                 GST_STATE_RETURN := GST_STATE_CHANGE_SUCCESS\<rparr>)\<rparr>))"

lemma pop_all_empty [simp]: "pop_all xs = []"
  by (induction xs) simp_all

definition upd_delegate :: "nat \<Rightarrow> (delegate \<Rightarrow> delegate) \<Rightarrow> ('z) player_scheme \<Rightarrow> 'z player_scheme" where
  "upd_delegate h f s = s\<lparr>delegates := (delegates s)(h := f (delegates s h))\<rparr>"

section \<open>Construction\<close>

definition new_audio_members :: audio_members where
  "new_audio_members = \<lparr>a_targetVolume = kDefaultVolume, a_mute = False, a_isVolumeQueued = False,
     a_isMuteQueued = False, a_lowLatency = False, a_isLowLatencyQueued = False, a_sync = kDefaultSync,
     a_isSyncQueued = False, a_syncOff = False, a_isSyncOffQueued = False,
     a_streamSyncMode = kDefaultStreamSyncMode, a_isStreamSyncModeQueued = False,
     a_audioFadeConfig = \<lparr>fade_volume = 0, fade_duration = 0, fade_easeType = EASE_LINEAR\<rparr>,
     a_isAudioFadeQueued = False, a_bufferingLimit = kDefaultBufferingLimit,
     a_isBufferingLimitQueued = False, a_useBuffering = kDefaultUseBuffering,
     a_isUseBufferingQueued = False\<rparr>"

definition new_video_members :: video_members where
  "new_video_members = \<lparr>v_maxWidth = 0, v_maxHeight = 0, v_stepOnPrerollEnabled = False,
     v_videoRectangle = ''0,0,1920,1080'', v_rectangleSettingQueued = False, v_immediateOutput = False,
     v_immediateOutputQueued = False, v_syncmodeStreaming = False, v_syncmodeStreamingQueued = False,
     v_videoMute = False, v_videoMuteQueued = False\<rparr>"

definition new_subtitle_members :: subtitle_members where
  "new_subtitle_members = \<lparr>s_textTrackIdentifier = [], s_isTextTrackIdentifierQueued = False,
     s_isMuted = False, s_isMuteQueued = False, s_videoId = 0, s_queuedOffset = None\<rparr>"

text \<open>The constructors of the three delegate classes; \<open>seg\<close> is the segment that
  \<open>gst_segment_init\<close> makes.\<close>

definition PullModePlaybackDelegate :: "GstSegment \<Rightarrow> MediaSourceType \<Rightarrow> GstElement \<Rightarrow> bool \<Rightarrow> delegate" where
  "PullModePlaybackDelegate seg type sink pad =
     \<lparr>m_sink = sink, m_sinkPad = pad, m_lastSegment = seg, m_caps = None, m_sourceId = -1,
      m_samples = [], m_isEos = False, m_segmentSet = False, m_isSinkFlushOngoing = False,
      m_isServerFlushOngoing = False, m_isTimeResetOngoing = False, m_isStateCommitNeeded = False,
      m_mediaPlayerManager = \<lparr>m_client = None, m_currentGstBinParent = None\<rparr>,
      m_controlRemoved = False, m_sourceAttached = False, m_isSinglePathStream = False,
      m_numOfStreams = 1, m_hasDrm = True, m_isAsync = (type = MST_VIDEO), m_enableLastSample = False,
      m_lastBuffer = None, m_mediaSourceType = type,
      m_lastInstantRateChangeSeqnum = GST_SEQNUM_INVALID,
      m_currentInstantRateChangeSeqnum = GST_SEQNUM_INVALID, audio = new_audio_members,
      video = new_video_members, subtitle = new_subtitle_members\<rparr>"

section \<open>A cooperative environment\<close>

text \<open>An environment in which every call succeeds, the server works asynchronously and gives the
  source the id 1, 2 or 3 by its type; \<open>gst_element_lost_state\<close> moves the element back to an
  asynchronous change to its current state. It serves to run the operations on concrete inputs.\<close>

definition type_id :: "MediaSource \<Rightarrow> int" where
  "type_id src = (case getType src of MST_AUDIO \<Rightarrow> 1 | MST_VIDEO \<Rightarrow> 2 | _ \<Rightarrow> 3)"

definition good_env :: env where
  "good_env = \<lparr>be_created = True, be_load = True, be_attachSource = (\<lambda>src. Some (type_id src)),
     be_removeSource = (\<lambda>_. True), be_play_async = True, be_flush = (\<lambda>_ _. (True, True)),
     be_setSourcePosition = True, be_renderFrame = True, be_getDuration = (True, Some 0),
     be_getImmediateOutput = (\<lambda>_. (True, Some False)), be_setImmediateOutput = True,
     be_getStats = (\<lambda>_. (True, Some (0, 0))), be_getVolume = (True, Some 1),
     be_getMute = (\<lambda>_. (True, Some False)), be_getTextTrackIdentifier = (True, Some []),
     be_setLowLatency = True, be_setSync = True, be_getSync = (True, Some False), be_setSyncOff = True,
     be_setStreamSyncMode = True, be_getStreamSyncMode = (True, Some 0),
     be_getBufferingLimit = (True, Some 0), be_getUseBuffering = (True, Some False),
     be_switchSource = True, be_addSegment = (\<lambda>_ _ _. ASS_OK), gst_post_ok = True,
     gst_element_lost_state = (\<lambda>el. el\<lparr>GST_STATE_NEXT := GST_STATE el,
       GST_STATE_PENDING := GST_STATE el, GST_STATE_RETURN := GST_STATE_CHANGE_ASYNC\<rparr>)\<rparr>"

definition start_segment :: GstSegment where
  "start_segment = \<lparr>seg_flags_reset_only = False, seg_rate = 1, seg_applied_rate = 1,
     seg_format = GST_FORMAT_TIME, seg_start = 0, seg_stop = GST_CLOCK_TIME_NONE,
     seg_duration = GST_CLOCK_TIME_NONE\<rparr>"

text \<open>A sink in the middle of an asynchronous change of state.\<close>

definition changing_sink :: "GstState \<Rightarrow> GstState \<Rightarrow> GstElement" where
  "changing_sink current next = \<lparr>GST_STATE = current, GST_STATE_NEXT = next,
     GST_STATE_PENDING = GST_STATE_VOID_PENDING, GST_STATE_RETURN = GST_STATE_CHANGE_ASYNC, bus = [],
     signals = []\<rparr>"

end
