(* ===== verification/C_Format.thy ===== *)
theory C_Format
  imports Rialto_Prelude
begin

text \<open>
  The conversions of the C library that the sources use on strings: \<open>%u\<close> of \<open>sscanf\<close> (with
  literal commas and \<open>%c\<close>) and \<open>%u\<close> of \<open>sprintf\<close>. \<open>%u\<close> skips white space, takes an optional
  sign and decimal digits, converts them as \<open>strtoul\<close> does (saturating at 64 bits) and stores
  the low 32 bits. A scan fails at the first directive that does not match; what was assigned
  before stays assigned, and a scan of an exhausted input before the first conversion returns
  \<open>EOF\<close> (-1).
\<close>

section \<open>Printing\<close>

definition digit_char :: "nat \<Rightarrow> char" where
  "digit_char d = char_of (48 + d)"

fun print_uint :: "nat \<Rightarrow> string" where
  "print_uint n = (if n < 10 then [digit_char n] else print_uint (n div 10) @ [digit_char (n mod 10)])"

declare print_uint.simps [simp del]

section \<open>Scanning\<close>

definition char_code :: "char \<Rightarrow> nat" where
  "char_code c = of_char c"

definition is_digit :: "char \<Rightarrow> bool" where
  "is_digit c \<longleftrightarrow> 48 \<le> char_code c \<and> char_code c \<le> 57"

definition is_space :: "char \<Rightarrow> bool" where
  "is_space c \<longleftrightarrow> char_code c = 32 \<or> (9 \<le> char_code c \<and> char_code c \<le> 13)"

fun scan_digits :: "nat \<Rightarrow> string \<Rightarrow> nat \<times> string" where
  "scan_digits acc [] = (acc, [])"
| "scan_digits acc (c # cs) =
     (if is_digit c then scan_digits (10 * acc + (char_code c - 48)) cs else (acc, c # cs))"

text \<open>\<open>strtoul\<close>: digits beyond 64 bits give \<open>ULONG_MAX\<close>; a minus sign negates.\<close>

definition to_ulong :: "bool \<Rightarrow> nat \<Rightarrow> u64" where
  "to_ulong neg n = (if 2 ^ 64 \<le> n then - 1 else if neg then - of_nat n else of_nat n)"

definition scan_uint :: "string \<Rightarrow> (u32 \<times> string) option" where
  "scan_uint s =
     (let s1 = dropWhile is_space s;
          neg = (s1 \<noteq> [] \<and> hd s1 = CHR ''-'');
          s2 = (if s1 \<noteq> [] \<and> (hd s1 = CHR ''-'' \<or> hd s1 = CHR ''+'') then tl s1 else s1)
      in case s2 of
           [] \<Rightarrow> None
         | c # _ \<Rightarrow>
             if is_digit c
             then (case scan_digits 0 s2 of (n, rest) \<Rightarrow> Some (ucast (to_ulong neg n), rest))
             else None)"

definition scan_char :: "char \<Rightarrow> string \<Rightarrow> string option" where
  "scan_char c s = (case s of [] \<Rightarrow> None | d # rest \<Rightarrow> if d = c then Some rest else None)"

text \<open>A number that follows a comma.\<close>

definition scan_comma_uint :: "string \<Rightarrow> (u32 \<times> string) option" where
  "scan_comma_uint s = (case scan_char (CHR '','') s of None \<Rightarrow> None | Some rest \<Rightarrow> scan_uint rest)"

text \<open>\<open>sscanf(s, "%u,%u,%u,%u", ...)\<close> when it assigns all four numbers.\<close>

definition sscanf_rectangle :: "string \<Rightarrow> (u32 \<times> u32 \<times> u32 \<times> u32) option" where
  "sscanf_rectangle s =
     (case scan_uint s of None \<Rightarrow> None | Some (x, s1) \<Rightarrow>
     (case scan_comma_uint s1 of None \<Rightarrow> None | Some (y, s2) \<Rightarrow>
     (case scan_comma_uint s2 of None \<Rightarrow> None | Some (w, s3) \<Rightarrow>
     (case scan_comma_uint s3 of None \<Rightarrow> None | Some (h, _) \<Rightarrow> Some (x, y, w, h)))))"

text \<open>\<open>sscanf(s, "%u,%u,%c", &volume, &duration, &ease)\<close>: the returned count and the three
  variables afterwards, from their initial values.\<close>

definition sscanf_fade :: "string \<Rightarrow> u32 \<Rightarrow> u32 \<Rightarrow> char \<Rightarrow> int \<times> u32 \<times> u32 \<times> char" where
  "sscanf_fade s volume duration ease =
     (if dropWhile is_space s = [] then (-1, volume, duration, ease)
      else case scan_uint s of
        None \<Rightarrow> (0, volume, duration, ease)
      | Some (v, s1) \<Rightarrow>
        (case scan_comma_uint s1 of
           None \<Rightarrow> (1, v, duration, ease)
         | Some (d, s2) \<Rightarrow>
           (case scan_char (CHR '','') s2 of
              Some (c # _) \<Rightarrow> (3, v, d, c)
            | _ \<Rightarrow> (2, v, d, ease))))"

definition sprintf_rectangle :: "u32 \<Rightarrow> u32 \<Rightarrow> u32 \<Rightarrow> u32 \<Rightarrow> string" where
  "sprintf_rectangle x y w h =
     print_uint (unat x) @ CHR '','' # print_uint (unat y) @ CHR '','' #
     print_uint (unat w) @ CHR '','' # print_uint (unat h)"

section \<open>Scanning what was printed\<close>

lemma char_code_digit [simp]: "d < 10 \<Longrightarrow> char_code (digit_char d) = 48 + d"
  by (simp add: char_code_def digit_char_def)

lemma is_digit_digit [simp]: "d < 10 \<Longrightarrow> is_digit (digit_char d)"
  by (simp add: is_digit_def)

definition stops :: "string \<Rightarrow> bool" where
  "stops s \<longleftrightarrow> s = [] \<or> \<not> is_digit (hd s)"

lemma scan_digits_print_gen:
  "\<exists>m. \<forall>rest acc. scan_digits acc (print_uint n @ rest) = scan_digits (m * acc + n) rest"
proof (induction n rule: print_uint.induct)
  case (1 n)
  show ?case
  proof (cases "n < 10")
    case True
    then show ?thesis by (intro exI [of _ 10]) (simp add: print_uint.simps [of n])
  next
    case False
    with 1 obtain m where m: "scan_digits acc (print_uint (n div 10) @ rest) = scan_digits (m * acc + n div 10) rest"
      for acc rest by blast
    have "scan_digits acc (print_uint n @ rest) = scan_digits ((10 * m) * acc + n) rest" for acc rest
    proof -
      have "scan_digits acc (print_uint n @ rest) =
          scan_digits (m * acc + n div 10) (digit_char (n mod 10) # rest)"
        using False m [of acc "digit_char (n mod 10) # rest"] by (simp add: print_uint.simps [of n])
      also have "\<dots> = scan_digits (10 * (m * acc + n div 10) + n mod 10) rest"
        by simp
      also have "10 * (m * acc + n div 10) + n mod 10 = (10 * m) * acc + n"
        by (simp add: algebra_simps)
      finally show ?thesis .
    qed
    then show ?thesis by blast
  qed
qed

lemma scan_digits_stops: "stops rest \<Longrightarrow> scan_digits acc rest = (acc, rest)"
  by (cases rest) (auto simp: stops_def)

lemma scan_digits_print:
  assumes "stops rest"
  shows "scan_digits 0 (print_uint n @ rest) = (n, rest)"
proof -
  obtain m where "scan_digits 0 (print_uint n @ rest) = scan_digits (m * 0 + n) rest"
    using scan_digits_print_gen [of n] by blast
  with assms show ?thesis by (simp add: scan_digits_stops)
qed

lemma print_uint_hd: "\<exists>d cs. d < 10 \<and> print_uint n = digit_char d # cs"
proof (induction n rule: print_uint.induct)
  case (1 n)
  show ?case
  proof (cases "n < 10")
    case False
    with 1 obtain d cs where "d < 10" "print_uint (n div 10) = digit_char d # cs" by blast
    with False show ?thesis by (auto simp: print_uint.simps [of n])
  qed (auto simp: print_uint.simps [of n])
qed

lemma digit_not_space: "d < 10 \<Longrightarrow> \<not> is_space (digit_char d)"
  by (simp add: is_space_def)

lemma digit_not_sign: "d < 10 \<Longrightarrow> digit_char d \<noteq> CHR ''-'' \<and> digit_char d \<noteq> CHR ''+''"
proof -
  assume "d < 10"
  then have "char_code (digit_char d) = 48 + d" by simp
  moreover have "char_code (CHR ''-'') = 45" "char_code (CHR ''+'') = 43"
    by (simp_all add: char_code_def)
  ultimately show ?thesis by auto
qed

lemma scan_uint_print:
  assumes "stops rest"
  shows "scan_uint (print_uint (unat (w :: u32)) @ rest) = Some (w, rest)"
proof -
  obtain d cs where d: "d < 10" "print_uint (unat w) = digit_char d # cs"
    using print_uint_hd by blast
  have "unat w < 2 ^ 32" using unsigned_less [of w] by simp
  moreover from this have "unat w < 2 ^ 64" by simp
  ultimately have "ucast (to_ulong False (unat w)) = w"
    by (simp add: to_ulong_def) (rule bit_word_eqI, auto simp: bit_simps)
  with d scan_digits_print [OF assms, of "unat w"] show ?thesis
    by (simp add: scan_uint_def digit_not_space digit_not_sign)
qed

lemma stops_comma: "stops (CHR '','' # s)" "stops []"
  by (simp_all add: stops_def is_digit_def char_code_def)

lemma rectangle_roundtrip: "sscanf_rectangle (sprintf_rectangle x y w h) = Some (x, y, w, h)"
  using scan_uint_print [OF stops_comma(2), of h]
  by (simp add: sscanf_rectangle_def sprintf_rectangle_def scan_uint_print stops_comma
      scan_comma_uint_def scan_char_def)

end
