(* ===== verification/Media_Player_Client.thy ===== *)
theory Media_Player_Client
  imports Player_State C_Format
begin

text \<open>
  \<open>GStreamerMSEMediaPlayerClient.cpp\<close>: the object that connects the sinks of one pipeline with
  one Rialto media session. Every public method that reads or changes the session runs in the
  event loop of \<open>m_backendQueue\<close>; the theory \<open>Message_Queue\<close> shows that such calls take effect
  one at a time, so each method is one function on the record \<open>player\<close>. \<open>in_loop\<close> is
  \<open>callInEventLoop\<close> from another thread: when the queue does not accept the call, the function
  is not run and the method returns its initial result. Handlers of messages run on the worker
  thread, where \<open>callInEventLoop\<close> calls the function directly.

  The groups below follow the source: the queue, data pulling, state changes, sources, events
  from the server, properties, and the messages.
\<close>

section \<open>The backend queue and the backend\<close>

definition in_loop :: "'r \<Rightarrow> (player \<Rightarrow> 'r \<times> player) \<Rightarrow> player \<Rightarrow> 'r \<times> player" where
  "in_loop result f s = (if queueRunning s \<and> queueAccepting s then f s else (result, s))"

definition post :: "client_message \<Rightarrow> player \<Rightarrow> player" where
  "post msg s = (if queueRunning s \<and> queueAccepting s
                 then s\<lparr>queueMessages := queueMessages s @ [msg]\<rparr> else s)"

definition call :: "backend_call \<Rightarrow> player \<Rightarrow> player" where
  "call b s = s\<lparr>calls := calls s @ [b]\<rparr>"

definition edit_source :: "int \<Rightarrow> (AttachedSource \<Rightarrow> AttachedSource) \<Rightarrow> player \<Rightarrow> player" where
  "edit_source sourceId f s = s\<lparr>m_attachedSources := edit_key sourceId f (m_attachedSources s)\<rparr>"

definition edit_sync :: "(sync \<Rightarrow> sync) \<Rightarrow> player \<Rightarrow> player" where
  "edit_sync f s = s\<lparr>m_flushAndDataSynchronizer := f (m_flushAndDataSynchronizer s)\<rparr>"

definition UNKNOWN_STREAMS_NUMBER :: int where "UNKNOWN_STREAMS_NUMBER = -1"
definition DEFAULT_MAX_VIDEO_WIDTH :: u32 where "DEFAULT_MAX_VIDEO_WIDTH = 3840"
definition DEFAULT_MAX_VIDEO_HEIGHT :: u32 where "DEFAULT_MAX_VIDEO_HEIGHT = 2160"

text \<open>The constructor, which also starts the queue.\<close>

definition GStreamerMSEMediaPlayerClient :: "u32 \<Rightarrow> u32 \<Rightarrow> bool \<Rightarrow> client" where
  "GStreamerMSEMediaPlayerClient maxVideoWidth maxVideoHeight isLive =
     \<lparr>queueRunning = True, queueAccepting = True, queueMessages = [], m_clientBackend = True,
      m_backendCreated = False, m_duration = 0, m_attachedSources = [],
      m_wasAllSourcesAttachedSent = False, m_audioStreams = UNKNOWN_STREAMS_NUMBER,
      m_videoStreams = UNKNOWN_STREAMS_NUMBER, m_subtitleStreams = UNKNOWN_STREAMS_NUMBER,
      m_playbackInfo = \<lparr>currentPosition = -1, pi_volume = 1\<rparr>, m_flushAndDataSynchronizer = [],
      wasPlayingBeforeEos = False,
      m_videoRectangle = \<lparr>rect_x = 0, rect_y = 0, rect_width = 1920, rect_height = 1080\<rparr>,
      m_serverPlaybackState = PS_IDLE, m_clientState = CS_IDLE, m_streamingStopped = False,
      m_maxWidth = (if maxVideoWidth = 0 then DEFAULT_MAX_VIDEO_WIDTH else maxVideoWidth),
      m_maxHeight = (if maxVideoHeight = 0 then DEFAULT_MAX_VIDEO_HEIGHT else maxVideoHeight),
      m_isLive = isLive, calls = []\<rparr>"

definition createBackend :: "env \<Rightarrow> player \<Rightarrow> bool \<times> player" where
  "createBackend e = in_loop False (\<lambda>s.
     if \<not> m_clientBackend s then (False, s)
     else (let s1 = call (B_create (m_maxWidth s) (m_maxHeight s)) (s\<lparr>m_backendCreated := be_created e\<rparr>)
           in if m_backendCreated s1
              then (be_load e, call (B_load (m_isLive s1)) s1)
              else (False, s1)))"

section \<open>Pulling data\<close>

text \<open>
  The loop of \<open>PullBufferMessage::handle\<close>: \<open>n\<close> rounds are left, \<open>k\<close> were made, \<open>added\<close> segments
  were added. The result is \<open>isEos\<close>, the count and the state; \<open>None\<close> is the exception of
  \<open>parseBuffer\<close> for a sample whose caps have no name.
\<close>

fun pull_loop :: "env \<Rightarrow> BufferParser \<Rightarrow> PullBufferMessage \<Rightarrow> nat \<Rightarrow> nat \<Rightarrow> nat \<Rightarrow> nat \<Rightarrow> player \<Rightarrow>
    (bool \<times> nat \<times> player) option" where
  "pull_loop e parser msg h 0 k added s = Some (False, added, s)"
| "pull_loop e parser msg h (Suc n) k added s =
     (let d = delegates s h
      in if \<not> isReadyToSendData d then Some (False, added, s)
         else case getFrontSample d of
           None \<Rightarrow> Some (isEos d, added, s)
         | Some sample \<Rightarrow>
             (case gst_buffer_map (sample_buffer sample) of
                None \<Rightarrow> pull_loop e parser msg h n (Suc k) added (upd_delegate h popSample s)
              | Some mapped \<Rightarrow>
                  (case parseBuffer parser sample (sample_buffer sample) mapped (pb_sourceId msg) of
                     Inl _ \<Rightarrow> None
                   | Inr mseData \<Rightarrow>
                       (let status = be_addSegment e k (pb_needDataRequestId msg) mseData;
                            s1 = call (B_addSegment (pb_needDataRequestId msg) mseData status) s
                        in if status = ASS_NO_SPACE then Some (False, added, s1)
                           else pull_loop e parser msg h n (Suc k) (Suc added)
                                  (upd_delegate h popSample s1)))))"

definition pull_status :: "bool \<Rightarrow> nat \<Rightarrow> MediaSourceStatus" where
  "pull_status eos added =
     (if eos then MSS_EOS else if added = 0 then MSS_NO_AVAILABLE_SAMPLES else MSS_OK)"

definition handle_PullBufferMessage ::
  "env \<Rightarrow> BufferParser \<Rightarrow> nat \<Rightarrow> PullBufferMessage \<Rightarrow> player \<Rightarrow> player option" where
  "handle_PullBufferMessage e parser h msg s =
     (case pull_loop e parser msg h (pb_frameCount msg) 0 0 s of
        None \<Rightarrow> None
      | Some (eos, added, s1) \<Rightarrow>
          (let status = pull_status eos added;
               s2 = (if status = MSS_OK \<or> status = MSS_EOS
                     then edit_sync (notifyDataPushed (pb_sourceId msg)) s1 else s1)
           in Some (post (HaveDataMessage status (pb_sourceId msg) (pb_needDataRequestId msg)) s2)))"

text \<open>\<open>BufferPuller\<close>. Stopping its queue lets the worker handle what is queued; an exception ends
  the process, and the state is the one at that point.\<close>

definition BufferPuller_requestPullBuffer ::
  "PullBufferMessage \<Rightarrow> BufferPuller \<Rightarrow> bool \<times> BufferPuller" where
  "BufferPuller_requestPullBuffer msg p =
     (if p_running p then (True, p\<lparr>p_queue := p_queue p @ [msg]\<rparr>) else (False, p))"

fun drain_puller :: "env \<Rightarrow> BufferParser \<Rightarrow> nat \<Rightarrow> PullBufferMessage list \<Rightarrow> player \<Rightarrow> player" where
  "drain_puller e parser h [] s = s"
| "drain_puller e parser h (msg # msgs) s =
     (case handle_PullBufferMessage e parser h msg s of
        None \<Rightarrow> s
      | Some s1 \<Rightarrow> drain_puller e parser h msgs s1)"

text \<open>The worker of the puller of a source handles the next request.\<close>

definition puller_step :: "env \<Rightarrow> int \<Rightarrow> player \<Rightarrow> player" where
  "puller_step e sourceId s =
     (case find_key (m_attachedSources s) sourceId of
        None \<Rightarrow> s
      | Some src \<Rightarrow>
          (case p_queue (m_bufferPuller src) of
             [] \<Rightarrow> s
           | msg # rest \<Rightarrow>
               (let s1 = edit_source sourceId
                      (\<lambda>a. a\<lparr>m_bufferPuller := (m_bufferPuller a)\<lparr>p_queue := rest\<rparr>\<rparr>) s
                in case handle_PullBufferMessage e (p_parser (m_bufferPuller src)) (m_delegate src) msg s1 of
                     None \<Rightarrow> s1
                   | Some s2 \<Rightarrow> s2)))"

section \<open>Play, pause and the server's state\<close>

definition checkIfAllAttachedSourcesInStates :: "ClientState list \<Rightarrow> player \<Rightarrow> bool" where
  "checkIfAllAttachedSourcesInStates states s =
     list_all (\<lambda>(_, source). m_state source \<in> set states) (m_attachedSources s)"

definition set_source_state :: "int \<Rightarrow> ClientState \<Rightarrow> player \<Rightarrow> player" where
  "set_source_state sourceId st s = edit_source sourceId (\<lambda>a. a\<lparr>m_state := st\<rparr>) s"

text \<open>The function that \<open>play\<close> runs in the loop.\<close>

definition play_in_loop :: "env \<Rightarrow> int \<Rightarrow> player \<Rightarrow> StateChangeResult \<times> player" where
  "play_in_loop e sourceId s =
     (case find_key (m_attachedSources s) sourceId of
        None \<Rightarrow> (NOT_ATTACHED, s)
      | Some source \<Rightarrow>
          if m_serverPlaybackState s = PS_PLAYING \<or>
             (m_serverPlaybackState s = PS_END_OF_STREAM \<and> wasPlayingBeforeEos s)
          then (let s1 = set_source_state sourceId CS_PLAYING s
                in (SUCCESS_SYNC,
                    if checkIfAllAttachedSourcesInStates [CS_PLAYING] s1
                    then s1\<lparr>m_clientState := CS_PLAYING\<rparr> else s1))
          else
            (let s1 = set_source_state sourceId CS_AWAITING_PLAYING s
             in if m_clientState s1 = CS_PAUSED \<and>
                   checkIfAllAttachedSourcesInStates [CS_AWAITING_PLAYING, CS_PLAYING] s1
                then (let s2 = (call B_play s1)\<lparr>m_clientState := CS_AWAITING_PLAYING\<rparr>
                      in if \<not> be_play_async e
                         then (SUCCESS_SYNC, post (PlaybackStateMessage PS_PLAYING) s2)
                         else (SUCCESS_ASYNC, upd_delegate (m_delegate source) postAsyncStart s2))
                else (SUCCESS_ASYNC, upd_delegate (m_delegate source) postAsyncStart s1)))"

definition play :: "env \<Rightarrow> int \<Rightarrow> player \<Rightarrow> StateChangeResult \<times> player" where
  "play e sourceId = in_loop NOT_ATTACHED (play_in_loop e sourceId)"

definition pause_in_loop :: "int \<Rightarrow> player \<Rightarrow> StateChangeResult \<times> player" where
  "pause_in_loop sourceId s =
     (case find_key (m_attachedSources s) sourceId of
        None \<Rightarrow> (NOT_ATTACHED, s)
      | Some source \<Rightarrow>
          if m_serverPlaybackState s = PS_PAUSED \<and> m_clientState s \<noteq> CS_AWAITING_PLAYING \<and>
             m_clientState s \<noteq> CS_AWAITING_PAUSED
          then (let s1 = set_source_state sourceId CS_PAUSED s
                in (SUCCESS_SYNC,
                    if checkIfAllAttachedSourcesInStates [CS_PAUSED] s1
                    then s1\<lparr>m_clientState := CS_PAUSED\<rparr> else s1))
          else
            (let s1 = set_source_state sourceId CS_AWAITING_PAUSED s;
                 shouldPause =
                   (if m_clientState s1 = CS_READY
                    then checkIfAllAttachedSourcesInStates [CS_AWAITING_PAUSED] s1
                    else m_clientState s1 = CS_AWAITING_PLAYING \<or> m_clientState s1 = CS_PLAYING);
                 s2 = (if shouldPause then (call B_pause s1)\<lparr>m_clientState := CS_AWAITING_PAUSED\<rparr> else s1)
             in (SUCCESS_ASYNC, upd_delegate (m_delegate source) postAsyncStart s2)))"

definition pause :: "int \<Rightarrow> player \<Rightarrow> StateChangeResult \<times> player" where
  "pause sourceId = in_loop NOT_ATTACHED (pause_in_loop sourceId)"

definition stop :: "player \<Rightarrow> player" where
  "stop s = snd (in_loop () (\<lambda>s. ((), call B_stop s)) s)"

definition setPlaybackRate :: "real \<Rightarrow> player \<Rightarrow> player" where
  "setPlaybackRate rate s = snd (in_loop () (\<lambda>s. ((), call (B_setPlaybackRate rate) s)) s)"

text \<open>\<open>PullModePlaybackDelegate::handleStateChanged\<close> as the client calls it on the delegate of an
  attached source. Its call of \<open>changeState(PAUSED_TO_PLAYING)\<close> reaches \<open>play\<close> of this client,
  on the worker thread, unless the delegate has released the client.\<close>

definition handleStateChanged :: "env \<Rightarrow> PlaybackState \<Rightarrow> nat \<Rightarrow> player \<Rightarrow> player" where
  "handleStateChanged e state h s =
     (let d = delegates s h; current = GST_STATE (m_sink d); next = GST_STATE_NEXT (m_sink d)
      in if m_isStateCommitNeeded d
         then (if (state = PS_PAUSED \<and> next = GST_STATE_PAUSED) \<or>
                  (state = PS_PLAYING \<and> next = GST_STATE_PLAYING)
               then upd_delegate h commitState s
               else if state = PS_PAUSED \<and> current = GST_STATE_PAUSED \<and> next = GST_STATE_PLAYING \<and>
                       m_client (m_mediaPlayerManager d) \<noteq> None
               then snd (play_in_loop e (m_sourceId d) s)
               else s)
         else s)"

text \<open>The loop over the sources, for PAUSED and PLAYING.\<close>

fun notify_sources :: "env \<Rightarrow> PlaybackState \<Rightarrow> int list \<Rightarrow> player \<Rightarrow> player" where
  "notify_sources e state [] s = s"
| "notify_sources e state (k # ks) s =
     (case find_key (m_attachedSources s) k of
        None \<Rightarrow> notify_sources e state ks s
      | Some source \<Rightarrow>
          (let s1 = (if state = PS_PAUSED \<and> m_state source = CS_AWAITING_PAUSED
                     then set_source_state k CS_PAUSED s
                     else if state = PS_PLAYING \<and> m_state source = CS_AWAITING_PLAYING
                     then set_source_state k CS_PLAYING s
                     else s)
           in notify_sources e state ks (handleStateChanged e state (m_delegate source) s1)))"

definition for_delegates :: "(delegate \<Rightarrow> delegate) \<Rightarrow> player \<Rightarrow> player" where
  "for_delegates f s = fold (\<lambda>(_, source). upd_delegate (m_delegate source) f) (m_attachedSources s) s"

definition handlePlaybackStateChange :: "env \<Rightarrow> PlaybackState \<Rightarrow> player \<Rightarrow> player" where
  "handlePlaybackStateChange e state s =
     (let previous = m_serverPlaybackState s;
          s0 = s\<lparr>m_serverPlaybackState := state\<rparr>
      in if state = PS_PAUSED \<or> state = PS_PLAYING
         then (let s1 = s0\<lparr>wasPlayingBeforeEos := False\<rparr>
               in if state = PS_PAUSED \<and> m_clientState s1 = CS_AWAITING_PAUSED
                  then notify_sources e state (keys (m_attachedSources s1)) (s1\<lparr>m_clientState := CS_PAUSED\<rparr>)
                  else if state = PS_PLAYING \<and> m_clientState s1 = CS_AWAITING_PLAYING
                  then notify_sources e state (keys (m_attachedSources s1)) (s1\<lparr>m_clientState := CS_PLAYING\<rparr>)
                  else if state = PS_PLAYING \<and> m_clientState s1 = CS_AWAITING_PAUSED
                  then s1
                  else notify_sources e state (keys (m_attachedSources s1)) s1)
         else if state = PS_END_OF_STREAM
         then for_delegates handleEos
                (if \<not> wasPlayingBeforeEos s0 \<and> previous = PS_PLAYING
                 then s0\<lparr>wasPlayingBeforeEos := True\<rparr> else s0)
         else if state = PS_FAILURE
         then (let s1 = for_delegates (handleError ''Rialto server playback failed'' 0)
                          (s0\<lparr>wasPlayingBeforeEos := False\<rparr>)
               in s1\<lparr>m_attachedSources := map (\<lambda>(k, a). (k, a\<lparr>m_position := 0\<rparr>)) (m_attachedSources s1),
                     m_playbackInfo := (m_playbackInfo s1)\<lparr>currentPosition := 0\<rparr>\<rparr>)
         else s0)"

section \<open>Flushing and positions\<close>

definition flush_in_loop :: "env \<Rightarrow> int \<Rightarrow> bool \<Rightarrow> player \<Rightarrow> player" where
  "flush_in_loop e sourceId resetTime s0 =
     (let s = s0\<lparr>wasPlayingBeforeEos := False\<rparr>
      in case find_key (m_attachedSources s) sourceId of
           None \<Rightarrow> s
         | Some source \<Rightarrow>
             (let s1 = call (B_flush sourceId resetTime) s;
                  (ok, async) = be_flush e sourceId resetTime
              in if \<not> ok then s1
                 else (let s2 = edit_source sourceId (\<lambda>a. a\<lparr>m_isFlushing := True\<rparr>) s1
                       in if async
                          then (let s3 = set_source_state sourceId CS_AWAITING_PAUSED
                                           (upd_delegate (m_delegate source) (lostState e) s2)
                                in if m_clientState s3 = CS_PLAYING
                                   then s3\<lparr>m_clientState := CS_AWAITING_PLAYING\<rparr>
                                   else if m_clientState s3 = CS_PAUSED
                                   then s3\<lparr>m_clientState := CS_AWAITING_PAUSED\<rparr>
                                   else s3)
                          else s2)))"

definition flush :: "env \<Rightarrow> int \<Rightarrow> bool \<Rightarrow> player \<Rightarrow> player" where
  "flush e sourceId resetTime s =
     snd (in_loop () (\<lambda>s. ((), flush_in_loop e sourceId resetTime s))
            (edit_sync (notifyFlushStarted sourceId) s))"

definition handleSourceFlushed :: "int \<Rightarrow> player \<Rightarrow> player" where
  "handleSourceFlushed sourceId s =
     (case find_key (m_attachedSources s) sourceId of
        None \<Rightarrow> s
      | Some source \<Rightarrow>
          if \<not> m_isFlushing source then s
          else edit_sync (notifyFlushCompleted sourceId)
                 (upd_delegate (m_delegate source) handleFlushCompleted
                   (edit_source sourceId (\<lambda>a. a\<lparr>m_isFlushing := False\<rparr>) s)))"

definition setSourcePosition :: "env \<Rightarrow> int \<Rightarrow> int \<Rightarrow> bool \<Rightarrow> real \<Rightarrow> u64 \<Rightarrow> player \<Rightarrow> player" where
  "setSourcePosition e sourceId position resetTime appliedRate stopPosition s =
     snd (in_loop () (\<lambda>s.
       case find_key (m_attachedSources s) sourceId of
         None \<Rightarrow> ((), s)
       | Some source \<Rightarrow>
           (let s1 = call (B_setSourcePosition sourceId position resetTime appliedRate stopPosition) s
            in if \<not> be_setSourcePosition e then ((), s1)
               else ((), edit_source sourceId (\<lambda>a. a\<lparr>m_position := position\<rparr>) s1))) s)"

definition setSubtitleOffset :: "int \<Rightarrow> int \<Rightarrow> player \<Rightarrow> player" where
  "setSubtitleOffset sourceId position s =
     snd (in_loop () (\<lambda>s.
       case find_key (m_attachedSources s) sourceId of
         None \<Rightarrow> ((), s)
       | Some source \<Rightarrow> ((), call (B_setSubtitleOffset sourceId position) s)) s)"

definition processAudioGap :: "int \<Rightarrow> u32 \<Rightarrow> int \<Rightarrow> bool \<Rightarrow> player \<Rightarrow> player" where
  "processAudioGap position duration discontinuityGap audioAac s =
     snd (in_loop () (\<lambda>s. ((), call (B_processAudioGap position duration discontinuityGap audioAac) s)) s)"

section \<open>Sources\<close>

fun count_type :: "MediaSourceType \<Rightarrow> (int \<times> AttachedSource) list \<Rightarrow> int" where
  "count_type t [] = 0"
| "count_type t ((_, source) # rest) = (if m_type source = t then 1 else 0) + count_type t rest"

definition areAllStreamsAttached :: "player \<Rightarrow> bool" where
  "areAllStreamsAttached s =
     (count_type MST_VIDEO (m_attachedSources s) = m_videoStreams s \<and>
      count_type MST_AUDIO (m_attachedSources s) = m_audioStreams s \<and>
      count_type MST_SUBTITLE (m_attachedSources s) = m_subtitleStreams s)"

definition sendAllSourcesAttachedIfPossibleInternal :: "player \<Rightarrow> player" where
  "sendAllSourcesAttachedIfPossibleInternal s =
     (if \<not> m_wasAllSourcesAttachedSent s \<and> areAllStreamsAttached s
      then (let s1 = (call B_allSourcesAttached s)\<lparr>m_wasAllSourcesAttachedSent := True,
                       m_clientState := CS_READY\<rparr>
            in if checkIfAllAttachedSourcesInStates [CS_AWAITING_PAUSED] s1
               then (call B_pause s1)\<lparr>m_clientState := CS_AWAITING_PAUSED\<rparr>
               else s1)
      else s)"

definition sendAllSourcesAttachedIfPossible :: "player \<Rightarrow> player" where
  "sendAllSourcesAttachedIfPossible s =
     snd (in_loop () (\<lambda>s. ((), sendAllSourcesAttachedIfPossibleInternal s)) s)"

fun parser_for :: "MediaSourceType \<Rightarrow> BufferParser" where
  "parser_for MST_AUDIO = AudioBufferParser"
| "parser_for MST_VIDEO = VideoBufferParser"
| "parser_for _ = SubtitleBufferParser"

definition new_source :: "MediaSourceType \<Rightarrow> nat \<Rightarrow> AttachedSource" where
  "new_source type h =
     \<lparr>m_bufferPuller = \<lparr>p_parser = parser_for type, p_running = True, p_queue = []\<rparr>,
      m_delegate = h, m_type = type, m_position = 0, m_isFlushing = False, m_state = CS_READY\<rparr>"

definition attachSource_in_loop :: "env \<Rightarrow> MediaSource \<Rightarrow> nat \<Rightarrow> player \<Rightarrow> bool \<times> player" where
  "attachSource_in_loop e source h s =
     (let s1 = call (B_attachSource source) s
      in case be_attachSource e source of
           None \<Rightarrow> (False, sendAllSourcesAttachedIfPossibleInternal s1)
         | Some sid \<Rightarrow>
             (let s2 = (if find_key (m_attachedSources s1) sid = None
                        then edit_sync (addSource sid)
                               (upd_delegate h (setSourceId sid)
                                 (s1\<lparr>m_attachedSources := m_attachedSources s1 @ [(sid, new_source (getType source) h)]\<rparr>))
                        else s1)
              in (True, sendAllSourcesAttachedIfPossibleInternal s2)))"

definition attachSource :: "env \<Rightarrow> MediaSource \<Rightarrow> nat \<Rightarrow> player \<Rightarrow> bool \<times> player" where
  "attachSource e source h s =
     (if getType source \<noteq> MST_AUDIO \<and> getType source \<noteq> MST_VIDEO \<and> getType source \<noteq> MST_SUBTITLE
      then (False, s)
      else in_loop False (attachSource_in_loop e source h) s)"

text \<open>Erasing the source destroys its puller, whose destructor stops the queue.\<close>

definition removeSource_in_loop :: "env \<Rightarrow> int \<Rightarrow> player \<Rightarrow> player" where
  "removeSource_in_loop e sourceId s =
     (let s1 = call (B_removeSource sourceId) s;
          s2 = (case find_key (m_attachedSources s1) sourceId of
                  None \<Rightarrow> s1
                | Some src \<Rightarrow> drain_puller e (p_parser (m_bufferPuller src)) (m_delegate src)
                                (p_queue (m_bufferPuller src)) s1);
          s3 = s2\<lparr>m_attachedSources := erase_key sourceId (m_attachedSources s2)\<rparr>
      in edit_sync (Flush_Data_Sync.removeSource sourceId) s3)"

definition removeSource :: "env \<Rightarrow> int \<Rightarrow> player \<Rightarrow> player" where
  "removeSource e sourceId s = snd (in_loop () (\<lambda>s. ((), removeSource_in_loop e sourceId s)) s)"

definition handleStreamCollection :: "int \<Rightarrow> int \<Rightarrow> int \<Rightarrow> player \<Rightarrow> player" where
  "handleStreamCollection audioStreams videoStreams subtitleStreams s =
     snd (in_loop () (\<lambda>s. ((), s\<lparr>
       m_audioStreams := (if m_audioStreams s = UNKNOWN_STREAMS_NUMBER then audioStreams else m_audioStreams s),
       m_videoStreams := (if m_videoStreams s = UNKNOWN_STREAMS_NUMBER then videoStreams else m_videoStreams s),
       m_subtitleStreams := (if m_subtitleStreams s = UNKNOWN_STREAMS_NUMBER then subtitleStreams
                             else m_subtitleStreams s)\<rparr>)) s)"

definition switchSource :: "env \<Rightarrow> MediaSource \<Rightarrow> player \<Rightarrow> bool \<times> player" where
  "switchSource e source = in_loop False (\<lambda>s. (be_switchSource e, call (B_switchSource source) s))"

section \<open>Events of a source\<close>

definition requestPullBuffer :: "int \<Rightarrow> nat \<Rightarrow> u32 \<Rightarrow> player \<Rightarrow> bool \<times> player" where
  "requestPullBuffer streamId frameCount needDataRequestId s =
     (case find_key (m_attachedSources s) streamId of
        None \<Rightarrow> (False, s)
      | Some source \<Rightarrow>
          (let msg = \<lparr>pb_sourceId = streamId, pb_frameCount = frameCount,
                      pb_needDataRequestId = needDataRequestId\<rparr>;
               (ok, puller) = BufferPuller_requestPullBuffer msg (m_bufferPuller source)
           in (ok, edit_source streamId (\<lambda>a. a\<lparr>m_bufferPuller := puller\<rparr>) s)))"

definition client_handleQos :: "int \<Rightarrow> u64 \<Rightarrow> u64 \<Rightarrow> player \<Rightarrow> bool \<times> player" where
  "client_handleQos sourceId processed dropped s =
     (case find_key (m_attachedSources s) sourceId of
        None \<Rightarrow> (False, s)
      | Some source \<Rightarrow> (True, upd_delegate (m_delegate source) (handleQos processed dropped) s))"

definition handleBufferUnderflow :: "int \<Rightarrow> player \<Rightarrow> bool \<times> player" where
  "handleBufferUnderflow sourceId s =
     (case find_key (m_attachedSources s) sourceId of
        None \<Rightarrow> (False, s)
      | Some source \<Rightarrow>
          (True, upd_delegate (m_delegate source) (upd_sink (g_signal_emit BUFFER_UNDERFLOW)) s))"

definition handleFirstFrameReceived :: "int \<Rightarrow> player \<Rightarrow> bool \<times> player" where
  "handleFirstFrameReceived sourceId s =
     (case find_key (m_attachedSources s) sourceId of
        None \<Rightarrow> (False, s)
      | Some source \<Rightarrow>
          if m_type source = MST_VIDEO
          then (True, upd_delegate (m_delegate source) (upd_sink (g_signal_emit FIRST_VIDEO_FRAME)) s)
          else (False, s))"

definition handlePlaybackError :: "env \<Rightarrow> int \<Rightarrow> PlaybackError \<Rightarrow> player \<Rightarrow> bool \<times> player" where
  "handlePlaybackError e sourceId error s =
     (case find_key (m_attachedSources s) sourceId of
        None \<Rightarrow> (False, s)
      | Some source \<Rightarrow>
          if error = PE_OUTPUT_PROTECTION
          then (gst_post_ok e,
                upd_delegate (m_delegate source)
                  (upd_sink (gst_element_post_message (MSG_APPLICATION ''HDCPProtectionFailure''))) s)
          else if error = PE_DECRYPTION
          then (True, upd_delegate (m_delegate source)
                  (handleError ''Rialto dropped a frame that failed to decrypt'' GST_STREAM_ERROR_DECRYPT) s)
          else (True, upd_delegate (m_delegate source)
                  (handleError ''Rialto server playback failed'' 0) s))"

section \<open>Properties of the session\<close>

definition getPosition :: "player \<Rightarrow> int" where
  "getPosition s = currentPosition (m_playbackInfo s)"

text \<open>A getter whose answer is written to a variable that the caller initialised with \<open>d\<close>.\<close>

definition backend_get :: "'a \<Rightarrow> 'a answer \<Rightarrow> player \<Rightarrow> (bool \<times> 'a) \<times> player" where
  "backend_get d ans s =
     (if \<not> m_clientBackend s then ((False, d), s)
      else in_loop (False, d) (\<lambda>s. ((fst ans, out d ans), s)) s)"

definition getDuration :: "env \<Rightarrow> int \<Rightarrow> player \<Rightarrow> (bool \<times> int) \<times> player" where
  "getDuration e duration = backend_get duration (be_getDuration e)"

definition getImmediateOutput :: "env \<Rightarrow> int \<Rightarrow> bool \<Rightarrow> player \<Rightarrow> (bool \<times> bool) \<times> player" where
  "getImmediateOutput e sourceId b = backend_get b (be_getImmediateOutput e sourceId)"

definition getStats :: "env \<Rightarrow> int \<Rightarrow> player \<Rightarrow> (bool \<times> u64 \<times> u64) \<times> player" where
  "getStats e sourceId = backend_get (0, 0) (be_getStats e sourceId)"

definition getSync :: "env \<Rightarrow> bool \<Rightarrow> player \<Rightarrow> (bool \<times> bool) \<times> player" where
  "getSync e b = backend_get b (be_getSync e)"

definition getStreamSyncMode :: "env \<Rightarrow> int \<Rightarrow> player \<Rightarrow> (bool \<times> int) \<times> player" where
  "getStreamSyncMode e i = backend_get i (be_getStreamSyncMode e)"

text \<open>A setter that is refused without a backend and returns the backend's status.\<close>

definition backend_set :: "backend_call \<Rightarrow> bool \<Rightarrow> player \<Rightarrow> bool \<times> player" where
  "backend_set b ok s =
     (if \<not> m_clientBackend s then (False, s) else in_loop False (\<lambda>s. (ok, call b s)) s)"

definition setImmediateOutput :: "env \<Rightarrow> int \<Rightarrow> bool \<Rightarrow> player \<Rightarrow> bool \<times> player" where
  "setImmediateOutput e sourceId b = backend_set (B_setImmediateOutput sourceId b) (be_setImmediateOutput e)"

definition setLowLatency :: "env \<Rightarrow> bool \<Rightarrow> player \<Rightarrow> bool \<times> player" where
  "setLowLatency e b = backend_set (B_setLowLatency b) (be_setLowLatency e)"

definition setSync :: "env \<Rightarrow> bool \<Rightarrow> player \<Rightarrow> bool \<times> player" where
  "setSync e b = backend_set (B_setSync b) (be_setSync e)"

definition setSyncOff :: "env \<Rightarrow> bool \<Rightarrow> player \<Rightarrow> bool \<times> player" where
  "setSyncOff e b = backend_set (B_setSyncOff b) (be_setSyncOff e)"

definition setStreamSyncMode :: "env \<Rightarrow> int \<Rightarrow> int \<Rightarrow> player \<Rightarrow> bool \<times> player" where
  "setStreamSyncMode e sourceId mode = backend_set (B_setStreamSyncMode sourceId mode) (be_setStreamSyncMode e)"

definition setBufferingLimit :: "u32 \<Rightarrow> player \<Rightarrow> player" where
  "setBufferingLimit limit s = snd (backend_set (B_setBufferingLimit limit) True s)"

definition setUseBuffering :: "bool \<Rightarrow> player \<Rightarrow> player" where
  "setUseBuffering b s = snd (backend_set (B_setUseBuffering b) True s)"

definition getBufferingLimit :: "env \<Rightarrow> player \<Rightarrow> u32 \<times> player" where
  "getBufferingLimit e s = (case backend_get kDefaultBufferingLimit (be_getBufferingLimit e) s of
     ((_, r), s1) \<Rightarrow> (r, s1))"

definition getUseBuffering :: "env \<Rightarrow> player \<Rightarrow> bool \<times> player" where
  "getUseBuffering e s = (case backend_get kDefaultUseBuffering (be_getUseBuffering e) s of
     ((_, r), s1) \<Rightarrow> (r, s1))"

text \<open>The setters and getters that do not test the backend first.\<close>

definition setVolume :: "real \<Rightarrow> u32 \<Rightarrow> EaseType \<Rightarrow> player \<Rightarrow> player" where
  "setVolume targetVolume volumeDuration easeType s =
     snd (in_loop () (\<lambda>s. ((), (call (B_setVolume targetVolume volumeDuration easeType) s)\<lparr>
       m_playbackInfo := (m_playbackInfo s)\<lparr>pi_volume := targetVolume\<rparr>\<rparr>)) s)"

definition getVolume :: "env \<Rightarrow> real \<Rightarrow> player \<Rightarrow> (bool \<times> real) \<times> player" where
  "getVolume e v = in_loop (False, v) (\<lambda>s. ((fst (be_getVolume e), out v (be_getVolume e)), s))"

definition getCachedVolume :: "player \<Rightarrow> bool \<times> real" where
  "getCachedVolume s = (True, pi_volume (m_playbackInfo s))"

definition setMute :: "bool \<Rightarrow> int \<Rightarrow> player \<Rightarrow> player" where
  "setMute mute sourceId s = snd (in_loop () (\<lambda>s. ((), call (B_setMute mute sourceId) s)) s)"

definition getMute :: "env \<Rightarrow> int \<Rightarrow> player \<Rightarrow> bool \<times> player" where
  "getMute e sourceId = in_loop False (\<lambda>s. (out False (be_getMute e sourceId), s))"

definition setTextTrackIdentifier :: "string \<Rightarrow> player \<Rightarrow> player" where
  "setTextTrackIdentifier ident s =
     snd (in_loop () (\<lambda>s. ((), call (B_setTextTrackIdentifier ident) s)) s)"

definition getTextTrackIdentifier :: "env \<Rightarrow> player \<Rightarrow> string \<times> player" where
  "getTextTrackIdentifier e = in_loop [] (\<lambda>s. (out [] (be_getTextTrackIdentifier e), s))"

definition getClientState :: "player \<Rightarrow> ClientState \<times> player" where
  "getClientState = in_loop CS_IDLE (\<lambda>s. (m_clientState s, s))"

definition renderFrame :: "env \<Rightarrow> int \<Rightarrow> player \<Rightarrow> bool \<times> player" where
  "renderFrame e sourceId = in_loop False (\<lambda>s.
     (let s1 = call B_renderFrame s
      in if be_renderFrame e
         then (True, case find_key (m_attachedSources s1) sourceId of
                       None \<Rightarrow> s1
                     | Some source \<Rightarrow> upd_delegate (m_delegate source) (lostState e) s1)
         else (False, s1)))"

definition setVideoRectangle :: "string \<Rightarrow> player \<Rightarrow> player" where
  "setVideoRectangle rectangleString s =
     snd (in_loop () (\<lambda>s.
       if \<not> m_clientBackend s \<or> \<not> m_backendCreated s then ((), s)
       else if rectangleString = [] then ((), s)
       else case sscanf_rectangle rectangleString of
         None \<Rightarrow> ((), s)
       | Some (x, y, w, h) \<Rightarrow>
           ((), (call (B_setVideoWindow x y w h) s)\<lparr>m_videoRectangle :=
                  \<lparr>rect_x = x, rect_y = y, rect_width = w, rect_height = h\<rparr>\<rparr>)) s)"

definition getVideoRectangle :: "player \<Rightarrow> string \<times> player" where
  "getVideoRectangle = in_loop [] (\<lambda>s.
     (sprintf_rectangle (rect_x (m_videoRectangle s)) (rect_y (m_videoRectangle s))
        (rect_width (m_videoRectangle s)) (rect_height (m_videoRectangle s)), s))"

section \<open>Notifications and messages\<close>

definition notifyDuration :: "int \<Rightarrow> player \<Rightarrow> player" where
  "notifyDuration duration = post (SetDurationMessage duration)"

definition notifyPosition :: "int \<Rightarrow> player \<Rightarrow> player" where
  "notifyPosition position = post (SetPositionMessage position)"

definition notifyPlaybackState :: "PlaybackState \<Rightarrow> player \<Rightarrow> player" where
  "notifyPlaybackState state = post (PlaybackStateMessage state)"

definition notifyNeedMediaData :: "int \<Rightarrow> nat \<Rightarrow> u32 \<Rightarrow> player \<Rightarrow> player" where
  "notifyNeedMediaData sourceId frameCount needDataRequestId =
     post (NeedDataMessage sourceId frameCount needDataRequestId)"

definition notifyQos :: "int \<Rightarrow> u64 \<Rightarrow> u64 \<Rightarrow> player \<Rightarrow> player" where
  "notifyQos sourceId processed dropped = post (QosMessage sourceId processed dropped)"

definition notifyBufferUnderflow :: "int \<Rightarrow> player \<Rightarrow> player" where
  "notifyBufferUnderflow sourceId = post (BufferUnderflowMessage sourceId)"

definition notifyFirstFrameReceived :: "int \<Rightarrow> player \<Rightarrow> player" where
  "notifyFirstFrameReceived sourceId = post (FirstFrameReceivedMessage sourceId)"

definition notifyPlaybackError :: "int \<Rightarrow> PlaybackError \<Rightarrow> player \<Rightarrow> player" where
  "notifyPlaybackError sourceId error = post (PlaybackErrorMessage sourceId error)"

definition notifySourceFlushed :: "int \<Rightarrow> player \<Rightarrow> player" where
  "notifySourceFlushed sourceId = post (SourceFlushedMessage sourceId)"

definition notifyPlaybackInfo :: "PlaybackInfo \<Rightarrow> player \<Rightarrow> player" where
  "notifyPlaybackInfo info s =
     (if isAnySourceFlushing (m_flushAndDataSynchronizer s) then s else s\<lparr>m_playbackInfo := info\<rparr>)"

text \<open>\<open>handle\<close> of the message classes.\<close>

definition handle_HaveDataMessage :: "MediaSourceStatus \<Rightarrow> int \<Rightarrow> u32 \<Rightarrow> player \<Rightarrow> player" where
  "handle_HaveDataMessage status sourceId needDataRequestId s =
     (if find_key (m_attachedSources s) sourceId = None then s
      else call (B_haveData status needDataRequestId) s)"

declare handle_HaveDataMessage_def [simp]

fun handle_message :: "env \<Rightarrow> client_message \<Rightarrow> player \<Rightarrow> player" where
  "handle_message e (HaveDataMessage status sourceId needDataRequestId) s =
     handle_HaveDataMessage status sourceId needDataRequestId s"
| "handle_message e (NeedDataMessage sourceId frameCount needDataRequestId) s =
     (case requestPullBuffer sourceId frameCount needDataRequestId s of
        (True, s1) \<Rightarrow> s1
      | (False, s1) \<Rightarrow> post (HaveDataMessage MSS_ERROR sourceId needDataRequestId) s1)"
| "handle_message e (PlaybackStateMessage state) s = handlePlaybackStateChange e state s"
| "handle_message e (QosMessage sourceId processed dropped) s =
     snd (client_handleQos sourceId processed dropped s)"
| "handle_message e (BufferUnderflowMessage sourceId) s = snd (handleBufferUnderflow sourceId s)"
| "handle_message e (FirstFrameReceivedMessage sourceId) s = snd (handleFirstFrameReceived sourceId s)"
| "handle_message e (PlaybackErrorMessage sourceId error) s = snd (handlePlaybackError e sourceId error s)"
| "handle_message e (SetPositionMessage position) s =
     s\<lparr>m_attachedSources := map (\<lambda>(k, a). (k, a\<lparr>m_position := position\<rparr>)) (m_attachedSources s)\<rparr>"
| "handle_message e (SetDurationMessage duration) s = s\<lparr>m_duration := duration\<rparr>"
| "handle_message e (SourceFlushedMessage sourceId) s = handleSourceFlushed sourceId s"

text \<open>One round of the worker of the backend queue.\<close>

definition loop_round :: "env \<Rightarrow> player \<Rightarrow> player" where
  "loop_round e s =
     (case queueMessages s of
        [] \<Rightarrow> s
      | msg # rest \<Rightarrow> handle_message e msg (s\<lparr>queueMessages := rest\<rparr>))"

text \<open>
  \<open>stopStreaming\<close>: \<open>stop\<close> of the backend queue refuses new messages and lets the worker handle
  the queued ones, then each puller is stopped in the same way.
\<close>

fun drain_messages :: "env \<Rightarrow> client_message list \<Rightarrow> player \<Rightarrow> player" where
  "drain_messages e [] s = s"
| "drain_messages e (msg # msgs) s = drain_messages e msgs (handle_message e msg s)"

definition stop_puller :: "env \<Rightarrow> int \<Rightarrow> player \<Rightarrow> player" where
  "stop_puller e k s =
     (case find_key (m_attachedSources s) k of
        None \<Rightarrow> s
      | Some src \<Rightarrow>
          edit_source k (\<lambda>a. a\<lparr>m_bufferPuller := (m_bufferPuller a)\<lparr>p_running := False, p_queue := []\<rparr>\<rparr>)
            (drain_puller e (p_parser (m_bufferPuller src)) (m_delegate src) (p_queue (m_bufferPuller src)) s))"

definition stopStreaming :: "env \<Rightarrow> player \<Rightarrow> player" where
  "stopStreaming e s =
     (if \<not> m_streamingStopped s
      then (let s1 = (if queueRunning s
                      then (drain_messages e (queueMessages s) (s\<lparr>queueAccepting := False, queueMessages := []\<rparr>))
                             \<lparr>queueRunning := False\<rparr>
                      else s);
                s2 = fold (stop_puller e) (keys (m_attachedSources s1)) s1
            in s2\<lparr>m_streamingStopped := True\<rparr>)
      else s)"

definition destroyClientBackend :: "player \<Rightarrow> player" where
  "destroyClientBackend s = s\<lparr>m_clientBackend := False, m_backendCreated := False\<rparr>"

end
