(* ===== verification/Client_Inv.thy ===== *)
theory Client_Inv
  imports Media_Player_Client
begin

text \<open>
  Invariants of \<open>GStreamerMSEMediaPlayerClient\<close>, for every sequence of calls of its methods,
  notifications of the server and rounds of its worker threads.

  \<^item> \<open>keys_inv\<close>: a source id is attached at most once and every attached source has an entry in the
    flush synchronizer.
  \<^item> \<open>proto_inv\<close>: the order of the commands on the session: \<open>allSourcesAttached\<close> is sent at most
    once, and no play or pause command precedes it.
\<close>

section \<open>Frames\<close>

lemma upd_delegate_frame [simp, frame]:
  "m_attachedSources (upd_delegate h f s) = m_attachedSources s"
  "m_flushAndDataSynchronizer (upd_delegate h f s) = m_flushAndDataSynchronizer s"
  "calls (upd_delegate h f s) = calls s" "m_clientState (upd_delegate h f s) = m_clientState s"
  "m_serverPlaybackState (upd_delegate h f s) = m_serverPlaybackState s"
  "m_wasAllSourcesAttachedSent (upd_delegate h f s) = m_wasAllSourcesAttachedSent s"
  "queueMessages (upd_delegate h f s) = queueMessages s"
  "queueRunning (upd_delegate h f s) = queueRunning s"
  "queueAccepting (upd_delegate h f s) = queueAccepting s"
  "m_clientBackend (upd_delegate h f s) = m_clientBackend s"
  by (simp_all add: upd_delegate_def)

lemma call_frame [simp, frame]:
  "m_attachedSources (call b s) = m_attachedSources s"
  "m_flushAndDataSynchronizer (call b s) = m_flushAndDataSynchronizer s"
  "calls (call b s) = calls s @ [b]" "m_clientState (call b s) = m_clientState s"
  "m_serverPlaybackState (call b s) = m_serverPlaybackState s"
  "m_wasAllSourcesAttachedSent (call b s) = m_wasAllSourcesAttachedSent s"
  "queueMessages (call b s) = queueMessages s" "delegates (call b s) = delegates s"
  "queueRunning (call b s) = queueRunning s" "queueAccepting (call b s) = queueAccepting s"
  "m_clientBackend (call b s) = m_clientBackend s"
  by (simp_all add: call_def)

lemma post_frame [simp, frame]:
  "m_attachedSources (post m s) = m_attachedSources s"
  "m_flushAndDataSynchronizer (post m s) = m_flushAndDataSynchronizer s"
  "calls (post m s) = calls s" "m_clientState (post m s) = m_clientState s"
  "m_serverPlaybackState (post m s) = m_serverPlaybackState s"
  "m_wasAllSourcesAttachedSent (post m s) = m_wasAllSourcesAttachedSent s"
  "delegates (post m s) = delegates s"
  "queueRunning (post m s) = queueRunning s" "queueAccepting (post m s) = queueAccepting s"
  "m_clientBackend (post m s) = m_clientBackend s"
  by (simp_all add: post_def)

lemma post_queue: "set (queueMessages (post m s)) \<subseteq> insert m (set (queueMessages s))"
  by (auto simp: post_def)

lemma edit_sync_frame [simp, frame]:
  "m_attachedSources (edit_sync f s) = m_attachedSources s"
  "m_flushAndDataSynchronizer (edit_sync f s) = f (m_flushAndDataSynchronizer s)"
  "calls (edit_sync f s) = calls s" "m_clientState (edit_sync f s) = m_clientState s"
  "m_serverPlaybackState (edit_sync f s) = m_serverPlaybackState s"
  "m_wasAllSourcesAttachedSent (edit_sync f s) = m_wasAllSourcesAttachedSent s"
  "queueMessages (edit_sync f s) = queueMessages s" "delegates (edit_sync f s) = delegates s"
  "queueRunning (edit_sync f s) = queueRunning s" "queueAccepting (edit_sync f s) = queueAccepting s"
  "m_clientBackend (edit_sync f s) = m_clientBackend s"
  by (simp_all add: edit_sync_def)

lemma edit_source_frame [simp, frame]:
  "m_attachedSources (edit_source k g s) = edit_key k g (m_attachedSources s)"
  "m_flushAndDataSynchronizer (edit_source k g s) = m_flushAndDataSynchronizer s"
  "calls (edit_source k g s) = calls s" "m_clientState (edit_source k g s) = m_clientState s"
  "m_serverPlaybackState (edit_source k g s) = m_serverPlaybackState s"
  "m_wasAllSourcesAttachedSent (edit_source k g s) = m_wasAllSourcesAttachedSent s"
  "queueMessages (edit_source k g s) = queueMessages s" "delegates (edit_source k g s) = delegates s"
  "queueRunning (edit_source k g s) = queueRunning s"
  "queueAccepting (edit_source k g s) = queueAccepting s"
  "m_clientBackend (edit_source k g s) = m_clientBackend s"
  by (simp_all add: edit_source_def)

lemma in_loop_cases:
  "P s \<Longrightarrow> (\<And>r t. f s = (r, t) \<Longrightarrow> P t) \<Longrightarrow> P (snd (in_loop d f s))"
  by (cases "f s") (simp add: in_loop_def)

lemma for_delegates_cases:
  assumes "\<And>h t. P t \<Longrightarrow> P (upd_delegate h f t)" and "P s"
  shows "P (for_delegates f s)"
proof -
  have "P (fold (\<lambda>(_, source). upd_delegate (m_delegate source) f) xs s)" for xs
    using assms(2) by (induction xs arbitrary: s) (auto simp: assms(1))
  then show ?thesis by (simp add: for_delegates_def)
qed

lemma for_delegates_frame [simp, frame]:
  "m_attachedSources (for_delegates f s) = m_attachedSources s"
  "m_flushAndDataSynchronizer (for_delegates f s) = m_flushAndDataSynchronizer s"
  "calls (for_delegates f s) = calls s" "m_clientState (for_delegates f s) = m_clientState s"
  "m_serverPlaybackState (for_delegates f s) = m_serverPlaybackState s"
  "m_wasAllSourcesAttachedSent (for_delegates f s) = m_wasAllSourcesAttachedSent s"
  "queueMessages (for_delegates f s) = queueMessages s"
  by (rule for_delegates_cases, simp_all)+

section \<open>A generic induction over the operations\<close>

text \<open>
  Every operation is built from a few primitive changes. A property of states that the
  primitive changes keep is kept by every operation that is built from them; \<open>pull_prop\<close> and \<open>state_prop\<close> name
  those that the nested loops use. \<open>D\<close> is the kind of change to a delegate that the property
  tolerates.
\<close>

locale pull_prop =
  fixes P :: "player \<Rightarrow> bool"
    and D :: "(delegate \<Rightarrow> delegate) \<Rightarrow> bool"
  assumes p_delegate: "D f \<Longrightarrow> P s \<Longrightarrow> P (upd_delegate h f s)"
    and d_pop: "D popSample"
    and p_pushed: "P s \<Longrightarrow> P (edit_sync (notifyDataPushed k) s)"
    and p_have_data: "P s \<Longrightarrow> P (post (HaveDataMessage st k n) s)"
    and p_add_segment: "P s \<Longrightarrow> P (call (B_addSegment n seg ss) s)"
begin

lemma p_pull_loop: "pull_loop e parser msg h n k added s = Some (r, m, t) \<Longrightarrow> P s \<Longrightarrow> P t"
  by (induction e parser msg h n k added s rule: pull_loop.induct)
    (auto simp: Let_def p_delegate d_pop p_add_segment split: if_splits option.splits sum.splits)

lemma p_pull: "handle_PullBufferMessage e parser h msg s = Some t \<Longrightarrow> P s \<Longrightarrow> P t"
  by (auto simp: handle_PullBufferMessage_def Let_def p_have_data p_pushed
      dest: p_pull_loop split: option.splits if_splits)

lemma p_drain_puller: "P s \<Longrightarrow> P (drain_puller e parser h msgs s)"
  by (induction msgs arbitrary: s) (auto split: option.splits dest: p_pull)

end

locale state_prop = pull_prop +
  assumes p_source: "P s \<Longrightarrow> P (edit_source k g s)"
    and d_sink: "D (\<lambda>d. upd_sink (u d) d)"
begin

lemma p_puller_step: "P s \<Longrightarrow> P (puller_step e k s)"
  by (auto simp: puller_step_def Let_def p_source split: option.splits list.splits dest: p_pull)

lemma p_stop_puller: "P s \<Longrightarrow> P (stop_puller e k s)"
  by (auto simp: stop_puller_def p_source p_drain_puller split: option.splits)

lemma p_stop_pullers: "P s \<Longrightarrow> P (fold (stop_puller e) ks s)"
  by (induction ks arbitrary: s) (auto simp: p_stop_puller)

lemma p_set_source_state: "P s \<Longrightarrow> P (set_source_state k st s)"
  by (simp add: set_source_state_def p_source)

lemma p_requestPullBuffer: "P s \<Longrightarrow> P (snd (requestPullBuffer k n i s))"
  by (auto simp: requestPullBuffer_def p_source Let_def split: option.splits prod.splits)

lemma d_messages: "D (handleQos a b)" "D (handleError m c)" "D (upd_sink v)"
  using d_sink d_sink [of "\<lambda>_. v"] by (simp_all add: handleQos_def [abs_def] handleError_def [abs_def])

lemma p_events:
  "P s \<Longrightarrow> P (snd (client_handleQos k a b s))" "P s \<Longrightarrow> P (snd (handleBufferUnderflow k s))"
  "P s \<Longrightarrow> P (snd (handleFirstFrameReceived k s))" "P s \<Longrightarrow> P (snd (handlePlaybackError e k err s))"
  by (auto simp: client_handleQos_def handleBufferUnderflow_def handleFirstFrameReceived_def
      handlePlaybackError_def p_delegate d_messages split: option.splits)

lemma p_for_delegates: "D f \<Longrightarrow> P s \<Longrightarrow> P (for_delegates f s)"
  by (rule for_delegates_cases) (simp_all add: p_delegate)

end

section \<open>Keys\<close>

definition keys_inv :: "player \<Rightarrow> bool" where
  "keys_inv s \<longleftrightarrow> distinct (keys (m_attachedSources s)) \<and> distinct (keys (m_flushAndDataSynchronizer s)) \<and>
     set (keys (m_attachedSources s)) \<subseteq> set (keys (m_flushAndDataSynchronizer s))"

lemma keys_inv_cong:
  "keys (m_attachedSources t) = keys (m_attachedSources s) \<Longrightarrow>
   m_flushAndDataSynchronizer t = m_flushAndDataSynchronizer s \<Longrightarrow> keys_inv t = keys_inv s"
  by (simp add: keys_inv_def)

lemma keys_inv_sync:
  assumes "keys_inv s" "f \<in> {notifyFlushStarted k, notifyFlushCompleted k, notifyDataReceived k, notifyDataPushed k}"
  shows "keys_inv (edit_sync f s)"
proof -
  let ?m = "m_flushAndDataSynchronizer s"
  have "set (keys ?m) \<subseteq> set (keys (f ?m))" "distinct (keys (f ?m))"
    using assms keys_ops [of k ?m] by (auto simp: keys_inv_def)
  with assms(1) show ?thesis by (simp add: keys_inv_def) blast
qed

lemma keys_inv_edit_sync [simp]:
  "keys_inv s \<Longrightarrow> keys_inv (edit_sync (notifyFlushStarted k) s)"
  "keys_inv s \<Longrightarrow> keys_inv (edit_sync (notifyFlushCompleted k) s)"
  "keys_inv s \<Longrightarrow> keys_inv (edit_sync (notifyDataReceived k) s)"
  "keys_inv s \<Longrightarrow> keys_inv (edit_sync (notifyDataPushed k) s)"
  by (rule keys_inv_sync [where k = k], simp_all)+

interpretation keys_state: state_prop keys_inv "\<lambda>_. True"
  by unfold_locales (simp_all, simp_all add: keys_inv_def)

lemma keys_set_source_state [simp]:
  "keys (m_attachedSources (set_source_state k st s)) = keys (m_attachedSources s)"
  "m_flushAndDataSynchronizer (set_source_state k st s) = m_flushAndDataSynchronizer s"
  by (simp_all add: set_source_state_def)

lemma keys_play_in_loop [simp]:
  "keys (m_attachedSources (snd (play_in_loop e k s))) = keys (m_attachedSources s)"
  "m_flushAndDataSynchronizer (snd (play_in_loop e k s)) = m_flushAndDataSynchronizer s"
  by (simp_all add: play_in_loop_def Let_def split: option.splits)

lemma keys_handleStateChanged [simp]:
  "keys (m_attachedSources (handleStateChanged e st h s)) = keys (m_attachedSources s)"
  "m_flushAndDataSynchronizer (handleStateChanged e st h s) = m_flushAndDataSynchronizer s"
  by (simp_all add: handleStateChanged_def Let_def)

lemma keys_notify_sources [simp]:
  "keys (m_attachedSources (notify_sources e st ks s)) = keys (m_attachedSources s)"
  "m_flushAndDataSynchronizer (notify_sources e st ks s) = m_flushAndDataSynchronizer s"
  by (induction ks arbitrary: s) (simp_all add: Let_def split: option.splits)

lemma keys_handlePlaybackStateChange [simp]:
  "keys (m_attachedSources (handlePlaybackStateChange e st s)) = keys (m_attachedSources s)"
  "m_flushAndDataSynchronizer (handlePlaybackStateChange e st s) = m_flushAndDataSynchronizer s"
  by (simp_all add: handlePlaybackStateChange_def Let_def case_prod_beta)

section \<open>The order of the commands\<close>

definition early_states :: "PlaybackState set" where
  "early_states = {PS_PAUSED, PS_PLAYING, PS_END_OF_STREAM}"

text \<open>No play or pause command before \<open>allSourcesAttached\<close>.\<close>

fun no_early :: "backend_call list \<Rightarrow> bool" where
  "no_early [] = True"
| "no_early (b # cs) = (b = B_allSourcesAttached \<or> (b \<noteq> B_play \<and> b \<noteq> B_pause \<and> no_early cs))"

lemma no_early_snoc:
  "no_early (cs @ [b]) \<longleftrightarrow>
     no_early cs \<and> (B_allSourcesAttached \<in> set cs \<or> (b \<noteq> B_play \<and> b \<noteq> B_pause))"
  by (induction cs) auto

lemma no_early_before:
  "no_early (pre @ b # rest) \<Longrightarrow> b = B_play \<or> b = B_pause \<Longrightarrow> B_allSourcesAttached \<in> set pre"
  by (induction pre) auto

definition proto_inv :: "player \<Rightarrow> bool" where
  "proto_inv s \<longleftrightarrow>
     count_list (calls s) B_allSourcesAttached = (if m_wasAllSourcesAttachedSent s then 1 else 0) \<and>
     no_early (calls s) \<and>
     (\<not> m_wasAllSourcesAttachedSent s \<longrightarrow>
        m_clientState s = CS_IDLE \<and> m_serverPlaybackState s \<notin> early_states \<and>
        (\<forall>st \<in> early_states. PlaybackStateMessage st \<notin> set (queueMessages s)))"

lemma count_sent_in: "count_list cs x = Suc n \<Longrightarrow> x \<in> set cs"
  by (metis count_notin nat.distinct(1))

lemma proto_cong:
  assumes "calls t = calls s" "m_wasAllSourcesAttachedSent t = m_wasAllSourcesAttachedSent s"
    "m_clientState t = m_clientState s" "m_serverPlaybackState t = m_serverPlaybackState s"
    "queueMessages t = queueMessages s"
  shows "proto_inv t = proto_inv s"
  by (simp add: proto_inv_def assms)

lemma proto_call:
  "proto_inv s \<Longrightarrow> b \<noteq> B_allSourcesAttached \<Longrightarrow> b \<noteq> B_play \<Longrightarrow> b \<noteq> B_pause \<Longrightarrow> proto_inv (call b s)"
  by (simp add: proto_inv_def no_early_snoc)

lemma proto_post:
  "proto_inv s \<Longrightarrow> (\<And>st. m = PlaybackStateMessage st \<Longrightarrow> st \<in> early_states \<Longrightarrow> m_wasAllSourcesAttachedSent s) \<Longrightarrow>
   proto_inv (post m s)"
  using post_queue [of m s] by (fastforce simp: proto_inv_def)

lemma proto_post_other:
  "proto_inv s \<Longrightarrow> \<forall>st. m \<noteq> PlaybackStateMessage st \<Longrightarrow> proto_inv (post m s)"
  by (auto intro: proto_post)

lemma proto_upd_delegate [simp]: "proto_inv (upd_delegate h f s) = proto_inv s"
  by (rule proto_cong) simp_all

lemma proto_edit_source [simp]: "proto_inv (edit_source k g s) = proto_inv s"
  by (rule proto_cong) simp_all

lemma proto_edit_sync [simp]: "proto_inv (edit_sync f s) = proto_inv s"
  by (rule proto_cong) simp_all

lemma proto_set_source_state [simp]: "proto_inv (set_source_state k st s) = proto_inv s"
  by (simp add: set_source_state_def)

interpretation proto_state: state_prop proto_inv "\<lambda>_. True"
  by unfold_locales (auto simp: proto_call intro: proto_post)

text \<open>A command is sent, or the client enters an active state, only after \<open>allSourcesAttached\<close>.\<close>

lemma proto_command:
  "proto_inv s \<Longrightarrow> m_wasAllSourcesAttachedSent s \<Longrightarrow> b \<noteq> B_allSourcesAttached \<Longrightarrow> proto_inv (call b s)"
  by (auto simp: proto_inv_def no_early_snoc dest: count_sent_in)

lemma proto_clientState:
  "proto_inv s \<Longrightarrow> m_wasAllSourcesAttachedSent s \<Longrightarrow> proto_inv (s\<lparr>m_clientState := st\<rparr>)"
  by (simp add: proto_inv_def)

lemma proto_active:
  "proto_inv s \<Longrightarrow> m_clientState s \<noteq> CS_IDLE \<Longrightarrow> m_wasAllSourcesAttachedSent s"
  "proto_inv s \<Longrightarrow> m_serverPlaybackState s \<in> early_states \<Longrightarrow> m_wasAllSourcesAttachedSent s"
  by (auto simp: proto_inv_def)

lemma sent_set_source_state [simp]:
  "m_wasAllSourcesAttachedSent (set_source_state k st s) = m_wasAllSourcesAttachedSent s"
  "m_clientState (set_source_state k st s) = m_clientState s"
  "m_serverPlaybackState (set_source_state k st s) = m_serverPlaybackState s"
  "calls (set_source_state k st s) = calls s"
  "delegates (set_source_state k st s) = delegates s"
  by (simp_all add: set_source_state_def)

lemma proto_play_in_loop:
  assumes "proto_inv s"
  shows "proto_inv (snd (play_in_loop e k s))"
proof -
  have play: "m_wasAllSourcesAttachedSent s" if "m_clientState s = CS_PAUSED"
    using proto_active(1) [OF assms] that by simp
  have server: "m_wasAllSourcesAttachedSent s"
    if "m_serverPlaybackState s = PS_PLAYING \<or> m_serverPlaybackState s = PS_END_OF_STREAM"
    using proto_active(2) [OF assms] that by (auto simp: early_states_def)
  show ?thesis
    using assms play server
    by (auto simp: play_in_loop_def Let_def split: option.splits
        intro!: proto_clientState proto_command proto_post)
qed

lemma proto_pause_in_loop:
  assumes "proto_inv s"
  shows "proto_inv (snd (pause_in_loop k s))"
proof -
  have active: "m_wasAllSourcesAttachedSent s" if "m_clientState s \<noteq> CS_IDLE"
    using proto_active(1) [OF assms] that by simp
  have server: "m_wasAllSourcesAttachedSent s" if "m_serverPlaybackState s = PS_PAUSED"
    using proto_active(2) [OF assms] that by (auto simp: early_states_def)
  show ?thesis
    using assms active server
    by (auto simp: pause_in_loop_def Let_def split: option.splits
        intro!: proto_clientState proto_command)
qed

lemma proto_handleStateChanged: "proto_inv s \<Longrightarrow> proto_inv (handleStateChanged e st h s)"
  by (simp add: handleStateChanged_def Let_def proto_play_in_loop)

lemma proto_notify_sources: "proto_inv s \<Longrightarrow> proto_inv (notify_sources e st ks s)"
  by (induction ks arbitrary: s) (auto simp: Let_def proto_handleStateChanged split: option.splits)

lemma proto_server_state:
  "proto_inv s \<Longrightarrow> st \<notin> early_states \<or> m_wasAllSourcesAttachedSent s \<Longrightarrow>
   proto_inv (s\<lparr>m_serverPlaybackState := st\<rparr>)"
  by (auto simp: proto_inv_def)

lemma proto_other_updates [simp]:
  "proto_inv (s\<lparr>wasPlayingBeforeEos := b\<rparr>) = proto_inv s"
  "proto_inv (s\<lparr>m_attachedSources := a\<rparr>) = proto_inv s"
  "proto_inv (s\<lparr>m_playbackInfo := i\<rparr>) = proto_inv s"
  "proto_inv (s\<lparr>m_duration := n\<rparr>) = proto_inv s"
  "proto_inv (s\<lparr>m_videoRectangle := r\<rparr>) = proto_inv s"
  "proto_inv (s\<lparr>m_backendCreated := b\<rparr>) = proto_inv s"
  "proto_inv (s\<lparr>queueAccepting := b\<rparr>) = proto_inv s"
  "proto_inv (s\<lparr>queueRunning := b\<rparr>) = proto_inv s"
  "proto_inv (s\<lparr>m_streamingStopped := b\<rparr>) = proto_inv s"
  by (rule proto_cong, simp_all)+

lemma proto_handlePlaybackStateChange:
  assumes "proto_inv s" and "st \<notin> early_states \<or> m_wasAllSourcesAttachedSent s"
  shows "proto_inv (handlePlaybackStateChange e st s)"
proof -
  have "proto_inv (s\<lparr>m_serverPlaybackState := st\<rparr>)"
    using assms by (rule proto_server_state)
  moreover have "m_wasAllSourcesAttachedSent s" if "st = PS_PAUSED \<or> st = PS_PLAYING"
    using assms(2) that by (auto simp: early_states_def)
  ultimately show ?thesis
    by (auto simp: handlePlaybackStateChange_def Let_def
        intro!: proto_notify_sources proto_clientState proto_state.p_for_delegates)
qed

lemma proto_sendAllSourcesAttached:
  assumes "proto_inv s"
  shows "proto_inv (sendAllSourcesAttachedIfPossibleInternal s)"
proof (cases "m_wasAllSourcesAttachedSent s \<or> \<not> areAllStreamsAttached s")
  case False
  let ?s1 = "(call B_allSourcesAttached s)\<lparr>m_wasAllSourcesAttachedSent := True, m_clientState := CS_READY\<rparr>"
  have "proto_inv ?s1"
    using assms False by (auto simp: proto_inv_def no_early_snoc)
  then have "proto_inv ((call B_pause ?s1)\<lparr>m_clientState := CS_AWAITING_PAUSED\<rparr>)"
    by (simp add: proto_clientState proto_command)
  with False \<open>proto_inv ?s1\<close> show ?thesis
    by (simp add: sendAllSourcesAttachedIfPossibleInternal_def Let_def)
qed (use assms in \<open>auto simp: sendAllSourcesAttachedIfPossibleInternal_def\<close>)

lemma proto_attachSource: "proto_inv s \<Longrightarrow> proto_inv (snd (attachSource_in_loop e src h s))"
  by (auto simp: attachSource_in_loop_def Let_def split: option.splits
      intro!: proto_sendAllSourcesAttached proto_call)

lemma proto_removeSource: "proto_inv s \<Longrightarrow> proto_inv (removeSource_in_loop e k s)"
  by (auto simp: removeSource_in_loop_def Let_def split: option.splits
      intro!: proto_state.p_drain_puller proto_call)

lemma proto_flush_in_loop: "proto_inv s \<Longrightarrow> proto_inv (flush_in_loop e k r s)"
proof -
  assume p: "proto_inv s"
  have "m_wasAllSourcesAttachedSent s" if "m_clientState s = CS_PLAYING \<or> m_clientState s = CS_PAUSED"
    using proto_active(1) [OF p] that by auto
  with p show ?thesis
    by (auto simp: flush_in_loop_def Let_def split: option.splits prod.splits
        intro!: proto_clientState proto_call)
qed

section \<open>All operations\<close>

text \<open>
  What can happen to a client: the methods that the delegates call, the notifications of the
  server, the rounds of its worker threads, and changes that a delegate makes to itself.
\<close>

datatype playback_op =
    O_createBackend env | O_play env int | O_pause int | O_stop | O_setPlaybackRate real
  | O_flush env int bool | O_setSourcePosition env int int bool real u64 | O_setSubtitleOffset int int
  | O_processAudioGap int u32 int bool | O_renderFrame env int

datatype source_op =
    O_attachSource env MediaSource nat | O_removeSource env int | O_sendAllSourcesAttached
  | O_handleStreamCollection int int int | O_switchSource env MediaSource

datatype property_op =
    O_setVolume real u32 EaseType | O_setMute bool int | O_setTextTrackIdentifier string
  | O_setVideoRectangle string | O_setImmediateOutput env int bool | O_setLowLatency env bool
  | O_setSync env bool | O_setSyncOff env bool | O_setStreamSyncMode env int int
  | O_setBufferingLimit u32 | O_setUseBuffering bool

datatype notification =
    O_notifyPlaybackState PlaybackState | O_notifyNeedMediaData int nat u32
  | O_notifyQos int u64 u64 | O_notifyBufferUnderflow int | O_notifyFirstFrameReceived int
  | O_notifyPlaybackError int PlaybackError | O_notifySourceFlushed int | O_notifyPosition int
  | O_notifyDuration int | O_notifyPlaybackInfo PlaybackInfo | O_notifyDataReceived int

datatype thread_op =
    O_loop_round env | O_puller_step env int | O_stopStreaming env | O_delegate nat "delegate \<Rightarrow> delegate"

datatype client_op = Playback playback_op | Sources source_op | Property property_op
  | Notify notification | Thread thread_op

fun playback_exec :: "playback_op \<Rightarrow> player \<Rightarrow> player" where
  "playback_exec (O_createBackend e) s = snd (createBackend e s)"
| "playback_exec (O_play e k) s = snd (play e k s)"
| "playback_exec (O_pause k) s = snd (pause k s)"
| "playback_exec O_stop s = stop s"
| "playback_exec (O_setPlaybackRate r) s = setPlaybackRate r s"
| "playback_exec (O_flush e k r) s = flush e k r s"
| "playback_exec (O_setSourcePosition e k p r a q) s = setSourcePosition e k p r a q s"
| "playback_exec (O_setSubtitleOffset k p) s = setSubtitleOffset k p s"
| "playback_exec (O_processAudioGap p d g a) s = processAudioGap p d g a s"
| "playback_exec (O_renderFrame e k) s = snd (renderFrame e k s)"

fun source_exec :: "source_op \<Rightarrow> player \<Rightarrow> player" where
  "source_exec (O_attachSource e src h) s = snd (attachSource e src h s)"
| "source_exec (O_removeSource e k) s = removeSource e k s"
| "source_exec O_sendAllSourcesAttached s = sendAllSourcesAttachedIfPossible s"
| "source_exec (O_handleStreamCollection a v t) s = handleStreamCollection a v t s"
| "source_exec (O_switchSource e src) s = snd (switchSource e src s)"

fun property_exec :: "property_op \<Rightarrow> player \<Rightarrow> player" where
  "property_exec (O_setVolume v d t) s = setVolume v d t s"
| "property_exec (O_setMute b k) s = setMute b k s"
| "property_exec (O_setTextTrackIdentifier i) s = setTextTrackIdentifier i s"
| "property_exec (O_setVideoRectangle r) s = setVideoRectangle r s"
| "property_exec (O_setImmediateOutput e k b) s = snd (setImmediateOutput e k b s)"
| "property_exec (O_setLowLatency e b) s = snd (setLowLatency e b s)"
| "property_exec (O_setSync e b) s = snd (setSync e b s)"
| "property_exec (O_setSyncOff e b) s = snd (setSyncOff e b s)"
| "property_exec (O_setStreamSyncMode e k m) s = snd (setStreamSyncMode e k m s)"
| "property_exec (O_setBufferingLimit l) s = setBufferingLimit l s"
| "property_exec (O_setUseBuffering b) s = setUseBuffering b s"

fun notify_exec :: "notification \<Rightarrow> player \<Rightarrow> player" where
  "notify_exec (O_notifyPlaybackState st) s = notifyPlaybackState st s"
| "notify_exec (O_notifyNeedMediaData k n i) s = notifyNeedMediaData k n i s"
| "notify_exec (O_notifyQos k a b) s = notifyQos k a b s"
| "notify_exec (O_notifyBufferUnderflow k) s = notifyBufferUnderflow k s"
| "notify_exec (O_notifyFirstFrameReceived k) s = notifyFirstFrameReceived k s"
| "notify_exec (O_notifyPlaybackError k err) s = notifyPlaybackError k err s"
| "notify_exec (O_notifySourceFlushed k) s = notifySourceFlushed k s"
| "notify_exec (O_notifyPosition p) s = notifyPosition p s"
| "notify_exec (O_notifyDuration d) s = notifyDuration d s"
| "notify_exec (O_notifyPlaybackInfo i) s = notifyPlaybackInfo i s"
| "notify_exec (O_notifyDataReceived k) s = edit_sync (notifyDataReceived k) s"

fun thread_exec :: "thread_op \<Rightarrow> player \<Rightarrow> player" where
  "thread_exec (O_loop_round e) s = loop_round e s"
| "thread_exec (O_puller_step e k) s = puller_step e k s"
| "thread_exec (O_stopStreaming e) s = stopStreaming e s"
| "thread_exec (O_delegate h f) s = upd_delegate h f s"

fun client_exec :: "client_op \<Rightarrow> player \<Rightarrow> player" where
  "client_exec (Playback op) s = playback_exec op s"
| "client_exec (Sources op) s = source_exec op s"
| "client_exec (Property op) s = property_exec op s"
| "client_exec (Notify op) s = notify_exec op s"
| "client_exec (Thread op) s = thread_exec op s"

lemmas client_op_defs =
  createBackend_def play_def pause_def stop_def setPlaybackRate_def flush_def setSourcePosition_def
  setSubtitleOffset_def processAudioGap_def attachSource_def removeSource_def
  sendAllSourcesAttachedIfPossible_def handleStreamCollection_def switchSource_def renderFrame_def
  setVolume_def setMute_def setTextTrackIdentifier_def setVideoRectangle_def setImmediateOutput_def
  setLowLatency_def setSync_def setSyncOff_def setStreamSyncMode_def setBufferingLimit_def
  setUseBuffering_def backend_set_def notifyPlaybackState_def notifyNeedMediaData_def notifyQos_def
  notifyBufferUnderflow_def notifyFirstFrameReceived_def notifyPlaybackError_def
  notifySourceFlushed_def notifyPosition_def notifyDuration_def notifyPlaybackInfo_def

subsection \<open>Keys\<close>

lemma keys_inv_updates [simp]:
  "keys_inv (s\<lparr>wasPlayingBeforeEos := b\<rparr>) = keys_inv s"
  "keys_inv (s\<lparr>m_playbackInfo := i\<rparr>) = keys_inv s"
  "keys_inv (s\<lparr>m_duration := n\<rparr>) = keys_inv s"
  "keys_inv (s\<lparr>m_videoRectangle := r\<rparr>) = keys_inv s"
  "keys_inv (s\<lparr>m_backendCreated := b\<rparr>) = keys_inv s"
  "keys_inv (s\<lparr>m_clientState := c\<rparr>) = keys_inv s"
  "keys_inv (s\<lparr>m_wasAllSourcesAttachedSent := b\<rparr>) = keys_inv s"
  "keys_inv (s\<lparr>queueAccepting := b\<rparr>) = keys_inv s"
  "keys_inv (s\<lparr>queueRunning := b\<rparr>) = keys_inv s"
  "keys_inv (s\<lparr>queueMessages := q\<rparr>) = keys_inv s"
  "keys_inv (s\<lparr>m_streamingStopped := b\<rparr>) = keys_inv s"
  "keys_inv (s\<lparr>m_audioStreams := i1\<rparr>) = keys_inv s"
  "keys_inv (s\<lparr>m_videoStreams := i2\<rparr>) = keys_inv s"
  "keys_inv (s\<lparr>m_subtitleStreams := i3\<rparr>) = keys_inv s"
  "keys_inv (call c1 s) = keys_inv s" "keys_inv (post m s) = keys_inv s"
  "keys_inv (upd_delegate h f s) = keys_inv s" "keys_inv (edit_source k g s) = keys_inv s"
  by (rule keys_inv_cong, simp_all)+

lemma keys_inv_play_pause [simp]:
  "keys_inv (snd (play_in_loop e k s)) = keys_inv s"
  "keys_inv (snd (pause_in_loop k s)) = keys_inv s"
  "keys_inv (handlePlaybackStateChange e st s) = keys_inv s"
  "keys_inv (flush_in_loop e k r s) = keys_inv s"
  "keys_inv (sendAllSourcesAttachedIfPossibleInternal s) = keys_inv s"
  by (rule keys_inv_cong;
      simp add: pause_in_loop_def flush_in_loop_def sendAllSourcesAttachedIfPossibleInternal_def Let_def
        split: option.splits prod.splits)+

lemma keys_inv_removeSource_in_loop:
  assumes "keys_inv s"
  shows "keys_inv (removeSource_in_loop e k s)"
proof -
  have *: "keys_inv (edit_sync (Flush_Data_Sync.removeSource k) (t\<lparr>m_attachedSources := erase_key k (m_attachedSources t)\<rparr>))"
    if "keys_inv t" for t
    using that keys_ops(2) [of k "m_flushAndDataSynchronizer t"] by (auto simp: keys_inv_def)
  show ?thesis
    unfolding removeSource_in_loop_def Let_def
    by (rule *) (auto simp: assms keys_state.p_drain_puller split: option.splits)
qed

lemma keys_inv_attachSource_in_loop:
  assumes "keys_inv s"
  shows "keys_inv (snd (attachSource_in_loop e src h s))"
proof -
  have "keys_inv (edit_sync (addSource sid) (upd_delegate h f
      ((call b s)\<lparr>m_attachedSources := m_attachedSources s @ [(sid, a)]\<rparr>)))"
    if "find_key (m_attachedSources s) sid = None" for sid f a b
    using assms that keys_ops(1) [of sid "m_flushAndDataSynchronizer s"]
    by (auto simp: keys_inv_def map_of_eq_None_iff)
  with assms show ?thesis
    by (auto simp: attachSource_in_loop_def Let_def split: option.splits)
qed

lemma keys_inv_map_sources [simp]:
  "keys_inv (s\<lparr>m_attachedSources := map (\<lambda>(k, a). (k, g a)) (m_attachedSources s)\<rparr>) = keys_inv s"
  by (rule keys_inv_cong) (simp_all add: case_prod_beta)

lemma keys_inv_handleSourceFlushed: "keys_inv s \<Longrightarrow> keys_inv (handleSourceFlushed k s)"
  by (simp add: handleSourceFlushed_def split: option.splits)

text \<open>A pull request that cannot be queued is answered by an error.\<close>

lemma need_data_cases:
  assumes "\<And>t. t = snd (requestPullBuffer k n i s) \<Longrightarrow> P t"
    and "\<And>t. P t \<Longrightarrow> P (post (HaveDataMessage MSS_ERROR k i) t)"
  shows "P (handle_message e (NeedDataMessage k n i) s)"
  using assms by (cases "requestPullBuffer k n i s") (auto split: bool.splits)

lemma keys_inv_handle_message: "keys_inv s \<Longrightarrow> keys_inv (handle_message e m s)"
proof (cases m)
  case (NeedDataMessage k n i)
  assume s: "keys_inv s"
  show ?thesis
    unfolding NeedDataMessage
    by (rule need_data_cases [where P = keys_inv]) (simp_all add: s keys_state.p_requestPullBuffer)
qed (simp_all add: keys_state.p_events keys_inv_handleSourceFlushed)

lemma keys_inv_drain_messages: "keys_inv s \<Longrightarrow> keys_inv (drain_messages e ms s)"
  by (induction ms arbitrary: s) (simp_all add: keys_inv_handle_message)

lemma keys_inv_stopStreaming: "keys_inv s \<Longrightarrow> keys_inv (stopStreaming e s)"
  by (simp add: stopStreaming_def Let_def keys_state.p_stop_pullers keys_inv_drain_messages)

lemma keys_inv_loop_round: "keys_inv s \<Longrightarrow> keys_inv (loop_round e s)"
  by (simp add: loop_round_def keys_inv_handle_message split: list.splits)

lemma keys_inv_exec: "keys_inv s \<Longrightarrow> keys_inv (client_exec op s)"
proof (cases op)
  case (Playback p)
  assume "keys_inv s"
  then show ?thesis
    unfolding Playback
    by (cases p) (simp_all add: client_op_defs in_loop_def Let_def split: option.splits)
next
  case (Sources p)
  assume "keys_inv s"
  then show ?thesis
    unfolding Sources
    by (cases p) (simp_all add: client_op_defs in_loop_def keys_inv_removeSource_in_loop
        keys_inv_attachSource_in_loop)
next
  case (Property p)
  assume "keys_inv s"
  then show ?thesis
    unfolding Property
    by (cases p) (simp_all add: client_op_defs in_loop_def split: option.splits)
next
  case (Notify p)
  assume "keys_inv s"
  then show ?thesis unfolding Notify by (cases p) (simp_all add: client_op_defs)
next
  case (Thread p)
  assume "keys_inv s"
  then show ?thesis
    unfolding Thread
    by (cases p) (simp_all add: keys_inv_stopStreaming keys_inv_loop_round keys_state.p_puller_step)
qed

interpretation client_keys: operation_system client_exec keys_inv
  by unfold_locales (rule keys_inv_exec)

subsection \<open>The order of the commands\<close>

text \<open>The server reports PAUSED, PLAYING or END\_OF\_STREAM only for a session whose sources are
  attached.\<close>

fun op_allowed :: "player \<Rightarrow> client_op \<Rightarrow> bool" where
  "op_allowed s (Notify (O_notifyPlaybackState st)) = (st \<in> early_states \<longrightarrow> m_wasAllSourcesAttachedSent s)"
| "op_allowed s op = True"

definition client_step :: "player \<Rightarrow> player \<Rightarrow> bool" where
  "client_step s t \<longleftrightarrow> (\<exists>op. op_allowed s op \<and> t = client_exec op s)"

definition client_start :: "player \<Rightarrow> bool" where
  "client_start s \<longleftrightarrow> (\<exists>w h live ds.
     s = client.extend (GStreamerMSEMediaPlayerClient w h live) \<lparr>delegates = ds\<rparr>)"

lemma proto_handle_message:
  assumes "proto_inv s" and "\<And>st. m = PlaybackStateMessage st \<Longrightarrow> st \<in> early_states \<Longrightarrow> m_wasAllSourcesAttachedSent s"
  shows "proto_inv (handle_message e m s)"
proof (cases m)
  case (NeedDataMessage k n i)
  show ?thesis
    unfolding NeedDataMessage
    by (rule need_data_cases [where P = proto_inv])
      (auto simp: assms(1) proto_state.p_requestPullBuffer intro: proto_post)
next
  case (PlaybackStateMessage st)
  then show ?thesis
    using assms by (auto intro: proto_handlePlaybackStateChange)
next
  case (SourceFlushedMessage k)
  then show ?thesis
    using assms(1) by (simp add: handleSourceFlushed_def split: option.splits)
qed (use assms(1) in \<open>simp_all add: proto_state.p_events proto_call\<close>)

lemma proto_head:
  "proto_inv s \<Longrightarrow> PlaybackStateMessage st \<in> set (queueMessages s) \<Longrightarrow> st \<in> early_states \<Longrightarrow>
   m_wasAllSourcesAttachedSent s"
  by (auto simp: proto_inv_def)

lemma proto_queue_subset:
  "proto_inv s \<Longrightarrow> set q \<subseteq> set (queueMessages s) \<Longrightarrow> proto_inv (s\<lparr>queueMessages := q\<rparr>)"
  by (auto simp: proto_inv_def)

lemma proto_loop_round: "proto_inv s \<Longrightarrow> proto_inv (loop_round e s)"
  by (auto simp: loop_round_def split: list.splits intro!: proto_handle_message proto_queue_subset
      dest: proto_head)

text \<open>No message handler attaches sources.\<close>

lemma sent_play_in_loop [simp]:
  "m_wasAllSourcesAttachedSent (snd (play_in_loop e k s)) = m_wasAllSourcesAttachedSent s"
  by (simp add: play_in_loop_def Let_def split: option.splits)

lemma sent_notify_sources [simp]:
  "m_wasAllSourcesAttachedSent (notify_sources e st ks s) = m_wasAllSourcesAttachedSent s"
  by (induction ks arbitrary: s)
    (simp_all add: Let_def handleStateChanged_def split: option.splits)

lemma sent_handlePlaybackStateChange [simp]:
  "m_wasAllSourcesAttachedSent (handlePlaybackStateChange e st s) = m_wasAllSourcesAttachedSent s"
  by (simp add: handlePlaybackStateChange_def Let_def)

lemma sent_handle_message [simp]:
  "m_wasAllSourcesAttachedSent (handle_message e m s) = m_wasAllSourcesAttachedSent s"
proof (cases m)
  case (NeedDataMessage k n i)
  show ?thesis
    unfolding NeedDataMessage
    by (rule need_data_cases [where P = "\<lambda>t. m_wasAllSourcesAttachedSent t = m_wasAllSourcesAttachedSent s"])
      (simp_all add: requestPullBuffer_def Let_def split: option.splits prod.splits)
qed (simp_all add: client_handleQos_def handleBufferUnderflow_def handleFirstFrameReceived_def
    handlePlaybackError_def handleSourceFlushed_def split: option.splits)

lemma proto_drain_messages:
  "proto_inv s \<Longrightarrow>
   (\<And>st. PlaybackStateMessage st \<in> set ms \<Longrightarrow> st \<in> early_states \<Longrightarrow> m_wasAllSourcesAttachedSent s) \<Longrightarrow>
   proto_inv (drain_messages e ms s)"
proof (induction ms arbitrary: s)
  case (Cons m ms)
  have "proto_inv (handle_message e m s)"
    by (rule proto_handle_message) (use Cons.prems in auto)
  moreover have "m_wasAllSourcesAttachedSent s"
    if "PlaybackStateMessage st \<in> set ms" "st \<in> early_states" for st
    using Cons.prems(2) [of st] that by simp
  ultimately show ?case by (simp add: Cons.IH)
qed simp

lemma proto_stopStreaming:
  assumes "proto_inv s"
  shows "proto_inv (stopStreaming e s)"
proof -
  have "proto_inv (drain_messages e (queueMessages s) (s\<lparr>queueAccepting := False, queueMessages := []\<rparr>))"
    by (rule proto_drain_messages) (use assms in \<open>auto intro: proto_queue_subset dest: proto_head\<close>)
  with assms show ?thesis
    by (simp add: stopStreaming_def Let_def proto_state.p_stop_pullers)
qed

lemma proto_streams [simp]:
  "proto_inv (s\<lparr>m_audioStreams := a, m_videoStreams := v, m_subtitleStreams := t\<rparr>) = proto_inv s"
  by (rule proto_cong) simp_all

lemma proto_playback_exec: "proto_inv s \<Longrightarrow> proto_inv (playback_exec op s)"
  by (cases op)
    (simp_all add: client_op_defs in_loop_def Let_def proto_call proto_play_in_loop proto_pause_in_loop
       proto_flush_in_loop split: option.splits)

lemma proto_source_exec: "proto_inv s \<Longrightarrow> proto_inv (source_exec op s)"
  by (cases op)
    (simp_all add: client_op_defs in_loop_def proto_call proto_attachSource proto_removeSource
       proto_sendAllSourcesAttached)

lemma proto_property_exec: "proto_inv s \<Longrightarrow> proto_inv (property_exec op s)"
  by (cases op) (simp_all add: client_op_defs in_loop_def proto_call split: option.splits)

lemma proto_notify_exec: "proto_inv s \<Longrightarrow> op_allowed s (Notify op) \<Longrightarrow> proto_inv (notify_exec op s)"
  by (cases op) (auto simp: client_op_defs intro: proto_post)

lemma proto_thread_exec: "proto_inv s \<Longrightarrow> proto_inv (thread_exec op s)"
  by (cases op) (simp_all add: proto_loop_round proto_stopStreaming proto_state.p_puller_step)

lemma proto_exec: "proto_inv s \<Longrightarrow> op_allowed s op \<Longrightarrow> proto_inv (client_exec op s)"
  by (cases op)
    (simp_all add: proto_playback_exec proto_source_exec proto_property_exec proto_notify_exec
       proto_thread_exec)

lemma proto_start: "client_start s \<Longrightarrow> proto_inv s"
  by (auto simp: client_start_def client.defs GStreamerMSEMediaPlayerClient_def proto_inv_def early_states_def)

lemma keys_start: "client_start s \<Longrightarrow> keys_inv s"
  by (auto simp: client_start_def client.defs GStreamerMSEMediaPlayerClient_def keys_inv_def)

interpretation client_runs: invariant_system client_start client_step "\<lambda>s. keys_inv s \<and> proto_inv s"
  by unfold_locales
    (auto simp: client_step_def proto_start keys_start keys_inv_exec proto_exec)

end
