(* ===== verification/Client_Frame.thy ===== *)
theory Client_Frame
  imports Client_Inv
begin

text \<open>
  What the operations of \<open>GStreamerMSEMediaPlayerClient\<close> leave alone. No method, message handler or
  puller changes the manager of a delegate, and none but \<open>createBackend\<close>, \<open>stopStreaming\<close> and
  \<open>destroyClientBackend\<close> changes the life cycle of the client: whether its queue runs and accepts
  messages, whether its backend exists and whether streaming was stopped. And whatever the server
  reports, the sources are announced at most once.
\<close>

definition manager_of :: "player \<Rightarrow> nat \<Rightarrow> manager" where
  "manager_of s h = m_mediaPlayerManager (delegates s h)"

definition life :: "player \<Rightarrow> bool \<times> bool \<times> bool \<times> bool \<times> bool" where
  "life s = (queueRunning s, queueAccepting s, m_clientBackend s, m_backendCreated s, m_streamingStopped s)"

definition shell :: "player \<Rightarrow> (nat \<Rightarrow> manager) \<times> bool \<times> bool \<times> bool \<times> bool \<times> bool" where
  "shell s = (manager_of s, life s)"

definition keeps_manager :: "(delegate \<Rightarrow> delegate) \<Rightarrow> bool" where
  "keeps_manager f \<longleftrightarrow> (\<forall>d. m_mediaPlayerManager (f d) = m_mediaPlayerManager d)"

lemma shell_upd_delegate [simp]: "keeps_manager f \<Longrightarrow> shell (upd_delegate h f s) = shell s"
  by (auto simp: shell_def life_def manager_of_def upd_delegate_def keeps_manager_def fun_eq_iff)

lemma keeps_manager_methods [simp]:
  "keeps_manager popSample" "keeps_manager (\<lambda>d. upd_sink (u d) d)" "keeps_manager (upd_sink v)"
  "keeps_manager postAsyncStart" "keeps_manager postAsyncDone" "keeps_manager commitState"
  "keeps_manager (lostState e)" "keeps_manager handleFlushCompleted" "keeps_manager handleEos"
  "keeps_manager (handleError m c)" "keeps_manager (handleQos a b)" "keeps_manager (setSourceId k)"
  by (auto simp: keeps_manager_def popSample_def upd_sink_def postAsyncStart_def postAsyncDone_def
      commitState_def lostState_def handleFlushCompleted_def handleEos_def handleError_def handleQos_def
      setSourceId_def Let_def split: list.splits)

lemma shell_primitives [simp]:
  "shell (call b s) = shell s" "shell (post m s) = shell s" "shell (edit_source k g s) = shell s"
  "shell (edit_sync f s) = shell s" "shell (set_source_state k st s) = shell s"
  by (simp_all add: shell_def life_def manager_of_def [abs_def] call_def post_def edit_source_def
      edit_sync_def set_source_state_def)

lemma shell_updates [simp]:
  "shell (s\<lparr>m_clientState := c\<rparr>) = shell s" "shell (s\<lparr>m_serverPlaybackState := p\<rparr>) = shell s"
  "shell (s\<lparr>wasPlayingBeforeEos := b\<rparr>) = shell s" "shell (s\<lparr>m_attachedSources := xs\<rparr>) = shell s"
  "shell (s\<lparr>m_playbackInfo := i\<rparr>) = shell s" "shell (s\<lparr>m_duration := d\<rparr>) = shell s"
  "shell (s\<lparr>m_videoRectangle := r\<rparr>) = shell s" "shell (s\<lparr>queueMessages := q\<rparr>) = shell s"
  "shell (s\<lparr>m_wasAllSourcesAttachedSent := b\<rparr>) = shell s" "shell (s\<lparr>m_audioStreams := n\<rparr>) = shell s"
  "shell (s\<lparr>m_videoStreams := n\<rparr>) = shell s" "shell (s\<lparr>m_subtitleStreams := n\<rparr>) = shell s"
  by (simp_all add: shell_def life_def manager_of_def [abs_def])

interpretation shell_state: state_prop "\<lambda>t. shell t = a" keeps_manager
  by unfold_locales simp_all

lemmas shell_loops [simp] =
  shell_state.p_drain_puller [OF refl] shell_state.p_puller_step [OF refl]
  shell_state.p_stop_pullers [OF refl] shell_state.p_requestPullBuffer [OF refl]
  shell_state.p_events [OF refl] shell_state.p_for_delegates [OF _ refl]

section \<open>The operations\<close>

lemma shell_play_pause [simp]:
  "shell (snd (play_in_loop e k s)) = shell s" "shell (snd (pause_in_loop k s)) = shell s"
  by (simp_all add: play_in_loop_def pause_in_loop_def Let_def split: option.splits)

lemma shell_notify_sources [simp]: "shell (notify_sources e st ks s) = shell s"
  by (induction ks arbitrary: s) (simp_all add: Let_def handleStateChanged_def split: option.splits)

lemma shell_state_change [simp]: "shell (handlePlaybackStateChange e st s) = shell s"
  by (simp add: handlePlaybackStateChange_def Let_def)

lemma shell_sources [simp]:
  "shell (sendAllSourcesAttachedIfPossibleInternal s) = shell s"
  "shell (snd (attachSource_in_loop e src h s)) = shell s"
  "shell (removeSource_in_loop e k s) = shell s" "shell (flush_in_loop e k r s) = shell s"
  "shell (handleSourceFlushed k s) = shell s"
  by (simp_all add: sendAllSourcesAttachedIfPossibleInternal_def attachSource_in_loop_def
      removeSource_in_loop_def flush_in_loop_def handleSourceFlushed_def Let_def
      split: option.splits prod.splits)

lemma shell_handle_message [simp]: "shell (handle_message e m s) = shell s"
proof (cases m)
  case (NeedDataMessage k n i)
  show ?thesis
    unfolding NeedDataMessage by (rule need_data_cases [where P = "\<lambda>t. shell t = shell s"]) simp_all
qed simp_all

lemma shell_drain_messages [simp]: "shell (drain_messages e ms s) = shell s"
  by (induction ms arbitrary: s) simp_all

lemma shell_loop_round [simp]: "shell (loop_round e s) = shell s"
  by (simp add: loop_round_def split: list.splits)

text \<open>The operations that a session can see while it is in use.\<close>

fun ordinary :: "client_op \<Rightarrow> bool" where
  "ordinary (Playback (O_createBackend e)) = False"
| "ordinary (Thread (O_stopStreaming e)) = False"
| "ordinary (Thread (O_delegate h f)) = keeps_manager f"
| "ordinary op = True"

lemma shell_playback_exec: "ordinary (Playback op) \<Longrightarrow> shell (playback_exec op s) = shell s"
  by (cases op) (simp_all add: client_op_defs in_loop_def Let_def split: option.splits)

lemma shell_source_exec: "shell (source_exec op s) = shell s"
  by (cases op) (simp_all add: client_op_defs in_loop_def)

lemma shell_property_exec: "shell (property_exec op s) = shell s"
  by (cases op) (simp_all add: client_op_defs in_loop_def split: option.splits)

lemma shell_notify_exec: "shell (notify_exec op s) = shell s"
  by (cases op) (simp_all add: client_op_defs)

lemma shell_thread_exec: "ordinary (Thread op) \<Longrightarrow> shell (thread_exec op s) = shell s"
  by (cases op) simp_all

theorem shell_exec: "ordinary op \<Longrightarrow> shell (client_exec op s) = shell s"
  by (cases op)
    (simp_all add: shell_playback_exec shell_source_exec shell_property_exec shell_notify_exec
       shell_thread_exec)

text \<open>The life cycle operations keep the managers.\<close>

lemma life_cycle:
  "manager_of (stopStreaming e s) = manager_of s" "manager_of (destroyClientBackend s) = manager_of s"
  "manager_of (snd (createBackend e s)) = manager_of s" "shell (stop s) = shell s"
proof -
  have m: "manager_of (s\<lparr>queueAccepting := a, queueMessages := q\<rparr>) = manager_of s"
    "manager_of (s\<lparr>queueRunning := r\<rparr>) = manager_of s" "manager_of (s\<lparr>m_streamingStopped := x\<rparr>) = manager_of s"
    "manager_of (call b s) = manager_of s"
    for s :: player and a q r x b by (simp_all add: manager_of_def [abs_def] call_def)
  have fold: "manager_of t = manager_of s" if "shell t = shell s" for s t using that by (simp add: shell_def)
  show "manager_of (stopStreaming e s) = manager_of s"
    by (simp add: stopStreaming_def Let_def m fold [OF shell_loops(3)] fold [OF shell_drain_messages])
  show "manager_of (destroyClientBackend s) = manager_of s"
    by (simp add: destroyClientBackend_def manager_of_def [abs_def])
  show "manager_of (snd (createBackend e s)) = manager_of s"
    by (simp add: createBackend_def in_loop_def Let_def m) (simp add: manager_of_def [abs_def])
  show "shell (stop s) = shell s" by (simp add: stop_def in_loop_def)
qed

section \<open>The announcement of the sources\<close>

text \<open>\<open>allSourcesAttached\<close> is sent at most once, and the flag says whether. Only
  \<open>sendAllSourcesAttachedIfPossibleInternal\<close> touches either; this does not depend on the server.\<close>

definition tally :: "player \<Rightarrow> nat \<times> bool" where
  "tally s = (count_list (calls s) B_allSourcesAttached, m_wasAllSourcesAttachedSent s)"

definition sent_once :: "player \<Rightarrow> bool" where
  "sent_once s \<longleftrightarrow> count_list (calls s) B_allSourcesAttached = (if m_wasAllSourcesAttachedSent s then 1 else 0)"

lemma sent_once_tally: "tally t = tally s \<Longrightarrow> sent_once t = sent_once s"
  by (simp add: tally_def sent_once_def)

lemma tally_primitives [simp]:
  "b \<noteq> B_allSourcesAttached \<Longrightarrow> tally (call b s) = tally s" "tally (post m s) = tally s"
  "tally (edit_source k g s) = tally s" "tally (edit_sync f s) = tally s"
  "tally (set_source_state k st s) = tally s" "tally (upd_delegate h d s) = tally s"
  by (simp_all add: tally_def)

lemma tally_updates [simp]:
  "tally (s\<lparr>m_clientState := c\<rparr>) = tally s" "tally (s\<lparr>m_serverPlaybackState := p\<rparr>) = tally s"
  "tally (s\<lparr>wasPlayingBeforeEos := b\<rparr>) = tally s" "tally (s\<lparr>m_attachedSources := xs\<rparr>) = tally s"
  "tally (s\<lparr>m_playbackInfo := i\<rparr>) = tally s" "tally (s\<lparr>m_duration := d\<rparr>) = tally s"
  "tally (s\<lparr>m_videoRectangle := r\<rparr>) = tally s" "tally (s\<lparr>queueMessages := q\<rparr>) = tally s"
  "tally (s\<lparr>m_audioStreams := n\<rparr>) = tally s" "tally (s\<lparr>m_videoStreams := n\<rparr>) = tally s"
  "tally (s\<lparr>m_subtitleStreams := n\<rparr>) = tally s" "tally (s\<lparr>m_backendCreated := b\<rparr>) = tally s"
  by (simp_all add: tally_def)

interpretation tally_state: state_prop "\<lambda>t. tally t = a" "\<lambda>_. True"
  by unfold_locales simp_all

lemmas tally_loops [simp] =
  tally_state.p_drain_puller [OF refl] tally_state.p_puller_step [OF refl]
  tally_state.p_requestPullBuffer [OF refl] tally_state.p_events [OF refl] tally_state.p_for_delegates [OF _ refl, simplified]

lemma tally_play_pause [simp]:
  "tally (snd (play_in_loop e k s)) = tally s" "tally (snd (pause_in_loop k s)) = tally s"
  by (simp_all add: play_in_loop_def pause_in_loop_def Let_def split: option.splits)

lemma tally_notify_sources [simp]: "tally (notify_sources e st ks s) = tally s"
  by (induction ks arbitrary: s) (simp_all add: Let_def handleStateChanged_def split: option.splits)

lemma tally_handlers [simp]:
  "tally (handlePlaybackStateChange e st s) = tally s" "tally (removeSource_in_loop e k s) = tally s"
  "tally (flush_in_loop e k r s) = tally s" "tally (handleSourceFlushed k s) = tally s"
  by (simp_all add: handlePlaybackStateChange_def removeSource_in_loop_def flush_in_loop_def
      handleSourceFlushed_def Let_def split: option.splits prod.splits)

lemma tally_handle_message [simp]: "tally (handle_message e m s) = tally s"
proof (cases m)
  case (NeedDataMessage k n i)
  show ?thesis
    unfolding NeedDataMessage by (rule need_data_cases [where P = "\<lambda>t. tally t = tally s"]) simp_all
qed simp_all

lemma tally_loop_round [simp]: "tally (loop_round e s) = tally s"
  by (simp add: loop_round_def split: list.splits)

lemma tally_playback_exec: "tally (playback_exec op s) = tally s"
  by (cases op) (simp_all add: client_op_defs in_loop_def Let_def split: option.splits)

lemma tally_property_exec: "tally (property_exec op s) = tally s"
  by (cases op) (simp_all add: client_op_defs in_loop_def split: option.splits)

lemma tally_notify_exec: "tally (notify_exec op s) = tally s"
  by (cases op) (simp_all add: client_op_defs)

lemma sent_once_announce: "sent_once s \<Longrightarrow> sent_once (sendAllSourcesAttachedIfPossibleInternal s)"
  by (simp add: sendAllSourcesAttachedIfPossibleInternal_def sent_once_def Let_def)

lemma sent_once_source_exec:
  assumes "sent_once s"
  shows "sent_once (source_exec op s)"
proof -
  have keep: "sent_once t" if "tally t = tally s" for t using sent_once_tally [OF that] assms by simp
  then have "sent_once (sendAllSourcesAttachedIfPossibleInternal t)" if "tally t = tally s" for t
    using sent_once_announce that by blast
  with keep show ?thesis
    by (cases op) (simp_all add: client_op_defs in_loop_def attachSource_in_loop_def Let_def assms split: option.splits)
qed

lemma tally_thread_exec: "ordinary (Thread op) \<Longrightarrow> tally (thread_exec op s) = tally s"
  by (cases op) simp_all

theorem sent_once_exec: "ordinary op \<Longrightarrow> sent_once s \<Longrightarrow> sent_once (client_exec op s)"
proof (cases op)
  case (Sources p)
  assume "sent_once s"
  with Sources show ?thesis by (simp add: sent_once_source_exec)
next
  case (Playback p)
  assume "sent_once s"
  with Playback sent_once_tally [OF tally_playback_exec] show ?thesis by simp
next
  case (Property p)
  assume "sent_once s"
  with Property sent_once_tally [OF tally_property_exec] show ?thesis by simp
next
  case (Notify p)
  assume "sent_once s"
  with Notify sent_once_tally [OF tally_notify_exec] show ?thesis by simp
next
  case (Thread p)
  assume "sent_once s" "ordinary op"
  with Thread sent_once_tally [OF tally_thread_exec] show ?thesis by simp
qed

lemma sent_once_created: "client_start s \<Longrightarrow> createBackend e s = (ok, t) \<Longrightarrow> sent_once t"
proof -
  assume s: "client_start s" "createBackend e s = (ok, t)"
  have "sent_once s"
    using s(1) by (auto simp: client_start_def client.defs GStreamerMSEMediaPlayerClient_def sent_once_def)
  moreover have "t = playback_exec (O_createBackend e) s" using s(2) by simp
  ultimately show ?thesis
    using sent_once_tally [OF tally_playback_exec, of "O_createBackend e" s] by simp
qed

end
