(* ===== verification/Client_Playback.thy ===== *)
theory Client_Playback
  imports Client_Inv
begin

text \<open>
  Playback control of \<open>GStreamerMSEMediaPlayerClient\<close>: how the state changes that the sinks
  request one by one become single commands to the server, and how the answer of the server
  completes the state change of every sink.
\<close>

section \<open>States of the sources\<close>

definition source_st :: "player \<Rightarrow> int \<Rightarrow> ClientState option" where
  "source_st s k = map_option m_state (find_key (m_attachedSources s) k)"

text \<open>The handle of the delegate of a source.\<close>

definition handle_of :: "player \<Rightarrow> int \<Rightarrow> nat option" where
  "handle_of s k = map_option m_delegate (find_key (m_attachedSources s) k)"

lemma check_states_iff:
  "distinct (keys (m_attachedSources s)) \<Longrightarrow>
   checkIfAllAttachedSourcesInStates states s \<longleftrightarrow> (\<forall>k st. source_st s k = Some st \<longrightarrow> st \<in> set states)"
  by (auto simp: checkIfAllAttachedSourcesInStates_def list_all_lookup source_st_def)

lemma source_st_frame [simp]:
  "source_st (call b s) = source_st s" "source_st (upd_delegate h f s) = source_st s"
  "source_st (post m s) = source_st s" "source_st (s\<lparr>m_clientState := c\<rparr>) = source_st s"
  "handle_of (call b s) = handle_of s" "handle_of (upd_delegate h f s) = handle_of s"
  "handle_of (post m s) = handle_of s" "handle_of (s\<lparr>m_clientState := c\<rparr>) = handle_of s"
  "source_st (s\<lparr>m_serverPlaybackState := p\<rparr>) = source_st s"
  "handle_of (s\<lparr>m_serverPlaybackState := p\<rparr>) = handle_of s"
  "source_st (s\<lparr>wasPlayingBeforeEos := w\<rparr>) = source_st s"
  "handle_of (s\<lparr>wasPlayingBeforeEos := w\<rparr>) = handle_of s"
  by (simp_all add: source_st_def handle_of_def fun_eq_iff)

lemma source_st_set [simp]:
  "source_st (set_source_state k st s) j = (if j = k \<and> source_st s k \<noteq> None then Some st else source_st s j)"
  by (auto simp: source_st_def set_source_state_def)

lemma handle_of_set [simp]: "handle_of (set_source_state k st s) = handle_of s"
  by (auto simp: handle_of_def set_source_state_def fun_eq_iff option.map_comp o_def)

lemma attached_iff: "(find_key (m_attachedSources s) k = None) = (source_st s k = None)"
  "(k \<in> set (keys (m_attachedSources s))) = (source_st s k \<noteq> None)"
  unfolding source_st_def in_set_keys_conv by auto

lemma delegates_upd_delegate [simp]:
  "delegates (upd_delegate h f s) = (delegates s)(h := f (delegates s h))"
  by (simp add: upd_delegate_def)

text \<open>The part of the state that the event loop needs to run calls.\<close>

definition live :: "player \<Rightarrow> bool" where
  "live s \<longleftrightarrow> queueRunning s \<and> queueAccepting s \<and> distinct (keys (m_attachedSources s))"

lemma live_frame [simp]:
  "live (call b s) = live s" "live (upd_delegate h f s) = live s" "live (post m s) = live s"
  "live (s\<lparr>m_clientState := c\<rparr>) = live s" "live (set_source_state k st s) = live s"
  by (simp_all add: live_def set_source_state_def)

lemma live_in_loop: "live s \<Longrightarrow> in_loop d f s = f s"
  by (simp add: in_loop_def live_def)

section \<open>Pausing every source\<close>

text \<open>The delegates whose sink waits for an asynchronous state change.\<close>

definition waiting :: "player \<Rightarrow> int \<Rightarrow> bool" where
  "waiting s k \<longleftrightarrow> (\<forall>h. handle_of s k = Some h \<longrightarrow> m_isStateCommitNeeded (delegates s h))"

definition sink_of :: "player \<Rightarrow> nat \<Rightarrow> GstElement" where
  "sink_of s h = m_sink (delegates s h)"

definition same_sinks :: "player \<Rightarrow> player \<Rightarrow> bool" where
  "same_sinks s t \<longleftrightarrow> (\<forall>h. GST_STATE (sink_of t h) = GST_STATE (sink_of s h) \<and>
     GST_STATE_NEXT (sink_of t h) = GST_STATE_NEXT (sink_of s h) \<and>
     GST_STATE_PENDING (sink_of t h) = GST_STATE_PENDING (sink_of s h) \<and>
     (m_isStateCommitNeeded (delegates s h) \<longrightarrow> m_isStateCommitNeeded (delegates t h)))"

lemma same_sinks_refl [simp]: "same_sinks s s"
  by (simp add: same_sinks_def)

lemma same_sinks_trans: "same_sinks s t \<Longrightarrow> same_sinks t u \<Longrightarrow> same_sinks s u"
  by (simp add: same_sinks_def)

lemma same_sinks_postAsyncStart: "same_sinks s (upd_delegate h postAsyncStart t)" if "same_sinks s t"
  using that by (auto simp: same_sinks_def sink_of_def upd_delegate_def postAsyncStart_def upd_sink_def)

section \<open>Requests of all sources and the one command\<close>

text \<open>
  The sinks of a pipeline change their state one after the other, in an order that GStreamer
  chooses. The contract of a request (\<open>pause\<close> of a client in READY, \<open>play\<close> of a client in
  PAUSED) that does not make all sources agree: the source awaits the new state, its sink waits for
  the completion and nothing is sent. The command goes to the server with the request that does.
\<close>

locale early_request =
  fixes req :: "int \<Rightarrow> player \<Rightarrow> player"
    and ready :: "player \<Rightarrow> bool"
    and await :: ClientState
    and agree :: "ClientState set"
  assumes early_effect: "live s \<Longrightarrow> source_st s k \<noteq> None \<Longrightarrow> ready s \<Longrightarrow>
      j \<noteq> k \<Longrightarrow> source_st s j = Some st \<Longrightarrow> st \<notin> agree \<Longrightarrow>
      live (req k s) \<and> source_st (req k s) = (source_st s)(k \<mapsto> await) \<and>
      handle_of (req k s) = handle_of s \<and> same_sinks s (req k s) \<and> waiting (req k s) k \<and>
      (\<forall>h. handle_of s k \<noteq> Some h \<longrightarrow> delegates (req k s) h = delegates s h) \<and>
      m_serverPlaybackState (req k s) = m_serverPlaybackState s \<and>
      queueMessages (req k s) = queueMessages s \<and> ready (req k s) \<and> calls (req k s) = calls s"
    and await_agrees: "await \<in> agree"
begin

lemma waiting_kept: "waiting s k \<Longrightarrow> handle_of t = handle_of s \<Longrightarrow> same_sinks s t \<Longrightarrow> waiting t k"
  by (simp add: waiting_def same_sinks_def)

lemma requests_of_some:
  assumes "live s" "ready s" "distinct ks" "\<forall>k \<in> set ks. source_st s k \<noteq> None"
    and "j \<notin> set ks" "source_st s j = Some st" "st \<notin> agree"
  shows "let t = fold req ks s in
    live t \<and> ready t \<and> calls t = calls s \<and> handle_of t = handle_of s \<and> same_sinks s t \<and>
    m_serverPlaybackState t = m_serverPlaybackState s \<and> queueMessages t = queueMessages s \<and>
    source_st t = (\<lambda>k. if k \<in> set ks then Some await else source_st s k) \<and> (\<forall>k \<in> set ks. waiting t k) \<and>
    (\<forall>h. (\<forall>k \<in> set ks. handle_of s k \<noteq> Some h) \<longrightarrow> delegates t h = delegates s h)"
  using assms
proof (induction ks arbitrary: s)
  case (Cons k ks)
  let ?s = "req k s"
  have eff: "live ?s" "ready ?s" "calls ?s = calls s" "handle_of ?s = handle_of s" "same_sinks s ?s"
    "waiting ?s k" "m_serverPlaybackState ?s = m_serverPlaybackState s" "queueMessages ?s = queueMessages s"
    "source_st ?s = (source_st s)(k \<mapsto> await)"
    "\<forall>h. handle_of s k \<noteq> Some h \<longrightarrow> delegates ?s h = delegates s h"
    using early_effect [of s k j st] Cons.prems by auto
  have "let t = fold req ks ?s in
    live t \<and> ready t \<and> calls t = calls ?s \<and> handle_of t = handle_of ?s \<and> same_sinks ?s t \<and>
    m_serverPlaybackState t = m_serverPlaybackState ?s \<and> queueMessages t = queueMessages ?s \<and>
    source_st t = (\<lambda>k. if k \<in> set ks then Some await else source_st ?s k) \<and> (\<forall>k \<in> set ks. waiting t k) \<and>
    (\<forall>h. (\<forall>k \<in> set ks. handle_of ?s k \<noteq> Some h) \<longrightarrow> delegates t h = delegates ?s h)"
    by (rule Cons.IH) (use eff Cons.prems in auto)
  then show ?case
    using eff by (auto simp: Let_def fun_eq_iff intro: same_sinks_trans waiting_kept)
qed (simp add: Let_def)

text \<open>The state before the last request: every other source agrees.\<close>

lemma requests_but_last:
  assumes "live s" "ready s" "distinct ks" "set ks = {k. source_st s k \<noteq> None}" "ks \<noteq> []"
    and fresh: "\<forall>k st. source_st s k = Some st \<longrightarrow> st \<notin> agree"
  shows "let t = fold req (butlast ks) s in
    live t \<and> ready t \<and> calls t = calls s \<and> handle_of t = handle_of s \<and> same_sinks s t \<and>
    m_serverPlaybackState t = m_serverPlaybackState s \<and> queueMessages t = queueMessages s \<and>
    source_st t = (\<lambda>k. if k \<in> set (butlast ks) then Some await else source_st s k) \<and>
    (\<forall>k \<in> set (butlast ks). waiting t k) \<and>
    (\<forall>h. (\<forall>k \<in> set (butlast ks). handle_of s k \<noteq> Some h) \<longrightarrow> delegates t h = delegates s h) \<and>
    source_st t (last ks) \<noteq> None \<and>
    (\<forall>j st. j \<noteq> last ks \<longrightarrow> source_st t j = Some st \<longrightarrow> st \<in> agree)"
proof -
  obtain xs k where ks: "ks = xs @ [k]" using assms(5) by (metis rev_exhaust)
  obtain st where st: "source_st s k = Some st" using assms(4) ks by auto
  have all: "j \<in> set xs \<or> j = k \<longleftrightarrow> source_st s j \<noteq> None" for j
    using assms(4) ks by auto
  have "let t = fold req xs s in
    live t \<and> ready t \<and> calls t = calls s \<and> handle_of t = handle_of s \<and> same_sinks s t \<and>
    m_serverPlaybackState t = m_serverPlaybackState s \<and> queueMessages t = queueMessages s \<and>
    source_st t = (\<lambda>k. if k \<in> set xs then Some await else source_st s k) \<and> (\<forall>k \<in> set xs. waiting t k) \<and>
    (\<forall>h. (\<forall>k \<in> set xs. handle_of s k \<noteq> Some h) \<longrightarrow> delegates t h = delegates s h)"
    by (rule requests_of_some [of s xs k st]) (use assms ks st all fresh in auto)
  then show ?thesis
    using st assms(3) all await_agrees by (auto simp: Let_def ks)
qed

end

locale joint_request = early_request +
  fixes cmd :: backend_call
  assumes last_effect: "live s \<Longrightarrow> source_st s k \<noteq> None \<Longrightarrow> ready s \<Longrightarrow>
      \<forall>j st. j \<noteq> k \<longrightarrow> source_st s j = Some st \<longrightarrow> st \<in> agree \<Longrightarrow>
      live (req k s) \<and> source_st (req k s) = (source_st s)(k \<mapsto> await) \<and>
      handle_of (req k s) = handle_of s \<and> same_sinks s (req k s) \<and> waiting (req k s) k \<and>
      m_serverPlaybackState (req k s) = m_serverPlaybackState s \<and> queueMessages (req k s) = queueMessages s \<and>
      m_clientState (req k s) = await \<and> calls (req k s) = calls s @ [cmd]"
begin

lemma requests_of_all:
  assumes "live s" "ready s" "distinct ks" "set ks = {k. source_st s k \<noteq> None}" "ks \<noteq> []"
    and fresh: "\<forall>k st. source_st s k = Some st \<longrightarrow> st \<notin> agree"
  shows "let t = fold req ks s in
    live t \<and> m_clientState t = await \<and> calls t = calls s @ [cmd] \<and> handle_of t = handle_of s \<and>
    same_sinks s t \<and> m_serverPlaybackState t = m_serverPlaybackState s \<and> queueMessages t = queueMessages s \<and>
    source_st t = (\<lambda>k. if source_st s k = None then None else Some await) \<and>
    (\<forall>k \<in> set ks. waiting t k)"
proof -
  let ?u = "fold req (butlast ks) s"
  have ks: "fold req ks s = req (last ks) ?u" "set ks = insert (last ks) (set (butlast ks))"
    using assms(5) by (cases ks rule: rev_cases; simp)+
  have some: "live ?u" "ready ?u" "calls ?u = calls s" "handle_of ?u = handle_of s" "same_sinks s ?u"
    "m_serverPlaybackState ?u = m_serverPlaybackState s" "queueMessages ?u = queueMessages s"
    "source_st ?u = (\<lambda>k. if k \<in> set (butlast ks) then Some await else source_st s k)"
    "\<forall>k \<in> set (butlast ks). waiting ?u k" "source_st ?u (last ks) \<noteq> None"
    "\<forall>j st. j \<noteq> last ks \<longrightarrow> source_st ?u j = Some st \<longrightarrow> st \<in> agree"
    using requests_but_last [OF assms] by (auto simp: Let_def)
  note last = last_effect [OF some(1,10,2,11)]
  have all: "j \<in> set (butlast ks) \<or> j = last ks \<longleftrightarrow> source_st s j \<noteq> None" for j
    using assms(4) ks(2) by auto
  have "source_st (req (last ks) ?u) = (\<lambda>k. if source_st s k = None then None else Some await)"
    using last some(8) all by (fastforce simp: fun_eq_iff)
  with last some show ?thesis
    unfolding ks Let_def by (auto intro: same_sinks_trans waiting_kept)
qed

end

text \<open>\<open>pause\<close> of a client in READY.\<close>

definition pause_one :: "int \<Rightarrow> player \<Rightarrow> player" where
  "pause_one k s = snd (pause k s)"

definition can_pause :: "player \<Rightarrow> bool" where
  "can_pause s \<longleftrightarrow> m_clientState s = CS_READY \<and> m_serverPlaybackState s \<noteq> PS_PAUSED"

text \<open>\<open>play\<close> of a client in PAUSED. The server may start to play at once (\<open>be_play_async\<close> is false); then
  the last request is answered as done, and the client posts the message for the other sources itself.\<close>

definition play_one :: "env \<Rightarrow> int \<Rightarrow> player \<Rightarrow> player" where
  "play_one e k s = snd (play e k s)"

definition can_play :: "player \<Rightarrow> bool" where
  "can_play s \<longleftrightarrow> m_clientState s = CS_PAUSED \<and>
     m_serverPlaybackState s \<noteq> PS_PLAYING \<and> m_serverPlaybackState s \<noteq> PS_END_OF_STREAM"

lemma check_after_set:
  assumes "live s" "source_st s k \<noteq> None" "st \<in> set states"
  shows "checkIfAllAttachedSourcesInStates states (set_source_state k st s) \<longleftrightarrow>
    (\<forall>j st. j \<noteq> k \<longrightarrow> source_st s j = Some st \<longrightarrow> st \<in> set states)"
proof -
  have "distinct (keys (m_attachedSources (set_source_state k st s)))"
    using assms(1) by (simp add: live_def)
  from check_states_iff [OF this, of states] show ?thesis
    using assms(2,3) by auto
qed

lemma waiting_after_postAsyncStart:
  "handle_of s k = Some h \<Longrightarrow> waiting (upd_delegate h postAsyncStart s) k"
  by (simp add: waiting_def postAsyncStart_def upd_sink_def)

lemma same_sinks_call: "same_sinks s (set_source_state k st s)"
  "same_sinks s ((call b (set_source_state k st s))\<lparr>m_clientState := c\<rparr>)"
  by (simp_all add: same_sinks_def sink_of_def)

text \<open>The state that a request leaves, apart from the delegate of its source.\<close>

definition awaits :: "int \<Rightarrow> ClientState \<Rightarrow> ClientState list \<Rightarrow> backend_call \<Rightarrow> player \<Rightarrow> player" where
  "awaits k st agree cmd s =
     (let s1 = set_source_state k st s
      in if checkIfAllAttachedSourcesInStates agree s1 then (call cmd s1)\<lparr>m_clientState := st\<rparr> else s1)"

lemma awaits_frame [simp]:
  "live (awaits k st agree cmd s) = live s" "handle_of (awaits k st agree cmd s) = handle_of s"
  "delegates (awaits k st agree cmd s) = delegates s" "queueMessages (awaits k st agree cmd s) = queueMessages s"
  "m_serverPlaybackState (awaits k st agree cmd s) = m_serverPlaybackState s"
  "source_st s k \<noteq> None \<Longrightarrow> source_st (awaits k st agree cmd s) = (source_st s)(k \<mapsto> st)"
  by (auto simp: awaits_def Let_def set_source_state_def [of k st s, THEN arg_cong, of queueMessages] fun_eq_iff)

lemma awaits_cases:
  assumes "live s" "source_st s k \<noteq> None" "st \<in> set agree"
  shows "(\<forall>j x. j \<noteq> k \<longrightarrow> source_st s j = Some x \<longrightarrow> x \<in> set agree) \<Longrightarrow>
      m_clientState (awaits k st agree cmd s) = st \<and> calls (awaits k st agree cmd s) = calls s @ [cmd]"
    "j \<noteq> k \<Longrightarrow> source_st s j = Some x \<Longrightarrow> x \<notin> set agree \<Longrightarrow>
      m_clientState (awaits k st agree cmd s) = m_clientState s \<and> calls (awaits k st agree cmd s) = calls s"
  using check_after_set [OF assms] by (auto simp: awaits_def Let_def)

lemma posted_start:
  assumes "handle_of s k = Some h" "t = upd_delegate h postAsyncStart (awaits k st agree cmd s)"
  shows "same_sinks s t" "waiting t k" "\<forall>j. handle_of s k \<noteq> Some j \<longrightarrow> delegates t j = delegates s j"
proof -
  have "same_sinks s (awaits k st agree cmd s)" by (simp add: same_sinks_def sink_of_def)
  then show "same_sinks s t" unfolding assms(2) by (rule same_sinks_postAsyncStart)
  show "waiting t k" unfolding assms(2) using assms(1) by (intro waiting_after_postAsyncStart) simp
  show "\<forall>j. handle_of s k \<noteq> Some j \<longrightarrow> delegates t j = delegates s j" using assms by simp
qed

lemma pause_one_eq:
  assumes "live s" "source_st s k \<noteq> None" "can_pause s"
  obtains h where "handle_of s k = Some h"
    "pause_one k s = upd_delegate h postAsyncStart (awaits k CS_AWAITING_PAUSED [CS_AWAITING_PAUSED] B_pause s)"
proof -
  obtain src where src: "find_key (m_attachedSources s) k = Some src"
    using assms(2) by (auto simp: source_st_def)
  have "pause_one k s = upd_delegate (m_delegate src) postAsyncStart
      (awaits k CS_AWAITING_PAUSED [CS_AWAITING_PAUSED] B_pause s)"
    using assms src by (simp add: pause_one_def pause_def live_in_loop pause_in_loop_def Let_def can_pause_def awaits_def)
  with that [of "m_delegate src"] src show thesis by (simp add: handle_of_def)
qed

text \<open>A play request, asynchronous unless it is the last one and the server plays at once.\<close>

lemma play_eq:
  assumes "live s" "source_st s k \<noteq> None" "can_play s"
  defines "s2 \<equiv> awaits k CS_AWAITING_PLAYING [CS_AWAITING_PLAYING, CS_PLAYING] B_play s"
  obtains h where "handle_of s k = Some h"
    "be_play_async e \<or> calls s2 = calls s \<Longrightarrow> play e k s = (SUCCESS_ASYNC, upd_delegate h postAsyncStart s2)"
    "\<not> be_play_async e \<Longrightarrow> calls s2 \<noteq> calls s \<Longrightarrow> play e k s = (SUCCESS_SYNC, post (PlaybackStateMessage PS_PLAYING) s2)"
proof -
  obtain src where src: "find_key (m_attachedSources s) k = Some src"
    using assms(2) by (auto simp: source_st_def)
  let ?c = "checkIfAllAttachedSourcesInStates [CS_AWAITING_PLAYING, CS_PLAYING] (set_source_state k CS_AWAITING_PLAYING s)"
  have c: "calls s2 \<noteq> calls s \<longleftrightarrow> ?c" by (simp add: s2_def awaits_def Let_def)
  have p: "play e k s = (if \<not> ?c \<or> be_play_async e then (SUCCESS_ASYNC, upd_delegate (m_delegate src) postAsyncStart s2)
      else (SUCCESS_SYNC, post (PlaybackStateMessage PS_PLAYING) s2))"
    using assms(1-3) src
    by (simp add: play_def live_in_loop play_in_loop_def Let_def can_play_def s2_def awaits_def)
  show thesis
    by (rule that [of "m_delegate src"]) (use src p c in \<open>auto simp: handle_of_def\<close>)
qed

interpretation pausing: joint_request pause_one can_pause CS_AWAITING_PAUSED "{CS_AWAITING_PAUSED}" B_pause
proof
  let ?a = "\<lambda>k. awaits k CS_AWAITING_PAUSED [CS_AWAITING_PAUSED] B_pause"
  show "live (pause_one k s) \<and> source_st (pause_one k s) = (source_st s)(k \<mapsto> CS_AWAITING_PAUSED) \<and>
      handle_of (pause_one k s) = handle_of s \<and> same_sinks s (pause_one k s) \<and> waiting (pause_one k s) k \<and>
      (\<forall>h. handle_of s k \<noteq> Some h \<longrightarrow> delegates (pause_one k s) h = delegates s h) \<and>
      m_serverPlaybackState (pause_one k s) = m_serverPlaybackState s \<and>
      queueMessages (pause_one k s) = queueMessages s \<and> can_pause (pause_one k s) \<and> calls (pause_one k s) = calls s"
    if s: "live s" "source_st s k \<noteq> None" "can_pause s"
      and j: "j \<noteq> k" "source_st s j = Some st" "st \<notin> {CS_AWAITING_PAUSED}" for s k j st
  proof -
    obtain h where h: "handle_of s k = Some h" "pause_one k s = upd_delegate h postAsyncStart (?a k s)"
      by (rule pause_one_eq [OF s])
    with posted_start [OF h] awaits_cases(2) [OF s(1,2), of CS_AWAITING_PAUSED "[CS_AWAITING_PAUSED]" j st B_pause] s j
    show ?thesis by (simp add: can_pause_def)
  qed
  show "live (pause_one k s) \<and> source_st (pause_one k s) = (source_st s)(k \<mapsto> CS_AWAITING_PAUSED) \<and>
      handle_of (pause_one k s) = handle_of s \<and> same_sinks s (pause_one k s) \<and> waiting (pause_one k s) k \<and>
      m_serverPlaybackState (pause_one k s) = m_serverPlaybackState s \<and> queueMessages (pause_one k s) = queueMessages s \<and>
      m_clientState (pause_one k s) = CS_AWAITING_PAUSED \<and> calls (pause_one k s) = calls s @ [B_pause]"
    if s: "live s" "source_st s k \<noteq> None" "can_pause s"
      and all: "\<forall>j st. j \<noteq> k \<longrightarrow> source_st s j = Some st \<longrightarrow> st \<in> {CS_AWAITING_PAUSED}" for s k
  proof -
    obtain h where h: "handle_of s k = Some h" "pause_one k s = upd_delegate h postAsyncStart (?a k s)"
      by (rule pause_one_eq [OF s])
    with posted_start [OF h] awaits_cases(1) [OF s(1,2), of CS_AWAITING_PAUSED "[CS_AWAITING_PAUSED]" B_pause] s all
    show ?thesis by simp
  qed
qed simp

interpretation playing: early_request "play_one e" can_play CS_AWAITING_PLAYING "{CS_AWAITING_PLAYING, CS_PLAYING}" for e
proof
  let ?a = "\<lambda>k. awaits k CS_AWAITING_PLAYING [CS_AWAITING_PLAYING, CS_PLAYING] B_play"
  show "live (play_one e k s) \<and> source_st (play_one e k s) = (source_st s)(k \<mapsto> CS_AWAITING_PLAYING) \<and>
      handle_of (play_one e k s) = handle_of s \<and> same_sinks s (play_one e k s) \<and> waiting (play_one e k s) k \<and>
      (\<forall>h. handle_of s k \<noteq> Some h \<longrightarrow> delegates (play_one e k s) h = delegates s h) \<and>
      m_serverPlaybackState (play_one e k s) = m_serverPlaybackState s \<and>
      queueMessages (play_one e k s) = queueMessages s \<and> can_play (play_one e k s) \<and> calls (play_one e k s) = calls s"
    if s: "live s" "source_st s k \<noteq> None" "can_play s"
      and j: "j \<noteq> k" "source_st s j = Some st" "st \<notin> {CS_AWAITING_PLAYING, CS_PLAYING}" for s k j st
  proof -
    note c = awaits_cases(2) [OF s(1,2), of CS_AWAITING_PLAYING "[CS_AWAITING_PLAYING, CS_PLAYING]" j st B_play]
    obtain h where h: "handle_of s k = Some h" "play_one e k s = upd_delegate h postAsyncStart (?a k s)"
      using play_eq [OF s, of e] c j unfolding play_one_def by (metis (no_types, lifting) empty_set insert_iff list.simps(15) snd_conv)
    with posted_start [OF h] c s j show ?thesis by (simp add: can_play_def)
  qed
qed simp

section \<open>The answer of the server\<close>

definition awaiting_of :: "PlaybackState \<Rightarrow> ClientState" where
  "awaiting_of st = (if st = PS_PAUSED then CS_AWAITING_PAUSED else CS_AWAITING_PLAYING)"

definition settled_of :: "PlaybackState \<Rightarrow> ClientState" where
  "settled_of st = (if st = PS_PAUSED then CS_PAUSED else CS_PLAYING)"

definition gst_of :: "PlaybackState \<Rightarrow> GstState" where
  "gst_of st = (if st = PS_PAUSED then GST_STATE_PAUSED else GST_STATE_PLAYING)"

lemma commitState_simps [simp]:
  "GST_STATE (m_sink (commitState d)) = GST_STATE_NEXT (m_sink d)"
  "GST_STATE_PENDING (m_sink (commitState d)) = GST_STATE_VOID_PENDING"
  "GST_STATE_RETURN (m_sink (commitState d)) = GST_STATE_CHANGE_SUCCESS"
  "m_isStateCommitNeeded (commitState d) = False"
  "bus (m_sink (commitState d)) = bus (m_sink d) @
     [MSG_STATE_CHANGED (GST_STATE (m_sink d)) (GST_STATE_NEXT (m_sink d)) (GST_STATE_PENDING (m_sink d)),
      MSG_ASYNC_DONE]"
  by (simp_all add: commitState_def Let_def postAsyncDone_def upd_sink_def gst_element_post_message_def)

text \<open>A source that awaits the state that the server reports. Its sink waits for this state, or does
  not wait.\<close>

definition completes :: "PlaybackState \<Rightarrow> player \<Rightarrow> int \<Rightarrow> bool" where
  "completes st s k \<longleftrightarrow> source_st s k = Some (awaiting_of st) \<and>
     (\<forall>h. handle_of s k = Some h \<longrightarrow>
        m_isStateCommitNeeded (delegates s h) \<longrightarrow> GST_STATE_NEXT (sink_of s h) = gst_of st)"

definition commit_if_waiting :: "delegate \<Rightarrow> delegate" where
  "commit_if_waiting d = (if m_isStateCommitNeeded d then commitState d else d)"

lemma upd_delegate_same: "f (delegates s h) = delegates s h \<Longrightarrow> upd_delegate h f s = s"
  for s :: player by (cases s) (simp add: upd_delegate_def)

lemma commit_not_waiting: "\<not> m_isStateCommitNeeded (delegates s h) \<Longrightarrow> upd_delegate h commit_if_waiting s = s"
  for s :: player by (rule upd_delegate_same) (simp add: commit_if_waiting_def)

lemma commit_waiting:
  "m_isStateCommitNeeded (delegates s h) \<Longrightarrow> upd_delegate h commit_if_waiting s = upd_delegate h commitState s"
  for s :: player by (simp add: upd_delegate_def commit_if_waiting_def)

lemma notify_step:
  assumes "st = PS_PAUSED \<or> st = PS_PLAYING" "completes st s k"
  obtains h where "handle_of s k = Some h"
    "notify_sources e st (k # ks) s =
       notify_sources e st ks (upd_delegate h commit_if_waiting (set_source_state k (settled_of st) s))"
proof -
  obtain src where src: "find_key (m_attachedSources s) k = Some src" "m_state src = awaiting_of st"
    using assms(2) by (auto simp: completes_def source_st_def)
  have h: "handle_of s k = Some (m_delegate src)" using src by (simp add: handle_of_def)
  with assms(2) have "m_isStateCommitNeeded (delegates s (m_delegate src)) \<longrightarrow>
      GST_STATE_NEXT (m_sink (delegates s (m_delegate src))) = gst_of st"
    by (auto simp: completes_def sink_of_def)
  then have "notify_sources e st (k # ks) s =
      notify_sources e st ks (upd_delegate (m_delegate src) commit_if_waiting (set_source_state k (settled_of st) s))"
    using assms(1) src
    by (auto simp: Let_def awaiting_of_def settled_of_def gst_of_def handleStateChanged_def commit_waiting
        commit_not_waiting)
  with h show ?thesis using that by blast
qed

lemma notify_all:
  assumes "st = PS_PAUSED \<or> st = PS_PLAYING" "distinct ks" "\<forall>k \<in> set ks. completes st s k"
    and "\<forall>j \<in> set ks. \<forall>k \<in> set ks. handle_of s j = handle_of s k \<longrightarrow> j = k"
  shows "let t = notify_sources e st ks s in
    calls t = calls s \<and> m_clientState t = m_clientState s \<and> handle_of t = handle_of s \<and>
    source_st t = (\<lambda>k. if k \<in> set ks then Some (settled_of st) else source_st s k) \<and>
    (\<forall>k \<in> set ks. \<forall>h. handle_of s k = Some h \<longrightarrow> delegates t h = commit_if_waiting (delegates s h)) \<and>
    (\<forall>h. (\<forall>k \<in> set ks. handle_of s k \<noteq> Some h) \<longrightarrow> delegates t h = delegates s h)"
  using assms(2-)
proof (induction ks arbitrary: s)
  case (Cons k ks)
  obtain h where h: "handle_of s k = Some h"
    and t: "notify_sources e st (k # ks) s =
      notify_sources e st ks (upd_delegate h commit_if_waiting (set_source_state k (settled_of st) s))"
    using notify_step [OF assms(1), of s k] Cons.prems(2) by (metis list.set_intros(1))
  let ?s = "upd_delegate h commit_if_waiting (set_source_state k (settled_of st) s)"
  have other: "handle_of s j \<noteq> Some h" if "j \<in> set ks" for j
    using Cons.prems that h by force
  have "completes st ?s j" if "j \<in> set ks" for j
    using Cons.prems(1,2) that other [OF that]
    by (auto simp: completes_def sink_of_def)
  moreover have "\<forall>i \<in> set ks. \<forall>j \<in> set ks. handle_of ?s i = handle_of ?s j \<longrightarrow> i = j"
    using Cons.prems(3) by simp
  ultimately have IH: "let t = notify_sources e st ks ?s in
    calls t = calls ?s \<and> m_clientState t = m_clientState ?s \<and> handle_of t = handle_of ?s \<and>
    source_st t = (\<lambda>k. if k \<in> set ks then Some (settled_of st) else source_st ?s k) \<and>
    (\<forall>k \<in> set ks. \<forall>h. handle_of ?s k = Some h \<longrightarrow> delegates t h = commit_if_waiting (delegates ?s h)) \<and>
    (\<forall>h. (\<forall>k \<in> set ks. handle_of ?s k \<noteq> Some h) \<longrightarrow> delegates t h = delegates ?s h)"
    using Cons.IH [of ?s] Cons.prems(1) by simp
  have "source_st s k \<noteq> None" using Cons.prems(2) by (auto simp: completes_def)
  with IH other h show ?case
    unfolding t Let_def by (auto simp: fun_eq_iff)
qed (simp add: Let_def)

text \<open>The whole handler, for a client that awaits the reported state.\<close>

lemma handle_awaited_state:
  assumes "st = PS_PAUSED \<or> st = PS_PLAYING" "live s" "m_clientState s = awaiting_of st"
    and "\<forall>k. source_st s k \<noteq> None \<longrightarrow> completes st s k"
    and "\<forall>j k h. handle_of s j = Some h \<and> handle_of s k = Some h \<longrightarrow> j = k"
  shows "let t = handlePlaybackStateChange e st s in
    calls t = calls s \<and> m_clientState t = settled_of st \<and>
    (\<forall>k h. handle_of s k = Some h \<longrightarrow> source_st t k = Some (settled_of st) \<and>
       delegates t h = commit_if_waiting (delegates s h))"
proof -
  let ?ks = "keys (m_attachedSources s)"
  let ?s = "s\<lparr>m_serverPlaybackState := st, wasPlayingBeforeEos := False, m_clientState := settled_of st\<rparr>"
  have t: "handlePlaybackStateChange e st s = notify_sources e st ?ks ?s"
    using assms(1,3) by (auto simp: handlePlaybackStateChange_def Let_def awaiting_of_def settled_of_def)
  have ks: "k \<in> set ?ks \<longleftrightarrow> source_st s k \<noteq> None" for k
    by (simp only: attached_iff(2))
  have same: "source_st ?s = source_st s" "handle_of ?s = handle_of s" "delegates ?s = delegates s"
    by (simp_all add: source_st_def handle_of_def fun_eq_iff)
  have "completes st ?s k" if "k \<in> set ?ks" for k
    using assms(4) that ks by (simp add: completes_def same sink_of_def)
  moreover have "\<forall>j \<in> set ?ks. \<forall>k \<in> set ?ks. handle_of ?s j = handle_of ?s k \<longrightarrow> j = k"
    using assms(5) ks unfolding same by (metis handle_of_def option.map_disc_iff source_st_def not_None_eq)
  ultimately have n: "let t = notify_sources e st ?ks ?s in
    calls t = calls ?s \<and> m_clientState t = m_clientState ?s \<and> handle_of t = handle_of ?s \<and>
    source_st t = (\<lambda>k. if k \<in> set ?ks then Some (settled_of st) else source_st ?s k) \<and>
    (\<forall>k \<in> set ?ks. \<forall>h. handle_of ?s k = Some h \<longrightarrow> delegates t h = commit_if_waiting (delegates ?s h)) \<and>
    (\<forall>h. (\<forall>k \<in> set ?ks. handle_of ?s k \<noteq> Some h) \<longrightarrow> delegates t h = delegates ?s h)"
    using assms(1,2) by (intro notify_all) (auto simp: live_def)
  have "k \<in> set ?ks" if "handle_of s k = Some h" for k h
    using that ks by (auto simp: handle_of_def source_st_def)
  with n show ?thesis unfolding t Let_def same by auto
qed

text \<open>A sink that waits for the reported state has committed it.\<close>

lemma committed:
  assumes "delegates t h = commit_if_waiting (delegates u h)" "m_isStateCommitNeeded (delegates u h)"
    "GST_STATE_NEXT (sink_of u h) = x"
  shows "GST_STATE (sink_of t h) = x \<and> \<not> m_isStateCommitNeeded (delegates t h) \<and> last (bus (sink_of t h)) = MSG_ASYNC_DONE"
  using assms by (simp add: commit_if_waiting_def sink_of_def)

section \<open>A concrete pipeline\<close>

text \<open>An audio and a video source, with sinks that change from \<open>current\<close> to \<open>next\<close>.\<close>

definition demo_delegates :: "GstState \<Rightarrow> GstState \<Rightarrow> nat \<Rightarrow> delegate" where
  "demo_delegates current next h = PullModePlaybackDelegate start_segment
     (if h = 0 then MST_AUDIO else MST_VIDEO) (changing_sink current next) True"

definition demo_player :: "ClientState \<Rightarrow> ClientState \<Rightarrow> PlaybackState \<Rightarrow> GstState \<Rightarrow> GstState \<Rightarrow> player" where
  "demo_player cst sst ps current next =
     (client.extend (GStreamerMSEMediaPlayerClient 0 0 False) \<lparr>delegates = demo_delegates current next\<rparr>)
       \<lparr>m_attachedSources := [(1, (new_source MST_AUDIO 0)\<lparr>m_state := sst\<rparr>),
                              (2, (new_source MST_VIDEO 1)\<lparr>m_state := sst\<rparr>)],
        m_clientState := cst, m_serverPlaybackState := ps\<rparr>"

lemma demo_player_simps [simp]:
  "live (demo_player cst sst ps c n)"
  "source_st (demo_player cst sst ps c n) k = (if k = 1 \<or> k = 2 then Some sst else None)"
  "handle_of (demo_player cst sst ps c n) k = (if k = 1 then Some 0 else if k = 2 then Some 1 else None)"
  "m_clientState (demo_player cst sst ps c n) = cst"
  "m_serverPlaybackState (demo_player cst sst ps c n) = ps"
  "GST_STATE_NEXT (sink_of (demo_player cst sst ps c n) h) = n"
  "calls (demo_player cst sst ps c n) = []"
  by (simp_all add: demo_player_def client.defs GStreamerMSEMediaPlayerClient_def live_def source_st_def
      handle_of_def new_source_def sink_of_def demo_delegates_def PullModePlaybackDelegate_def
      changing_sink_def)

definition demo_audio :: MediaSource where
  "demo_audio = MediaSourceAudio ''audio/mp4'' True default_AudioConfig SA_UNDEFINED SF_RAW None"

definition demo_ops :: "client_op list" where
  "demo_ops = [Playback (O_createBackend good_env), Sources (O_handleStreamCollection 1 0 0),
     Sources (O_attachSource good_env demo_audio 0), Playback (O_pause 1)]"

definition demo_initial :: player where
  "demo_initial = client.extend (GStreamerMSEMediaPlayerClient 0 0 False)
     \<lparr>delegates = demo_delegates GST_STATE_READY GST_STATE_PAUSED\<rparr>"

lemma demo_initial_start: "client_start demo_initial"
  unfolding demo_initial_def client_start_def by blast

lemma client_steps_fold:
  "(\<forall>op \<in> set ops. \<forall>s. op_allowed s op) \<Longrightarrow> client_step\<^sup>*\<^sup>* s (fold client_exec ops s)"
proof (induction ops arbitrary: s)
  case (Cons op ops)
  then have "client_step s (client_exec op s)" by (auto simp: client_step_def)
  with Cons show ?case by (auto intro: converse_rtranclp_into_rtranclp)
qed simp

lemma demo_ops_calls:
  "calls (fold client_exec demo_ops demo_initial) =
     [B_create 3840 2160, B_load False, B_attachSource demo_audio, B_allSourcesAttached, B_pause]"
  "m_attachedSources (fold client_exec demo_ops demo_initial) =
     [(1, (new_source MST_AUDIO 0)\<lparr>m_state := CS_AWAITING_PAUSED\<rparr>)]"
  by (simp_all add: demo_ops_def demo_initial_def demo_audio_def client.defs GStreamerMSEMediaPlayerClient_def
      good_env_def createBackend_def in_loop_def call_def handleStreamCollection_def attachSource_def
      attachSource_in_loop_def edit_sync_def upd_delegate_def type_id_def
      sendAllSourcesAttachedIfPossibleInternal_def areAllStreamsAttached_def new_source_def
      UNKNOWN_STREAMS_NUMBER_def checkIfAllAttachedSourcesInStates_def pause_def pause_in_loop_def
      set_source_state_def edit_source_def DEFAULT_MAX_VIDEO_WIDTH_def DEFAULT_MAX_VIDEO_HEIGHT_def)

section \<open>Properties\<close>

text \<open>
  Order of the commands. In every state that a client can reach, by any sequence of calls,
  notifications and worker rounds in which the server reports PAUSED, PLAYING or END\_OF\_STREAM
  only for a session whose sources are attached, the server has received \<open>allSourcesAttached\<close> at
  most once, and every play and every pause command was sent after it.
\<close>

theorem commands_follow_attachment:
  assumes "client_start s0" and "client_step\<^sup>*\<^sup>* s0 s"
  shows "count_list (calls s) B_allSourcesAttached \<le> 1 \<and>
    (\<forall>pre b rest. calls s = pre @ b # rest \<and> (b = B_play \<or> b = B_pause) \<longrightarrow> B_allSourcesAttached \<in> set pre)"
proof -
  have "proto_inv s" using client_runs.inv_reachable [OF assms] by simp
  then have "count_list (calls s) B_allSourcesAttached \<le> 1" "no_early (calls s)"
    by (auto simp: proto_inv_def split: if_splits)
  then show ?thesis by (auto dest: no_early_before)
qed

theorem commands_follow_attachment_witness:
  "count_list (calls (fold client_exec demo_ops demo_initial)) B_allSourcesAttached \<le> 1 \<and>
   B_pause \<in> set (calls (fold client_exec demo_ops demo_initial))"
  using commands_follow_attachment [OF demo_initial_start client_steps_fold, of demo_ops]
  by (simp add: demo_ops_def [THEN arg_cong [of _ _ set]] demo_ops_calls)

text \<open>
  C11. Bookkeeping of sources. After any sequence of operations, whatever the server answers, no
  source id is attached twice and every attached source has an entry in the flush synchronizer.
\<close>

theorem attached_sources_synchronised:
  assumes "client_start s"
  shows "distinct (keys (m_attachedSources (fold client_exec ops s))) \<and>
    set (keys (m_attachedSources (fold client_exec ops s))) \<subseteq>
      set (keys (m_flushAndDataSynchronizer (fold client_exec ops s)))"
  using client_keys.inv_run [OF keys_start [OF assms], of ops] by (simp add: keys_inv_def)

theorem attached_sources_synchronised_witness:
  "set (keys (m_attachedSources (fold client_exec demo_ops demo_initial))) = {1} \<and>
   1 \<in> set (keys (m_flushAndDataSynchronizer (fold client_exec demo_ops demo_initial)))"
  using attached_sources_synchronised [OF demo_initial_start, of demo_ops]
  by (simp add: demo_ops_calls)

text \<open>
  C2. Preroll. When the sinks of all attached sources request PAUSED, in any order, exactly one
  pause command is sent, with the last request; and when the server then reports PAUSED, the
  client and every source are PAUSED and every sink has committed the state PAUSED, posted
  async-done and waits no more.
\<close>

theorem preroll_completes:
  assumes "live s" and "can_pause s" and "distinct ks" and "ks \<noteq> []"
    and "set ks = {k. source_st s k \<noteq> None}"
    and "\<forall>k. source_st s k \<noteq> Some CS_AWAITING_PAUSED"
    and "\<forall>j k h. handle_of s j = Some h \<and> handle_of s k = Some h \<longrightarrow> j = k"
    and "\<forall>k h. handle_of s k = Some h \<longrightarrow> GST_STATE_NEXT (sink_of s h) = GST_STATE_PAUSED"
  shows "let t = handlePlaybackStateChange e PS_PAUSED (fold pause_one ks s) in
    calls t = calls s @ [B_pause] \<and> m_clientState t = CS_PAUSED \<and>
    (\<forall>k h. handle_of s k = Some h \<longrightarrow> source_st t k = Some CS_PAUSED \<and>
       GST_STATE (sink_of t h) = GST_STATE_PAUSED \<and> \<not> m_isStateCommitNeeded (delegates t h) \<and>
       last (bus (sink_of t h)) = MSG_ASYNC_DONE)"
proof -
  let ?u = "fold pause_one ks s"
  have u: "live ?u" "m_clientState ?u = CS_AWAITING_PAUSED" "calls ?u = calls s @ [B_pause]"
    "handle_of ?u = handle_of s" "same_sinks s ?u" "\<forall>k \<in> set ks. waiting ?u k"
    "source_st ?u = (\<lambda>k. if source_st s k = None then None else Some CS_AWAITING_PAUSED)"
    using pausing.requests_of_all [of s ks] assms by (auto simp: Let_def)
  have "completes PS_PAUSED ?u k" if "source_st ?u k \<noteq> None" for k
    using that u assms(5,8)
    by (auto simp: completes_def awaiting_of_def gst_of_def waiting_def same_sinks_def split: if_splits)
  then have t: "let t = handlePlaybackStateChange e PS_PAUSED ?u in
      calls t = calls ?u \<and> m_clientState t = CS_PAUSED \<and>
      (\<forall>k h. handle_of ?u k = Some h \<longrightarrow> source_st t k = Some CS_PAUSED \<and>
         delegates t h = commit_if_waiting (delegates ?u h))"
    using handle_awaited_state [of PS_PAUSED ?u e] u assms(7) by (simp add: awaiting_of_def settled_of_def)
  have "k \<in> set ks" if "handle_of s k = Some h" for k h
    using that assms(5) by (auto simp: handle_of_def source_st_def)
  then have "m_isStateCommitNeeded (delegates ?u h)" "GST_STATE_NEXT (sink_of ?u h) = GST_STATE_PAUSED"
    if "handle_of s k = Some h" for k h
    using that u assms(8) by (auto simp: waiting_def same_sinks_def)
  with t u show ?thesis by (simp add: Let_def) (metis committed)
qed

theorem preroll_completes_witness:
  "let t = handlePlaybackStateChange good_env PS_PAUSED (fold pause_one [2, 1]
       (demo_player CS_READY CS_READY PS_IDLE GST_STATE_READY GST_STATE_PAUSED)) in
   calls t = [B_pause] \<and> m_clientState t = CS_PAUSED \<and>
   GST_STATE (sink_of t 0) = GST_STATE_PAUSED \<and> GST_STATE (sink_of t 1) = GST_STATE_PAUSED"
proof -
  let ?s = "demo_player CS_READY CS_READY PS_IDLE GST_STATE_READY GST_STATE_PAUSED"
  let ?t = "handlePlaybackStateChange good_env PS_PAUSED (fold pause_one [2, 1] ?s)"
  have t: "calls ?t = calls ?s @ [B_pause] \<and> m_clientState ?t = CS_PAUSED \<and>
    (\<forall>k h. handle_of ?s k = Some h \<longrightarrow> source_st ?t k = Some CS_PAUSED \<and>
       GST_STATE (sink_of ?t h) = GST_STATE_PAUSED \<and> \<not> m_isStateCommitNeeded (delegates ?t h) \<and>
       last (bus (sink_of ?t h)) = MSG_ASYNC_DONE)"
    by (rule preroll_completes [unfolded Let_def])
      (auto simp: can_pause_def simp del: fold_simps split: if_splits)
  moreover have "handle_of ?s 1 = Some 0" "handle_of ?s 2 = Some 1" by simp_all
  ultimately show ?thesis unfolding Let_def demo_player_simps(7) append_Nil by blast
qed

text \<open>All play requests, with the two ways in which the last one can end.\<close>

lemma play_requests:
  fixes e :: env
  assumes "live s" and "can_play s" and "distinct ks" and "ks \<noteq> []"
    and "set ks = {k. source_st s k \<noteq> None}"
    and "\<forall>k. source_st s k \<notin> {Some CS_AWAITING_PLAYING, Some CS_PLAYING}"
    and "\<forall>j k h. handle_of s j = Some h \<and> handle_of s k = Some h \<longrightarrow> j = k"
  defines "u \<equiv> fold (play_one e) ks s"
  shows "live u \<and> m_clientState u = CS_AWAITING_PLAYING \<and> calls u = calls s @ [B_play] \<and> handle_of u = handle_of s \<and>
      source_st u = (\<lambda>k. if source_st s k = None then None else Some CS_AWAITING_PLAYING) \<and> same_sinks s u"
    "fst (play e (last ks) (fold (play_one e) (butlast ks) s)) = (if be_play_async e then SUCCESS_ASYNC else SUCCESS_SYNC)"
    "queueMessages u = queueMessages s @ (if be_play_async e then [] else [PlaybackStateMessage PS_PLAYING])"
    "handle_of s k = Some j \<Longrightarrow> be_play_async e \<or> k \<noteq> last ks \<Longrightarrow> m_isStateCommitNeeded (delegates u j)"
    "handle_of s (last ks) = Some j \<Longrightarrow> \<not> be_play_async e \<Longrightarrow> delegates u j = delegates s j"
proof -
  let ?v = "fold (play_one e) (butlast ks) s" and ?k = "last ks"
  let ?s2 = "awaits ?k CS_AWAITING_PLAYING [CS_AWAITING_PLAYING, CS_PLAYING] B_play ?v"
  have ks: "u = play_one e ?k ?v" "set ks = insert ?k (set (butlast ks))" "?k \<notin> set (butlast ks)"
    using assms(3,4) by (cases ks rule: rev_cases; simp add: u_def)+
  have v: "live ?v" "can_play ?v" "calls ?v = calls s" "handle_of ?v = handle_of s" "same_sinks s ?v"
    "queueMessages ?v = queueMessages s"
    "source_st ?v = (\<lambda>k. if k \<in> set (butlast ks) then Some CS_AWAITING_PLAYING else source_st s k)"
    "\<forall>k \<in> set (butlast ks). waiting ?v k"
    "\<forall>h. (\<forall>k \<in> set (butlast ks). handle_of s k \<noteq> Some h) \<longrightarrow> delegates ?v h = delegates s h"
    "source_st ?v ?k \<noteq> None"
    "\<forall>j st. j \<noteq> ?k \<longrightarrow> source_st ?v j = Some st \<longrightarrow> st \<in> {CS_AWAITING_PLAYING, CS_PLAYING}"
    using playing.requests_but_last [of s ks e] assms by (auto simp: Let_def)
  have s2: "m_clientState ?s2 = CS_AWAITING_PLAYING" "calls ?s2 = calls s @ [B_play]"
    using awaits_cases(1) [OF v(1,10), of CS_AWAITING_PLAYING "[CS_AWAITING_PLAYING, CS_PLAYING]" B_play] v(3,11) by auto
  obtain h where h: "handle_of s ?k = Some h"
    "play e ?k ?v = (if be_play_async e then (SUCCESS_ASYNC, upd_delegate h postAsyncStart ?s2)
      else (SUCCESS_SYNC, post (PlaybackStateMessage PS_PLAYING) ?s2))"
    using play_eq [OF v(1,10,2), of e] s2(2) v(3,4) by (metis append_self_conv not_Cons_self2)
  have u: "u = (if be_play_async e then upd_delegate h postAsyncStart ?s2 else post (PlaybackStateMessage PS_PLAYING) ?s2)"
    using h(2) by (simp add: ks(1) play_one_def)
  have all: "k \<in> set (butlast ks) \<or> k = ?k \<longleftrightarrow> source_st s k \<noteq> None" for k
    using assms(5) ks(2) by auto
  have eff: "live u" "m_clientState u = CS_AWAITING_PLAYING" "calls u = calls s @ [B_play]" "handle_of u = handle_of s"
    "source_st u = (\<lambda>k. if source_st s k = None then None else Some CS_AWAITING_PLAYING)"
  proof -
    show "live u" "m_clientState u = CS_AWAITING_PLAYING" "calls u = calls s @ [B_play]" "handle_of u = handle_of s"
      using v(1,4) s2 by (simp_all add: u)
    have "source_st u = (source_st ?v)(?k \<mapsto> CS_AWAITING_PLAYING)" using awaits_frame(6) [OF v(10)] by (simp add: u)
    then show "source_st u = (\<lambda>k. if source_st s k = None then None else Some CS_AWAITING_PLAYING)"
      unfolding v(7) using all by (fastforce simp: fun_eq_iff)
  qed
  have sinks: "same_sinks s u" "\<forall>k \<in> set (butlast ks). waiting u k" "be_play_async e \<longrightarrow> waiting u ?k"
    "\<not> be_play_async e \<longrightarrow> delegates u h = delegates s h"
  proof -
    have d: "same_sinks ?v ?s2" by (simp add: same_sinks_def sink_of_def)
    then show "same_sinks s u"
      using v(5) by (auto simp: u same_sinks_postAsyncStart intro: same_sinks_trans) (simp add: same_sinks_def sink_of_def)
    then show "\<forall>k \<in> set (butlast ks). waiting u k"
      using v(8) d eff(4) v(4) by (auto simp: u waiting_def postAsyncStart_def upd_sink_def)
    show "be_play_async e \<longrightarrow> waiting u ?k" using h(1) v(4) by (auto simp: u intro!: waiting_after_postAsyncStart)
    have "\<forall>k \<in> set (butlast ks). handle_of s k \<noteq> Some h" using assms(7) h(1) ks(3) by metis
    then show "\<not> be_play_async e \<longrightarrow> delegates u h = delegates s h" using v(9) by (simp add: u)
  qed
  show "queueMessages u = queueMessages s @ (if be_play_async e then [] else [PlaybackStateMessage PS_PLAYING])"
  proof -
    have "queueRunning ?s2" "queueAccepting ?s2"
      using v(1) awaits_frame(1) [of ?k CS_AWAITING_PLAYING "[CS_AWAITING_PLAYING, CS_PLAYING]" B_play ?v]
      unfolding live_def by blast+
    then show ?thesis using v(6) by (simp add: u upd_delegate_def post_def)
  qed
  show "m_isStateCommitNeeded (delegates u j)" if "handle_of s k = Some j" "be_play_async e \<or> k \<noteq> ?k"
  proof -
    have "k \<in> set (butlast ks) \<or> k = ?k" using that(1) all by (auto simp: handle_of_def source_st_def)
    with that sinks(2,3) eff(4) show ?thesis by (auto simp: waiting_def)
  qed
  show "delegates u j = delegates s j" if "handle_of s ?k = Some j" "\<not> be_play_async e"
    using sinks(4) h(1) that by simp
  show "live u \<and> m_clientState u = CS_AWAITING_PLAYING \<and> calls u = calls s @ [B_play] \<and> handle_of u = handle_of s \<and>
      source_st u = (\<lambda>k. if source_st s k = None then None else Some CS_AWAITING_PLAYING) \<and> same_sinks s u"
    using eff sinks(1) by simp
  show "fst (play e ?k ?v) = (if be_play_async e then SUCCESS_ASYNC else SUCCESS_SYNC)"
    by (simp add: h(2))
qed

text \<open>
  C3. Start of playback. When the sinks of all attached sources of a paused client request
  PLAYING, in any order, exactly one play command is sent, with the last request. If the server
  starts to play later, the last request is answered as asynchronous like the others, and when the
  server then reports PLAYING, every sink has committed the state PLAYING. If the server plays at
  once, the last request is answered as done, which makes the element of its sink commit by itself,
  and the client posts one PLAYING message to its own event loop; this message completes the
  other sinks and leaves the last one as it is. In both cases the client and every source are
  PLAYING.
\<close>

theorem playback_starts:
  assumes "live s" and "can_play s" and "distinct ks" and "ks \<noteq> []"
    and "set ks = {k. source_st s k \<noteq> None}"
    and "\<forall>k. source_st s k \<notin> {Some CS_AWAITING_PLAYING, Some CS_PLAYING}"
    and "\<forall>j k h. handle_of s j = Some h \<and> handle_of s k = Some h \<longrightarrow> j = k"
    and "\<forall>k h. handle_of s k = Some h \<longrightarrow> GST_STATE_NEXT (sink_of s h) = GST_STATE_PLAYING"
  shows "let u = fold (play_one e) ks s; t = handlePlaybackStateChange e' PS_PLAYING u in
    fst (play e (last ks) (fold (play_one e) (butlast ks) s)) =
      (if be_play_async e then SUCCESS_ASYNC else SUCCESS_SYNC) \<and>
    queueMessages u = queueMessages s @ (if be_play_async e then [] else [PlaybackStateMessage PS_PLAYING]) \<and>
    calls t = calls s @ [B_play] \<and> m_clientState t = CS_PLAYING \<and>
    (\<forall>k h. handle_of s k = Some h \<longrightarrow> source_st t k = Some CS_PLAYING \<and>
       (if be_play_async e \<or> k \<noteq> last ks
        then GST_STATE (sink_of t h) = GST_STATE_PLAYING \<and> \<not> m_isStateCommitNeeded (delegates t h) \<and>
          last (bus (sink_of t h)) = MSG_ASYNC_DONE
        else \<not> m_isStateCommitNeeded (delegates s h) \<longrightarrow> delegates t h = delegates s h))"
proof -
  define u where "u = fold (play_one e) ks s"
  note req = play_requests [OF assms(1-7), where e = e, folded u_def]
  have eff: "live u" "m_clientState u = CS_AWAITING_PLAYING" "calls u = calls s @ [B_play]" "handle_of u = handle_of s"
    "source_st u = (\<lambda>k. if source_st s k = None then None else Some CS_AWAITING_PLAYING)" "same_sinks s u"
    using req(1) by blast+
  have "completes PS_PLAYING u k" if "source_st u k \<noteq> None" for k
    using that eff eff(6) assms(8)
    by (auto simp: completes_def awaiting_of_def gst_of_def same_sinks_def split: if_splits)
  then have t: "let t = handlePlaybackStateChange e' PS_PLAYING u in
      calls t = calls u \<and> m_clientState t = CS_PLAYING \<and>
      (\<forall>k h. handle_of u k = Some h \<longrightarrow> source_st t k = Some CS_PLAYING \<and>
         delegates t h = commit_if_waiting (delegates u h))"
    using handle_awaited_state [of PS_PLAYING u e'] eff assms(7) by (simp add: awaiting_of_def settled_of_def)
  have nexts: "GST_STATE_NEXT (sink_of u j) = GST_STATE_PLAYING" if "handle_of s k = Some j" for k j
    using that eff(6) assms(8) by (auto simp: same_sinks_def)
  define v where "v = handlePlaybackStateChange e' PS_PLAYING u"
  have each: "source_st v k = Some CS_PLAYING \<and>
      (if be_play_async e \<or> k \<noteq> last ks
       then GST_STATE (sink_of v j) = GST_STATE_PLAYING \<and> \<not> m_isStateCommitNeeded (delegates v j) \<and>
         last (bus (sink_of v j)) = MSG_ASYNC_DONE
       else \<not> m_isStateCommitNeeded (delegates s j) \<longrightarrow> delegates v j = delegates s j)"
    if j: "handle_of s k = Some j" for k j
  proof -
    have d: "source_st v k = Some CS_PLAYING" "delegates v j = commit_if_waiting (delegates u j)"
      using t j eff(4) by (simp_all add: Let_def v_def)
    show ?thesis
      using committed [OF d(2) req(4) [OF j] nexts [OF j]] d req(5) j
      by (auto simp: commit_if_waiting_def)
  qed
  have "calls v = calls s @ [B_play]" "m_clientState v = CS_PLAYING"
    using t eff(3) by (simp_all add: Let_def v_def)
  then show ?thesis
    unfolding Let_def u_def [symmetric] v_def [symmetric] using req(2,3) each by blast
qed

lemma demo_play:
  defines "s \<equiv> demo_player CS_PAUSED CS_PAUSED PS_PAUSED GST_STATE_PAUSED GST_STATE_PLAYING"
  shows "live s" "can_play s" "set [1, 2] = {k. source_st s k \<noteq> None}"
    "\<forall>k. source_st s k \<notin> {Some CS_AWAITING_PLAYING, Some CS_PLAYING}"
    "\<forall>j k h. handle_of s j = Some h \<and> handle_of s k = Some h \<longrightarrow> j = k"
    "\<forall>k h. handle_of s k = Some h \<longrightarrow> GST_STATE_NEXT (sink_of s h) = GST_STATE_PLAYING"
    "handle_of s 1 = Some 0" "handle_of s 2 = Some 1" "calls s = []" "queueMessages s = []"
  unfolding s_def by (auto simp: can_play_def split: if_splits)
    (simp add: demo_player_def client.defs GStreamerMSEMediaPlayerClient_def)

text \<open>With a server that plays at once.\<close>

theorem playback_starts_witness:
  "let u = fold (play_one (good_env\<lparr>be_play_async := False\<rparr>)) [1, 2]
         (demo_player CS_PAUSED CS_PAUSED PS_PAUSED GST_STATE_PAUSED GST_STATE_PLAYING);
       t = handlePlaybackStateChange good_env PS_PLAYING u in
   queueMessages u = [PlaybackStateMessage PS_PLAYING] \<and> calls t = [B_play] \<and> m_clientState t = CS_PLAYING \<and>
   source_st t 2 = Some CS_PLAYING \<and> GST_STATE (sink_of t 0) = GST_STATE_PLAYING"
proof -
  let ?s = "demo_player CS_PAUSED CS_PAUSED PS_PAUSED GST_STATE_PAUSED GST_STATE_PLAYING"
  let ?e = "good_env\<lparr>be_play_async := False\<rparr>"
  define u where "u = fold (play_one ?e) [1, 2] ?s"
  define t where "t = handlePlaybackStateChange good_env PS_PLAYING u"
  have "distinct [1, 2 :: int]" "[1, 2 :: int] \<noteq> []" "\<not> be_play_async ?e" "last [1, 2 :: int] = 2" by simp_all
  note p = playback_starts [OF demo_play(1,2) this(1,2) demo_play(3-6), of ?e good_env, unfolded Let_def,
      folded u_def, folded t_def]
  have all: "source_st t k = Some CS_PLAYING \<and> (k \<noteq> 2 \<longrightarrow> GST_STATE (sink_of t h) = GST_STATE_PLAYING)"
    if "handle_of ?s k = Some h" for k h
    using p that by (auto split: if_splits simp del: demo_player_simps(3))
  have "queueMessages u = [PlaybackStateMessage PS_PLAYING]" "calls t = [B_play]" "m_clientState t = CS_PLAYING"
    using p demo_play(9,10) by simp_all
  with all [OF demo_play(7)] all [OF demo_play(8)] show ?thesis
    unfolding Let_def u_def [symmetric] t_def [symmetric] by simp
qed

end
