(* ===== verification/Client_Data.thy ===== *)
theory Client_Data
  imports Client_Playback
begin

text \<open>
  The data path of \<open>GStreamerMSEMediaPlayerClient\<close>: what a need-data request delivers, how it is
  answered, and flushing.
\<close>

section \<open>What a pull delivers\<close>

text \<open>The segments that were offered to the server, in order, each with the server's answer, and those
  that the server accepted.\<close>

fun offered :: "backend_call list \<Rightarrow> (MediaSegment \<times> AddSegmentStatus) list" where
  "offered [] = []"
| "offered (B_addSegment n seg st # cs) = (seg, st) # offered cs"
| "offered (_ # cs) = offered cs"

lemma offered_append [simp]: "offered (cs @ ds) = offered cs @ offered ds"
  by (induction cs rule: offered.induct) simp_all

definition accepted :: "(MediaSegment \<times> AddSegmentStatus) list \<Rightarrow> MediaSegment list" where
  "accepted xs = map fst (filter (\<lambda>(seg, st). st = ASS_OK) xs)"

definition delivered :: "backend_call list \<Rightarrow> MediaSegment list" where
  "delivered cs = accepted (offered cs)"

lemma accepted_simps [simp]:
  "accepted [] = []" "accepted (xs @ ys) = accepted xs @ accepted ys"
  "accepted ((seg, st) # xs) = (if st = ASS_OK then seg # accepted xs else accepted xs)"
  by (simp_all add: accepted_def)

text \<open>The segment made from a sample whose buffer can be mapped.\<close>

definition parsed :: "BufferParser \<Rightarrow> int \<Rightarrow> GstSample \<Rightarrow> null_string + MediaSegment" where
  "parsed parser sid x = parseBuffer parser x (sample_buffer x) (buffer_bytes (sample_buffer x)) sid"

definition mappable :: "GstSample \<Rightarrow> bool" where
  "mappable x = buffer_maps (sample_buffer x)"

lemma parsed_returns: "(\<exists>seg. parsed parser sid x = Inr seg) \<longleftrightarrow>
    (\<exists>c name. sample_caps x = Some c \<and> gst_structure_get_name (caps_structure c) = Some name)"
  by (auto simp: parsed_def parseBuffer_def parse_with_def Let_def addProtectionMetadataToSegment_def
      split: option.splits sum.splits)

definition dropped_samples :: "nat \<Rightarrow> delegate \<Rightarrow> delegate" where
  "dropped_samples m d = d\<lparr>m_samples := drop m (m_samples d)\<rparr>"

lemma dropped_simps [simp]:
  "m_samples (dropped_samples m d) = drop m (m_samples d)"
  "m_isServerFlushOngoing (dropped_samples m d) = m_isServerFlushOngoing d"
  "m_isEos (dropped_samples m d) = m_isEos d" "m_segmentSet (dropped_samples m d) = m_segmentSet d"
  "dropped_samples 0 d = d"
  "dropped_samples m (popSample d) = dropped_samples (Suc m) d"
  by (simp_all add: dropped_samples_def popSample_def split: list.splits)

text \<open>
  The effect of rounds of the loop: \<open>m\<close> samples of the delegate are consumed; \<open>took\<close> are the segments
  made from them with the answers of the server; \<open>refused\<close> is the segment of the next sample, which stays
  in the queue, if the server had no space for it; nothing else changes but the record of calls.
\<close>

definition pull_effect :: "BufferParser \<Rightarrow> int \<Rightarrow> nat \<Rightarrow> player \<Rightarrow> nat \<Rightarrow>
    (MediaSegment \<times> AddSegmentStatus) list \<Rightarrow> (MediaSegment \<times> AddSegmentStatus) list \<Rightarrow> player \<Rightarrow> bool" where
  "pull_effect parser sid h s m took refused t \<longleftrightarrow>
     delegates t = (delegates s)(h := dropped_samples m (delegates s h)) \<and>
     offered (calls t) = offered (calls s) @ took @ refused \<and>
     map (Inr \<circ> fst) took = map (parsed parser sid) (filter mappable (take m (m_samples (delegates s h)))) \<and>
     ASS_NO_SPACE \<notin> set (map snd took) \<and>
     (refused \<noteq> [] \<longrightarrow> (\<exists>x xs seg. drop m (m_samples (delegates s h)) = x # xs \<and> mappable x \<and>
        parsed parser sid x = Inr seg \<and> refused = [(seg, ASS_NO_SPACE)])) \<and>
     queueMessages t = queueMessages s \<and> queueRunning t = queueRunning s \<and>
     queueAccepting t = queueAccepting s \<and> m_attachedSources t = m_attachedSources s \<and>
     m_flushAndDataSynchronizer t = m_flushAndDataSynchronizer s"

lemma pull_effect_none: "pull_effect parser sid h s 0 [] [] s"
  by (simp add: pull_effect_def)

lemma pull_effect_refused:
  assumes "m_samples (delegates s h) = x # xs" "mappable x" "parsed parser sid x = Inr seg"
  shows "pull_effect parser sid h s 0 [] [(seg, ASS_NO_SPACE)] (call (B_addSegment n seg ASS_NO_SPACE) s)"
  using assms by (simp add: pull_effect_def)

lemma pull_effect_skip:
  assumes "m_samples (delegates s h) = x # xs" "\<not> mappable x"
    "pull_effect parser sid h (upd_delegate h popSample s) m took refused t"
  shows "pull_effect parser sid h s (Suc m) took refused t"
  using assms by (simp add: pull_effect_def popSample_def dropped_samples_def)

lemma pull_effect_add:
  assumes "m_samples (delegates s h) = x # xs" "mappable x" "parsed parser sid x = Inr seg"
    "st \<noteq> ASS_NO_SPACE"
    "pull_effect parser sid h (upd_delegate h popSample (call (B_addSegment n seg st) s)) m took refused t"
  shows "pull_effect parser sid h s (Suc m) ((seg, st) # took) refused t"
  using assms by (simp add: pull_effect_def popSample_def dropped_samples_def)

lemma pull_loop_map: "gst_buffer_map (sample_buffer x) =
    (if mappable x then Some (buffer_bytes (sample_buffer x)) else None)"
  by (simp add: gst_buffer_map_def mappable_def)

text \<open>One round of the loop, by the front sample.\<close>

lemma pull_round_stop:
  "\<not> isReadyToSendData (delegates s h) \<Longrightarrow>
     pull_loop e parser msg h (Suc n) k added s = Some (False, added, s)"
  "isReadyToSendData (delegates s h) \<Longrightarrow> getFrontSample (delegates s h) = None \<Longrightarrow>
     pull_loop e parser msg h (Suc n) k added s = Some (isEos (delegates s h), added, s)"
  by (simp_all add: Let_def)

lemma pull_round_skip:
  "isReadyToSendData (delegates s h) \<Longrightarrow> getFrontSample (delegates s h) = Some x \<Longrightarrow> \<not> mappable x \<Longrightarrow>
     pull_loop e parser msg h (Suc n) k added s =
     pull_loop e parser msg h n (Suc k) added (upd_delegate h popSample s)"
  by (simp add: Let_def pull_loop_map)

lemma pull_round_add:
  "isReadyToSendData (delegates s h) \<Longrightarrow> getFrontSample (delegates s h) = Some x \<Longrightarrow> mappable x \<Longrightarrow>
     pull_loop e parser msg h (Suc n) k added s =
     (case parsed parser (pb_sourceId msg) x of
        Inl _ \<Rightarrow> None
      | Inr seg \<Rightarrow>
          (let st = be_addSegment e k (pb_needDataRequestId msg) seg;
               s1 = call (B_addSegment (pb_needDataRequestId msg) seg st) s
           in if st = ASS_NO_SPACE then Some (False, added, s1)
              else pull_loop e parser msg h n (Suc k) (Suc added) (upd_delegate h popSample s1)))"
  by (simp add: Let_def pull_loop_map parsed_def)

lemma front_sample:
  "getFrontSample d = Some x \<longleftrightarrow> \<not> m_isServerFlushOngoing d \<and> (\<exists>xs. m_samples d = x # xs)"
  by (auto simp: getFrontSample_def split: list.splits)

lemma pull_loop_effect:
  "pull_loop e parser msg h n k added s = Some (eos, added', t) \<Longrightarrow>
   \<exists>m took refused. m \<le> n \<and> pull_effect parser (pb_sourceId msg) h s m took refused t \<and>
     added' = added + length took \<and> (refused \<noteq> [] \<longrightarrow> m < n) \<and> (eos \<longrightarrow> isEos (delegates t h))"
proof (induction n arbitrary: k added s)
  case 0
  then show ?case by (intro exI [of _ 0] exI [of _ "[]"]) (auto intro: pull_effect_none)
next
  case (Suc n)
  let ?d = "delegates s h"
  consider (stop) "\<not> isReadyToSendData ?d \<or> getFrontSample ?d = None"
    | (skip) x xs where "isReadyToSendData ?d" "getFrontSample ?d = Some x" "m_samples ?d = x # xs" "\<not> mappable x"
    | (add) x xs where "isReadyToSendData ?d" "getFrontSample ?d = Some x" "m_samples ?d = x # xs" "mappable x"
    by (metis front_sample option.exhaust)
  then show ?case
  proof cases
    case stop
    with Suc.prems have "t = s" "added' = added" "eos \<longrightarrow> isEos ?d"
      by (auto simp: Let_def split: if_splits option.splits)
    then show ?thesis by (intro exI [of _ 0] exI [of _ "[]"]) (auto intro: pull_effect_none)
  next
    case skip
    from Suc.IH [OF Suc.prems [unfolded pull_round_skip [OF skip(1,2,4)]]] pull_effect_skip [OF skip(3,4)]
    show ?thesis by (metis Suc_le_mono Suc_less_eq)
  next
    case add
    show ?thesis
    proof (cases "parsed parser (pb_sourceId msg) x")
      case (Inl a)
      with Suc.prems show ?thesis by (simp add: pull_round_add [OF add(1,2,4)] del: pull_loop.simps)
    next
      case (Inr seg)
      let ?st = "be_addSegment e k (pb_needDataRequestId msg) seg"
      let ?s = "call (B_addSegment (pb_needDataRequestId msg) seg ?st) s"
      have r: "(if ?st = ASS_NO_SPACE then Some (False, added, ?s)
        else pull_loop e parser msg h n (Suc k) (Suc added) (upd_delegate h popSample ?s)) = Some (eos, added', t)"
        using Suc.prems Inr by (simp add: pull_round_add [OF add(1,2,4)] Let_def del: pull_loop.simps)
      show ?thesis
      proof (cases "?st = ASS_NO_SPACE")
        case True
        with r have "t = ?s" "added' = added" "\<not> eos" by simp_all
        with True pull_effect_refused [OF add(3,4) Inr] show ?thesis
          by (intro exI [of _ 0] exI [of _ "[]"] exI [of _ "[(seg, ASS_NO_SPACE)]"]) simp
      next
        case False
        with r have "pull_loop e parser msg h n (Suc k) (Suc added) (upd_delegate h popSample ?s) = Some (eos, added', t)"
          by simp
        from Suc.IH [OF this] pull_effect_add [OF add(3,4) Inr False]
        show ?thesis by (metis Suc_le_mono Suc_less_eq add_Suc add_Suc_right length_Cons)
      qed
    qed
  qed
qed

text \<open>A loop that is not held up returns, and consumes everything up to the requested number.\<close>

definition named_caps :: "GstSample \<Rightarrow> bool" where
  "named_caps x \<longleftrightarrow> (case sample_caps x of None \<Rightarrow> False
     | Some c \<Rightarrow> gst_structure_get_name (caps_structure c) \<noteq> None)"

lemma named_parsed: "named_caps x \<Longrightarrow> \<exists>seg. parsed parser sid x = Inr seg"
  by (auto simp: parsed_returns named_caps_def split: option.splits)

lemma pull_loop_total:
  "list_all named_caps (m_samples (delegates s h)) \<Longrightarrow> \<exists>r. pull_loop e parser msg h n k added s = Some r"
proof (induction n arbitrary: k added s)
  case (Suc n)
  let ?d = "delegates s h"
  consider (stop) "\<not> isReadyToSendData ?d \<or> getFrontSample ?d = None"
    | (go) x xs where "isReadyToSendData ?d" "getFrontSample ?d = Some x" "m_samples ?d = x # xs"
    by (metis front_sample option.exhaust)
  then show ?case
  proof cases
    case stop
    then show ?thesis by (auto simp: Let_def split: option.splits)
  next
    case go
    have rest: "list_all named_caps (m_samples (delegates (upd_delegate h popSample s) h))"
      "list_all named_caps (m_samples (delegates (upd_delegate h popSample (call b s)) h))" for b
      using Suc.prems go(3) by (simp_all add: popSample_def)
    obtain seg where "parsed parser (pb_sourceId msg) x = Inr seg"
      using named_parsed Suc.prems go(3) by fastforce
    with Suc.IH rest go show ?thesis
      by (cases "mappable x") (auto simp: pull_round_skip pull_round_add Let_def simp del: pull_loop.simps)
  qed
next
  case 0
  show ?case by (simp only: pull_loop.simps) blast
qed

lemma pull_loop_complete:
  assumes "pull_loop e parser msg h n k added s = Some (eos, added', t)"
    and "isReadyToSendData (delegates s h)" "\<not> m_isServerFlushOngoing (delegates s h)"
    and "\<forall>i seg. be_addSegment e i (pb_needDataRequestId msg) seg \<noteq> ASS_NO_SPACE"
  shows "m_samples (delegates t h) = drop n (m_samples (delegates s h)) \<and>
    (eos \<longleftrightarrow> length (m_samples (delegates s h)) < n \<and> m_isEos (delegates s h))"
  using assms(1-3)
proof (induction n arbitrary: k added s)
  case (Suc n)
  let ?d = "delegates s h"
  have kept: "isReadyToSendData (popSample ?d)" "\<not> m_isServerFlushOngoing (popSample ?d)"
    "m_isEos (popSample ?d) = m_isEos ?d"
    using Suc.prems by (auto simp: popSample_def isReadyToSendData_def split: list.splits)
  show ?case
  proof (cases "m_samples ?d")
    case Nil
    then have "getFrontSample ?d = None" by (simp add: getFrontSample_def)
    with Suc.prems Nil show ?thesis by (simp add: pull_round_stop isEos_def del: pull_loop.simps) auto
  next
    case (Cons x xs)
    with Suc.prems have front: "getFrontSample ?d = Some x" by (simp add: front_sample)
    obtain k' added'' s' where s': "pull_loop e parser msg h n k' added'' s' = Some (eos, added', t)"
      "delegates s' h = popSample ?d"
      using Suc.prems front assms(4)
      by (cases "mappable x")
        (auto simp: pull_round_skip pull_round_add Let_def simp del: pull_loop.simps split: sum.splits)
    with Suc.IH [OF s'(1)] kept Cons show ?thesis by (simp add: popSample_def)
  qed
qed simp

lemma handle_pull_loop:
  assumes "pull_loop e parser msg h (pb_frameCount msg) 0 0 s = Some (eos, added, u)"
  shows "handle_PullBufferMessage e parser h msg s =
    Some (post (HaveDataMessage (pull_status eos added) (pb_sourceId msg) (pb_needDataRequestId msg))
            (if pull_status eos added = MSS_OK \<or> pull_status eos added = MSS_EOS
             then edit_sync (notifyDataPushed (pb_sourceId msg)) u else u))"
  by (simp add: handle_PullBufferMessage_def assms Let_def)

lemma handle_pull_returns:
  "handle_PullBufferMessage e parser h msg s = Some t \<Longrightarrow>
   \<exists>eos added u. pull_loop e parser msg h (pb_frameCount msg) 0 0 s = Some (eos, added, u)"
  by (auto simp: handle_PullBufferMessage_def split: option.splits)

lemma delegates_post_sync [simp]:
  "delegates (post msg s) = delegates s" "delegates (edit_sync f s) = delegates s"
  by (simp_all add: post_def edit_sync_def)

lemma live_edit_sync [simp]: "live (edit_sync f s) = live s"
  by (simp add: live_def edit_sync_def)

lemma live_post: "live s \<Longrightarrow> post m s = s\<lparr>queueMessages := queueMessages s @ [m]\<rparr>"
  by (simp add: post_def live_def)

section \<open>Flushing\<close>

lemma flush_live:
  "live s \<Longrightarrow> flush e sid r s = flush_in_loop e sid r (edit_sync (notifyFlushStarted sid) s)"
  by (simp add: flush_def live_in_loop)

lemma flush_attached:
  assumes "live s" "find_key (m_attachedSources s) sid = Some a" "be_flush e sid r = (True, async)"
  shows "calls (flush e sid r s) = calls s @ [B_flush sid r]"
    and "find_key (m_attachedSources (flush e sid r s)) sid =
      Some (a\<lparr>m_isFlushing := True, m_state := (if async then CS_AWAITING_PAUSED else m_state a)\<rparr>)"
    and "m_flushAndDataSynchronizer (flush e sid r s) =
      notifyFlushStarted sid (m_flushAndDataSynchronizer s)"
    and "m_clientState (flush e sid r s) =
      (if \<not> async then m_clientState s
       else if m_clientState s = CS_PLAYING then CS_AWAITING_PLAYING
       else if m_clientState s = CS_PAUSED then CS_AWAITING_PAUSED else m_clientState s)"
  using assms
  by (simp_all add: flush_live flush_in_loop_def Let_def edit_sync_def call_def
      edit_source_def set_source_state_def upd_delegate_def)

lemma flushing_after_start:
  assumes "distinct (keys m)"
  shows "isAnySourceFlushing (notifyFlushStarted sid m)" "\<not> waitIfRequired sid (notifyFlushStarted sid m)"
  using fds.started_blocks [of "notifyFlushStarted sid m" sid] assms
  by (simp_all add: sync_view_def source_state_ops)

section \<open>Properties\<close>

text \<open>The puller of an audio source with three samples; the buffer of the second cannot be mapped.\<close>

definition data_sample :: "bool \<Rightarrow> nat \<Rightarrow> GstSample" where
  "data_sample ok n = demo_sample ''audio/mpeg'' ((demo_buffer None (replicate n 7))\<lparr>buffer_maps := ok\<rparr>)"

definition data_player :: player where
  "data_player = upd_delegate 0 (\<lambda>d. d\<lparr>m_segmentSet := True, m_isEos := True,
       m_samples := [data_sample True 1, data_sample False 2, data_sample True 3]\<rparr>)
     (demo_player CS_PLAYING CS_PLAYING PS_PLAYING GST_STATE_PLAYING GST_STATE_PLAYING)"

definition data_request :: "nat \<Rightarrow> PullBufferMessage" where
  "data_request n = \<lparr>pb_sourceId = 1, pb_frameCount = n, pb_needDataRequestId = 9\<rparr>"

lemma data_player_simps [simp]:
  "live data_player" "calls data_player = []" "queueMessages data_player = []"
  "m_samples (delegates data_player 0) = [data_sample True 1, data_sample False 2, data_sample True 3]"
  "isReadyToSendData (delegates data_player 0)" "\<not> m_isServerFlushOngoing (delegates data_player 0)"
  "m_isEos (delegates data_player 0)"
  by (simp_all add: data_player_def isReadyToSendData_def)
    (simp_all add: demo_player_def client.defs GStreamerMSEMediaPlayerClient_def demo_delegates_def
      PullModePlaybackDelegate_def)

lemma data_sample_simps [simp]: "named_caps (data_sample ok n)" "mappable (data_sample ok n) = ok"
  by (simp_all add: named_caps_def mappable_def data_sample_def demo_sample_def named_structure_def)

text \<open>
  C15. Data is offered to the server in order and unchanged, and what the server does with it is told
  apart. Whenever the handler of a pull request returns, it has removed the first \<open>m\<close> samples of the
  queue of its delegate, for some \<open>m\<close> not above the number of frames requested. The segments that were
  offered to the server since are the parsed samples among these whose buffers could be mapped, in the
  order of the queue, none of them answered NO\_SPACE; after them at most one more, the segment of the
  first sample that stayed in the queue, which was answered NO\_SPACE. The segments that the server
  has now are those that it had and those answered OK: the sample of a segment answered ERROR is
  removed like the others and its data is lost, as is a sample whose buffer could not be mapped. No
  other delegate changed.
\<close>

theorem pull_delivers_in_order:
  assumes "handle_PullBufferMessage e parser h msg s = Some t"
  shows "\<exists>m took refused. m \<le> pb_frameCount msg \<and>
    m_samples (delegates t h) = drop m (m_samples (delegates s h)) \<and>
    offered (calls t) = offered (calls s) @ took @ refused \<and>
    map (Inr \<circ> fst) took =
      map (parsed parser (pb_sourceId msg)) (filter mappable (take m (m_samples (delegates s h)))) \<and>
    ASS_NO_SPACE \<notin> set (map snd took) \<and>
    (refused \<noteq> [] \<longrightarrow> m < pb_frameCount msg \<and> (\<exists>x xs seg. m_samples (delegates t h) = x # xs \<and>
       parsed parser (pb_sourceId msg) x = Inr seg \<and> refused = [(seg, ASS_NO_SPACE)])) \<and>
    delivered (calls t) = delivered (calls s) @ map fst (filter (\<lambda>(seg, st). st = ASS_OK) took) \<and>
    (\<forall>j. j \<noteq> h \<longrightarrow> delegates t j = delegates s j)"
proof -
  obtain eos added u where loop: "pull_loop e parser msg h (pb_frameCount msg) 0 0 s = Some (eos, added, u)"
    using handle_pull_returns [OF assms] by blast
  obtain m took refused where m: "m \<le> pb_frameCount msg" "refused \<noteq> [] \<longrightarrow> m < pb_frameCount msg"
    and eff: "pull_effect parser (pb_sourceId msg) h s m took refused u"
    using pull_loop_effect [OF loop] by blast
  have t: "delegates t = delegates u" "calls t = calls u"
    using assms handle_pull_loop [OF loop] by auto
  have "accepted refused = []"
    using eff by (cases "refused = []") (auto simp: pull_effect_def)
  then have "delivered (calls t) = delivered (calls s) @ accepted took"
    using eff by (simp add: pull_effect_def delivered_def t)
  moreover have "m_samples (delegates t h) = drop m (m_samples (delegates s h))" "\<forall>j. j \<noteq> h \<longrightarrow> delegates t j = delegates s j"
    using eff by (simp_all add: pull_effect_def t)
  moreover have "\<exists>x xs seg. m_samples (delegates t h) = x # xs \<and> parsed parser (pb_sourceId msg) x = Inr seg \<and>
      refused = [(seg, ASS_NO_SPACE)]" if "refused \<noteq> []"
    using eff that by (auto simp: pull_effect_def t)
  ultimately show ?thesis
    using m eff unfolding pull_effect_def t accepted_def
    by (intro exI [of _ m] exI [of _ took] exI [of _ refused]) simp
qed

text \<open>A server that answers ERROR to the first segment: the sample is gone, and was not delivered.\<close>

definition error_env :: env where
  "error_env = good_env\<lparr>be_addSegment := \<lambda>k i seg. if k = 0 then ASS_ERROR else ASS_OK\<rparr>"

lemma data_pull_returns:
  obtains t where "handle_PullBufferMessage error_env AudioBufferParser 0 (data_request 3) data_player = Some t"
    "m_samples (delegates t 0) = []"
proof -
  obtain eos added u where loop: "pull_loop error_env AudioBufferParser (data_request 3) 0 3 0 0 data_player = Some (eos, added, u)"
    using pull_loop_total [of data_player 0 error_env AudioBufferParser "data_request 3" 3 0 0] by auto
  have "m_samples (delegates u 0) = []"
    using pull_loop_complete [OF loop] by (simp add: error_env_def)
  moreover have "pb_frameCount (data_request 3) = 3" by (simp add: data_request_def)
  ultimately show ?thesis
    using that handle_pull_loop [of error_env AudioBufferParser "data_request 3" 0] loop by fastforce
qed

theorem pull_delivers_in_order_witness:
  "\<exists>t. handle_PullBufferMessage error_env AudioBufferParser 0 (data_request 3) data_player = Some t \<and>
     m_samples (delegates t 0) = [] \<and>
     map (Inr \<circ> fst) (offered (calls t)) =
       map (parsed AudioBufferParser 1) [data_sample True 1, data_sample True 3]"
proof -
  obtain t where t: "handle_PullBufferMessage error_env AudioBufferParser 0 (data_request 3) data_player = Some t"
    "m_samples (delegates t 0) = []"
    by (rule data_pull_returns)
  have r: "pb_frameCount (data_request 3) = 3" "pb_sourceId (data_request 3) = 1" by (simp_all add: data_request_def)
  obtain m took refused where m: "m \<le> 3"
    "drop m [data_sample True 1, data_sample False 2, data_sample True 3] = []"
    "offered (calls t) = took @ refused" "refused \<noteq> [] \<longrightarrow> m < 3"
    "map (Inr \<circ> fst) took = map (parsed AudioBufferParser 1)
       (filter mappable (take m [data_sample True 1, data_sample False 2, data_sample True 3]))"
    using pull_delivers_in_order [OF t(1)] t(2) unfolding r by auto
  then have "m = 3" by simp
  with m t show ?thesis by (intro exI [of _ t]) simp
qed

text \<open>
  C16. Every request is answered, and the answer says what happened. If the samples in the queue
  name their caps, the delegate is ready, its server flush is over and the server has room, then
  the handler returns, takes as many samples as were requested or are there, and posts exactly
  one answer for the request: EOS if the queue ran dry after the end of the stream, OK if
  something was delivered, and NO\_AVAILABLE\_SAMPLES otherwise.
\<close>

theorem pull_answers:
  assumes "live s" and "list_all named_caps (m_samples (delegates s h))"
    and "isReadyToSendData (delegates s h)" "\<not> m_isServerFlushOngoing (delegates s h)"
    and "\<forall>i seg. be_addSegment e i (pb_needDataRequestId msg) seg \<noteq> ASS_NO_SPACE"
  shows "\<exists>t. handle_PullBufferMessage e parser h msg s = Some t \<and>
    m_samples (delegates t h) = drop (pb_frameCount msg) (m_samples (delegates s h)) \<and>
    queueMessages t = queueMessages s @ [HaveDataMessage
      (if length (m_samples (delegates s h)) < pb_frameCount msg \<and> m_isEos (delegates s h) then MSS_EOS
       else if list_ex mappable (take (pb_frameCount msg) (m_samples (delegates s h))) then MSS_OK
       else MSS_NO_AVAILABLE_SAMPLES) (pb_sourceId msg) (pb_needDataRequestId msg)]"
proof -
  let ?xs = "m_samples (delegates s h)" and ?n = "pb_frameCount msg"
  obtain eos added u where loop: "pull_loop e parser msg h ?n 0 0 s = Some (eos, added, u)"
    using pull_loop_total [OF assms(2), of e parser msg ?n 0 0] by auto
  have all: "m_samples (delegates u h) = drop ?n ?xs" "eos \<longleftrightarrow> length ?xs < ?n \<and> m_isEos (delegates s h)"
    using pull_loop_complete [OF loop assms(3,4,5)] by simp_all
  obtain m took refused where m: "m \<le> ?n" "pull_effect parser (pb_sourceId msg) h s m took refused u" "added = length took"
    using pull_loop_effect [OF loop] by auto
  then have "drop m ?xs = drop ?n ?xs" using all(1) by (simp add: pull_effect_def)
  then have taken: "take m ?xs = take ?n ?xs"
    by (metis append_same_eq append_take_drop_id)
  have "length took = length (filter mappable (take ?n ?xs))"
    using m(2) unfolding pull_effect_def taken by (metis length_map)
  then have added: "added = 0 \<longleftrightarrow> \<not> list_ex mappable (take ?n ?xs)"
    using m(3) by (simp add: list_ex_iff filter_empty_conv)
  have "live u" "queueMessages u = queueMessages s"
    using m(2) assms(1) by (auto simp: pull_effect_def live_def)
  then show ?thesis
    using handle_pull_loop [OF loop] all added
    by (auto simp: live_post pull_status_def)
qed

theorem pull_answers_witness:
  "\<exists>t. handle_PullBufferMessage good_env AudioBufferParser 0 (data_request 5) data_player = Some t \<and>
     m_samples (delegates t 0) = [] \<and> queueMessages t = [HaveDataMessage MSS_EOS 1 9]"
  using pull_answers [of data_player 0 good_env "data_request 5" AudioBufferParser]
  by (simp add: data_request_def good_env_def)

lemma demo_player_sources [simp]:
  "find_key (m_attachedSources (demo_player cst sst ps c n)) 1 = Some ((new_source MST_AUDIO 0)\<lparr>m_state := sst\<rparr>)"
  "find_key (m_attachedSources (demo_player cst sst ps c n)) 5 = None"
  "m_flushAndDataSynchronizer (demo_player cst sst ps c n) = []"
  by (simp_all add: demo_player_def client.defs GStreamerMSEMediaPlayerClient_def)

text \<open>
  C18. A flush of a source that is not attached is recorded but never ends by itself: nothing is
  sent to the server, the synchronizer reports a flush in progress, every position update is
  dropped, and a completion message for that source is ignored.
\<close>

theorem flush_unattached_never_completes:
  assumes "distinct (keys (m_flushAndDataSynchronizer s))"
    and "find_key (m_attachedSources s) sid = None"
  shows "let t = flush e sid r s
    in calls t = calls s \<and> isAnySourceFlushing (m_flushAndDataSynchronizer t) \<and>
       notifyPlaybackInfo info t = t \<and> handleSourceFlushed sid t = t"
proof -
  have t: "calls (flush e sid r s) = calls s" "m_attachedSources (flush e sid r s) = m_attachedSources s"
    "m_flushAndDataSynchronizer (flush e sid r s) = notifyFlushStarted sid (m_flushAndDataSynchronizer s)"
    using assms(2) by (simp_all add: flush_def in_loop_def flush_in_loop_def edit_sync_def)
  then show ?thesis
    using flushing_after_start [OF assms(1)] assms(2)
    by (simp add: notifyPlaybackInfo_def handleSourceFlushed_def Let_def)
qed

theorem flush_unattached_never_completes_witness:
  "let t = flush good_env 5 True (demo_player CS_PLAYING CS_PLAYING PS_PLAYING GST_STATE_PLAYING GST_STATE_PLAYING)
   in isAnySourceFlushing (m_flushAndDataSynchronizer t) \<and> handleSourceFlushed 5 t = t"
  using flush_unattached_never_completes
      [of "demo_player CS_PLAYING CS_PLAYING PS_PLAYING GST_STATE_PLAYING GST_STATE_PLAYING" 5 good_env True]
  by (simp add: Let_def)

text \<open>
  The video rectangle that was set is the one that is read. Setting the text of any rectangle
  of unsigned coordinates sends it to the server once, and reading the property gives that text back.
\<close>

theorem video_rectangle_roundtrip:
  assumes "live s" and "m_clientBackend s" "m_backendCreated s"
  shows "let t = setVideoRectangle (sprintf_rectangle x y w h) s
    in fst (getVideoRectangle t) = sprintf_rectangle x y w h \<and> calls t = calls s @ [B_setVideoWindow x y w h]"
proof -
  have "sprintf_rectangle x y w h \<noteq> []" by (simp add: sprintf_rectangle_def)
  with assms show ?thesis
    by (simp add: Let_def setVideoRectangle_def getVideoRectangle_def in_loop_def live_def call_def
        rectangle_roundtrip)
qed

lemma demo_player_created:
  "live ((demo_player cst sst ps c n)\<lparr>m_backendCreated := b\<rparr>)" "m_clientBackend (demo_player cst sst ps c n)"
  by (simp_all add: demo_player_def client.defs GStreamerMSEMediaPlayerClient_def live_def)

theorem video_rectangle_roundtrip_witness:
  "let t = setVideoRectangle (sprintf_rectangle 1 2 30 40)
         ((demo_player CS_PLAYING CS_PLAYING PS_PLAYING GST_STATE_PLAYING GST_STATE_PLAYING)\<lparr>m_backendCreated := True\<rparr>)
   in fst (getVideoRectangle t) = sprintf_rectangle 1 2 30 40 \<and> calls t = [B_setVideoWindow 1 2 30 40]"
  using video_rectangle_roundtrip
      [of "(demo_player CS_PLAYING CS_PLAYING PS_PLAYING GST_STATE_PLAYING GST_STATE_PLAYING)\<lparr>m_backendCreated := True\<rparr>"
        1 2 30 40]
  by (simp add: Let_def demo_player_created)

end
