(* ===== verification/Client_Backend.thy ===== *)
theory Client_Backend
  imports Player_State
begin

text \<open>
  \<open>MediaPlayerClientBackend.h\<close>: the object between a client and its media pipeline. It owns the pipeline
  of the Rialto client library and passes every call on to it, without looking whether there is one.

  The pipeline is not part of the repository. It is a value of a type \<open>'p\<close> with a function that says, for
  every call of \<open>IMediaPipeline\<close>, what it returns and what becomes of the pipeline; the factory is a function
  from the largest video size to a pipeline, or \<open>None\<close> for the null pointer. A call through a null pointer
  has the value \<open>None\<close>.

  \<open>backend_do\<close> is the method that stands for a \<open>backend_call\<close> in the record of a client, so that
  \<open>backend_replay\<close> plays the calls of a client on an object of the class.
\<close>

section \<open>The pipeline\<close>

datatype MediaType = MSE

datatype pipeline_call =
    P_load MediaType string string bool | P_attachSource MediaSource | P_removeSource int
  | P_allSourcesAttached | P_play | P_pause | P_stop | P_haveData MediaSourceStatus u32
  | P_setPlaybackRate real | P_setVideoWindow u32 u32 u32 u32 | P_addSegment u32 MediaSegment
  | P_getPosition | P_getDuration | P_setImmediateOutput int bool | P_getImmediateOutput int
  | P_getStats int | P_renderFrame | P_setVolume real u32 EaseType | P_getVolume | P_setMute int bool
  | P_getMute int | P_setTextTrackIdentifier string | P_getTextTrackIdentifier | P_setLowLatency bool
  | P_setSync bool | P_getSync | P_setSyncOff bool | P_setStreamSyncMode int int | P_getStreamSyncMode
  | P_flush int bool | P_setSourcePosition int int bool real u64 | P_setSubtitleOffset int int
  | P_processAudioGap int u32 int bool | P_setBufferingLimit u32 | P_getBufferingLimit
  | P_setUseBuffering bool | P_getUseBuffering | P_switchSource MediaSource

type_synonym ('p, 'r) pipeline = "pipeline_call \<Rightarrow> 'p \<Rightarrow> 'r \<times> 'p"

section \<open>The class\<close>

record 'p backend_object =
  m_mediaPlayerBackend :: "'p option"

type_synonym ('p, 'r) backend_method = "'p backend_object \<Rightarrow> ('r \<times> 'p backend_object) option"

definition MediaPlayerClientBackend :: "'p backend_object" where
  "MediaPlayerClientBackend = \<lparr>m_mediaPlayerBackend = None\<rparr>"

definition createMediaPlayerBackend ::
  "(u32 \<Rightarrow> u32 \<Rightarrow> 'p option) \<Rightarrow> u32 \<Rightarrow> u32 \<Rightarrow> 'p backend_object \<Rightarrow> 'p backend_object" where
  "createMediaPlayerBackend create maxWidth maxHeight b =
     b\<lparr>m_mediaPlayerBackend := create maxWidth maxHeight\<rparr>"

definition isMediaPlayerBackendCreated :: "'p backend_object \<Rightarrow> bool" where
  "isMediaPlayerBackendCreated b = (m_mediaPlayerBackend b \<noteq> None)"

text \<open>\<open>m_mediaPlayerBackend->call\<close>\<close>

definition forward :: "('p, 'r) pipeline \<Rightarrow> pipeline_call \<Rightarrow> ('p, 'r) backend_method" where
  "forward pipe c b =
     (case m_mediaPlayerBackend b of
        None \<Rightarrow> None
      | Some p \<Rightarrow> (case pipe c p of (r, p1) \<Rightarrow> Some (r, b\<lparr>m_mediaPlayerBackend := Some p1\<rparr>)))"

definition backend_attachSource :: "('p, 'r) pipeline \<Rightarrow> MediaSource \<Rightarrow> ('p, 'r) backend_method" where
  "backend_attachSource pipe source = forward pipe (P_attachSource source)"

definition backend_removeSource :: "('p, 'r) pipeline \<Rightarrow> int \<Rightarrow> ('p, 'r) backend_method" where
  "backend_removeSource pipe sourceId = forward pipe (P_removeSource sourceId)"

definition backend_allSourcesAttached :: "('p, 'r) pipeline \<Rightarrow> ('p, 'r) backend_method" where
  "backend_allSourcesAttached pipe = forward pipe P_allSourcesAttached"

definition backend_load ::
  "('p, 'r) pipeline \<Rightarrow> MediaType \<Rightarrow> string \<Rightarrow> string \<Rightarrow> bool \<Rightarrow> ('p, 'r) backend_method" where
  "backend_load pipe type mimeType url isLive = forward pipe (P_load type mimeType url isLive)"

definition backend_play :: "('p, 'r) pipeline \<Rightarrow> ('p, 'r) backend_method" where
  "backend_play pipe = forward pipe P_play"

definition backend_pause :: "('p, 'r) pipeline \<Rightarrow> ('p, 'r) backend_method" where
  "backend_pause pipe = forward pipe P_pause"

definition backend_stop :: "('p, 'r) pipeline \<Rightarrow> ('p, 'r) backend_method" where
  "backend_stop pipe = forward pipe P_stop"

definition backend_haveData ::
  "('p, 'r) pipeline \<Rightarrow> MediaSourceStatus \<Rightarrow> u32 \<Rightarrow> ('p, 'r) backend_method" where
  "backend_haveData pipe status needDataRequestId = forward pipe (P_haveData status needDataRequestId)"

definition backend_setPlaybackRate :: "('p, 'r) pipeline \<Rightarrow> real \<Rightarrow> ('p, 'r) backend_method" where
  "backend_setPlaybackRate pipe rate = forward pipe (P_setPlaybackRate rate)"

definition backend_setVideoWindow ::
  "('p, 'r) pipeline \<Rightarrow> u32 \<Rightarrow> u32 \<Rightarrow> u32 \<Rightarrow> u32 \<Rightarrow> ('p, 'r) backend_method" where
  "backend_setVideoWindow pipe x y width height = forward pipe (P_setVideoWindow x y width height)"

definition backend_addSegment ::
  "('p, 'r) pipeline \<Rightarrow> u32 \<Rightarrow> MediaSegment \<Rightarrow> ('p, 'r) backend_method" where
  "backend_addSegment pipe needDataRequestId mediaSegment = forward pipe (P_addSegment needDataRequestId mediaSegment)"

definition backend_getPosition :: "('p, 'r) pipeline \<Rightarrow> ('p, 'r) backend_method" where
  "backend_getPosition pipe = forward pipe P_getPosition"

definition backend_getDuration :: "('p, 'r) pipeline \<Rightarrow> ('p, 'r) backend_method" where
  "backend_getDuration pipe = forward pipe P_getDuration"

definition backend_setImmediateOutput :: "('p, 'r) pipeline \<Rightarrow> int \<Rightarrow> bool \<Rightarrow> ('p, 'r) backend_method" where
  "backend_setImmediateOutput pipe sourceId immediateOutput = forward pipe (P_setImmediateOutput sourceId immediateOutput)"

definition backend_getImmediateOutput :: "('p, 'r) pipeline \<Rightarrow> int \<Rightarrow> ('p, 'r) backend_method" where
  "backend_getImmediateOutput pipe sourceId = forward pipe (P_getImmediateOutput sourceId)"

definition backend_getStats :: "('p, 'r) pipeline \<Rightarrow> int \<Rightarrow> ('p, 'r) backend_method" where
  "backend_getStats pipe sourceId = forward pipe (P_getStats sourceId)"

definition backend_renderFrame :: "('p, 'r) pipeline \<Rightarrow> ('p, 'r) backend_method" where
  "backend_renderFrame pipe = forward pipe P_renderFrame"

definition backend_setVolume ::
  "('p, 'r) pipeline \<Rightarrow> real \<Rightarrow> u32 \<Rightarrow> EaseType \<Rightarrow> ('p, 'r) backend_method" where
  "backend_setVolume pipe targetVolume volumeDuration easeType =
     forward pipe (P_setVolume targetVolume volumeDuration easeType)"

definition backend_getVolume :: "('p, 'r) pipeline \<Rightarrow> ('p, 'r) backend_method" where
  "backend_getVolume pipe = forward pipe P_getVolume"

definition backend_setMute :: "('p, 'r) pipeline \<Rightarrow> bool \<Rightarrow> int \<Rightarrow> ('p, 'r) backend_method" where
  "backend_setMute pipe mute sourceId = forward pipe (P_setMute sourceId mute)"

definition backend_getMute :: "('p, 'r) pipeline \<Rightarrow> int \<Rightarrow> ('p, 'r) backend_method" where
  "backend_getMute pipe sourceId = forward pipe (P_getMute sourceId)"

definition backend_setTextTrackIdentifier :: "('p, 'r) pipeline \<Rightarrow> string \<Rightarrow> ('p, 'r) backend_method" where
  "backend_setTextTrackIdentifier pipe textTrackIdentifier = forward pipe (P_setTextTrackIdentifier textTrackIdentifier)"

definition backend_getTextTrackIdentifier :: "('p, 'r) pipeline \<Rightarrow> ('p, 'r) backend_method" where
  "backend_getTextTrackIdentifier pipe = forward pipe P_getTextTrackIdentifier"

definition backend_setLowLatency :: "('p, 'r) pipeline \<Rightarrow> bool \<Rightarrow> ('p, 'r) backend_method" where
  "backend_setLowLatency pipe lowLatency = forward pipe (P_setLowLatency lowLatency)"

definition backend_setSync :: "('p, 'r) pipeline \<Rightarrow> bool \<Rightarrow> ('p, 'r) backend_method" where
  "backend_setSync pipe sync = forward pipe (P_setSync sync)"

definition backend_getSync :: "('p, 'r) pipeline \<Rightarrow> ('p, 'r) backend_method" where
  "backend_getSync pipe = forward pipe P_getSync"

definition backend_setSyncOff :: "('p, 'r) pipeline \<Rightarrow> bool \<Rightarrow> ('p, 'r) backend_method" where
  "backend_setSyncOff pipe syncOff = forward pipe (P_setSyncOff syncOff)"

definition backend_setStreamSyncMode :: "('p, 'r) pipeline \<Rightarrow> int \<Rightarrow> int \<Rightarrow> ('p, 'r) backend_method" where
  "backend_setStreamSyncMode pipe sourceId streamSyncMode = forward pipe (P_setStreamSyncMode sourceId streamSyncMode)"

definition backend_getStreamSyncMode :: "('p, 'r) pipeline \<Rightarrow> ('p, 'r) backend_method" where
  "backend_getStreamSyncMode pipe = forward pipe P_getStreamSyncMode"

definition backend_flush :: "('p, 'r) pipeline \<Rightarrow> int \<Rightarrow> bool \<Rightarrow> ('p, 'r) backend_method" where
  "backend_flush pipe sourceId resetTime = forward pipe (P_flush sourceId resetTime)"

definition backend_setSourcePosition ::
  "('p, 'r) pipeline \<Rightarrow> int \<Rightarrow> int \<Rightarrow> bool \<Rightarrow> real \<Rightarrow> u64 \<Rightarrow> ('p, 'r) backend_method" where
  "backend_setSourcePosition pipe sourceId position resetTime appliedRate stopPosition =
     forward pipe (P_setSourcePosition sourceId position resetTime appliedRate stopPosition)"

definition backend_setSubtitleOffset :: "('p, 'r) pipeline \<Rightarrow> int \<Rightarrow> int \<Rightarrow> ('p, 'r) backend_method" where
  "backend_setSubtitleOffset pipe sourceId position = forward pipe (P_setSubtitleOffset sourceId position)"

definition backend_processAudioGap ::
  "('p, 'r) pipeline \<Rightarrow> int \<Rightarrow> u32 \<Rightarrow> int \<Rightarrow> bool \<Rightarrow> ('p, 'r) backend_method" where
  "backend_processAudioGap pipe position duration discontinuityGap audioAac =
     forward pipe (P_processAudioGap position duration discontinuityGap audioAac)"

definition backend_setBufferingLimit :: "('p, 'r) pipeline \<Rightarrow> u32 \<Rightarrow> ('p, 'r) backend_method" where
  "backend_setBufferingLimit pipe limitBufferingMs = forward pipe (P_setBufferingLimit limitBufferingMs)"

definition backend_getBufferingLimit :: "('p, 'r) pipeline \<Rightarrow> ('p, 'r) backend_method" where
  "backend_getBufferingLimit pipe = forward pipe P_getBufferingLimit"

definition backend_setUseBuffering :: "('p, 'r) pipeline \<Rightarrow> bool \<Rightarrow> ('p, 'r) backend_method" where
  "backend_setUseBuffering pipe useBuffering = forward pipe (P_setUseBuffering useBuffering)"

definition backend_getUseBuffering :: "('p, 'r) pipeline \<Rightarrow> ('p, 'r) backend_method" where
  "backend_getUseBuffering pipe = forward pipe P_getUseBuffering"

definition backend_switchSource :: "('p, 'r) pipeline \<Rightarrow> MediaSource \<Rightarrow> ('p, 'r) backend_method" where
  "backend_switchSource pipe source = forward pipe (P_switchSource source)"

section \<open>The calls of a client\<close>

text \<open>The client always loads the same url.\<close>

fun backend_do ::
  "('p, 'r) pipeline \<Rightarrow> (u32 \<Rightarrow> u32 \<Rightarrow> 'p option) \<Rightarrow> backend_call \<Rightarrow> 'p backend_object \<Rightarrow> 'p backend_object option" where
  "backend_do pipe create (B_create w h) b = Some (createMediaPlayerBackend create w h b)"
| "backend_do pipe create (B_load isLive) b = map_option snd (backend_load pipe MSE '''' ''mse://1'' isLive b)"
| "backend_do pipe create (B_attachSource src) b = map_option snd (backend_attachSource pipe src b)"
| "backend_do pipe create (B_removeSource k) b = map_option snd (backend_removeSource pipe k b)"
| "backend_do pipe create B_allSourcesAttached b = map_option snd (backend_allSourcesAttached pipe b)"
| "backend_do pipe create B_play b = map_option snd (backend_play pipe b)"
| "backend_do pipe create B_pause b = map_option snd (backend_pause pipe b)"
| "backend_do pipe create B_stop b = map_option snd (backend_stop pipe b)"
| "backend_do pipe create (B_haveData st i) b = map_option snd (backend_haveData pipe st i b)"
| "backend_do pipe create (B_setPlaybackRate r) b = map_option snd (backend_setPlaybackRate pipe r b)"
| "backend_do pipe create (B_setVideoWindow x y w h) b = map_option snd (backend_setVideoWindow pipe x y w h b)"
| "backend_do pipe create (B_addSegment i seg st) b = map_option snd (backend_addSegment pipe i seg b)"
| "backend_do pipe create (B_setImmediateOutput k v) b = map_option snd (backend_setImmediateOutput pipe k v b)"
| "backend_do pipe create B_renderFrame b = map_option snd (backend_renderFrame pipe b)"
| "backend_do pipe create (B_setVolume v d t) b = map_option snd (backend_setVolume pipe v d t b)"
| "backend_do pipe create (B_setMute m k) b = map_option snd (backend_setMute pipe m k b)"
| "backend_do pipe create (B_setTextTrackIdentifier t) b = map_option snd (backend_setTextTrackIdentifier pipe t b)"
| "backend_do pipe create (B_setLowLatency v) b = map_option snd (backend_setLowLatency pipe v b)"
| "backend_do pipe create (B_setSync v) b = map_option snd (backend_setSync pipe v b)"
| "backend_do pipe create (B_setSyncOff v) b = map_option snd (backend_setSyncOff pipe v b)"
| "backend_do pipe create (B_setStreamSyncMode k m) b = map_option snd (backend_setStreamSyncMode pipe k m b)"
| "backend_do pipe create (B_flush k r) b = map_option snd (backend_flush pipe k r b)"
| "backend_do pipe create (B_setSourcePosition k p r a st) b = map_option snd (backend_setSourcePosition pipe k p r a st b)"
| "backend_do pipe create (B_setSubtitleOffset k p) b = map_option snd (backend_setSubtitleOffset pipe k p b)"
| "backend_do pipe create (B_processAudioGap p d g a) b = map_option snd (backend_processAudioGap pipe p d g a b)"
| "backend_do pipe create (B_setBufferingLimit n) b = map_option snd (backend_setBufferingLimit pipe n b)"
| "backend_do pipe create (B_setUseBuffering v) b = map_option snd (backend_setUseBuffering pipe v b)"
| "backend_do pipe create (B_switchSource src) b = map_option snd (backend_switchSource pipe src b)"

fun backend_replay ::
  "('p, 'r) pipeline \<Rightarrow> (u32 \<Rightarrow> u32 \<Rightarrow> 'p option) \<Rightarrow> backend_call list \<Rightarrow> 'p backend_object \<Rightarrow> 'p backend_object option" where
  "backend_replay pipe create [] b = Some b"
| "backend_replay pipe create (c # cs) b =
     (case backend_do pipe create c b of None \<Rightarrow> None | Some b1 \<Rightarrow> backend_replay pipe create cs b1)"

section \<open>Sessions\<close>

text \<open>What the pipeline should see of a call.\<close>

fun pipeline_view :: "backend_call \<Rightarrow> pipeline_call option" where
  "pipeline_view (B_create w h) = None"
| "pipeline_view (B_load isLive) = Some (P_load MSE '''' ''mse://1'' isLive)"
| "pipeline_view (B_attachSource src) = Some (P_attachSource src)"
| "pipeline_view (B_removeSource k) = Some (P_removeSource k)"
| "pipeline_view B_allSourcesAttached = Some P_allSourcesAttached"
| "pipeline_view B_play = Some P_play"
| "pipeline_view B_pause = Some P_pause"
| "pipeline_view B_stop = Some P_stop"
| "pipeline_view (B_haveData st i) = Some (P_haveData st i)"
| "pipeline_view (B_setPlaybackRate r) = Some (P_setPlaybackRate r)"
| "pipeline_view (B_setVideoWindow x y w h) = Some (P_setVideoWindow x y w h)"
| "pipeline_view (B_addSegment i seg st) = Some (P_addSegment i seg)"
| "pipeline_view (B_setImmediateOutput k v) = Some (P_setImmediateOutput k v)"
| "pipeline_view B_renderFrame = Some P_renderFrame"
| "pipeline_view (B_setVolume v d t) = Some (P_setVolume v d t)"
| "pipeline_view (B_setMute m k) = Some (P_setMute k m)"
| "pipeline_view (B_setTextTrackIdentifier t) = Some (P_setTextTrackIdentifier t)"
| "pipeline_view (B_setLowLatency v) = Some (P_setLowLatency v)"
| "pipeline_view (B_setSync v) = Some (P_setSync v)"
| "pipeline_view (B_setSyncOff v) = Some (P_setSyncOff v)"
| "pipeline_view (B_setStreamSyncMode k m) = Some (P_setStreamSyncMode k m)"
| "pipeline_view (B_flush k r) = Some (P_flush k r)"
| "pipeline_view (B_setSourcePosition k p r a st) = Some (P_setSourcePosition k p r a st)"
| "pipeline_view (B_setSubtitleOffset k p) = Some (P_setSubtitleOffset k p)"
| "pipeline_view (B_processAudioGap p d g a) = Some (P_processAudioGap p d g a)"
| "pipeline_view (B_setBufferingLimit n) = Some (P_setBufferingLimit n)"
| "pipeline_view (B_setUseBuffering v) = Some (P_setUseBuffering v)"
| "pipeline_view (B_switchSource src) = Some (P_switchSource src)"

fun creates :: "backend_call \<Rightarrow> bool" where
  "creates (B_create w h) = True"
| "creates _ = False"

text \<open>The calls of a session: the pipeline is created and loaded, once, before everything else.\<close>

definition session_calls :: "backend_call list \<Rightarrow> bool" where
  "session_calls cs \<longleftrightarrow>
     (\<exists>w h live more. cs = B_create w h # B_load live # more \<and> (\<forall>c \<in> set more. \<not> creates c))"

definition serve :: "('p, 'r) pipeline \<Rightarrow> pipeline_call list \<Rightarrow> 'p \<Rightarrow> 'p" where
  "serve pipe cs p = fold (\<lambda>c p. snd (pipe c p)) cs p"

lemma serve_Cons [simp]: "serve pipe (c # cs) p = serve pipe cs (snd (pipe c p))"
  by (simp add: serve_def)

lemma forward_live [simp]:
  "map_option snd (forward pipe c \<lparr>m_mediaPlayerBackend = Some p\<rparr>) = Some \<lparr>m_mediaPlayerBackend = Some (snd (pipe c p))\<rparr>"
  by (simp add: forward_def split: prod.splits)

lemmas backend_methods =
  backend_attachSource_def backend_removeSource_def backend_allSourcesAttached_def backend_load_def
  backend_play_def backend_pause_def backend_stop_def backend_haveData_def backend_setPlaybackRate_def
  backend_setVideoWindow_def backend_addSegment_def backend_setImmediateOutput_def backend_renderFrame_def
  backend_setVolume_def backend_setMute_def backend_setTextTrackIdentifier_def backend_setLowLatency_def
  backend_setSync_def backend_setSyncOff_def backend_setStreamSyncMode_def backend_flush_def
  backend_setSourcePosition_def backend_setSubtitleOffset_def backend_processAudioGap_def
  backend_setBufferingLimit_def backend_setUseBuffering_def backend_switchSource_def

lemma backend_do_live:
  "\<not> creates c \<Longrightarrow> \<exists>v. pipeline_view c = Some v \<and> backend_do pipe create c \<lparr>m_mediaPlayerBackend = Some p\<rparr> =
     Some \<lparr>m_mediaPlayerBackend = Some (snd (pipe v p))\<rparr>"
  by (cases c) (simp_all add: backend_methods)

lemma backend_replay_live:
  "\<forall>c \<in> set cs. \<not> creates c \<Longrightarrow> backend_replay pipe create cs \<lparr>m_mediaPlayerBackend = Some p\<rparr> =
     Some \<lparr>m_mediaPlayerBackend = Some (serve pipe (List.map_filter pipeline_view cs) p)\<rparr>"
proof (induction cs arbitrary: p)
  case Nil
  then show ?case by (simp add: serve_def List.map_filter_def)
next
  case (Cons c cs)
  then obtain v where "pipeline_view c = Some v"
    "backend_do pipe create c \<lparr>m_mediaPlayerBackend = Some p\<rparr> = Some \<lparr>m_mediaPlayerBackend = Some (snd (pipe v p))\<rparr>"
    using backend_do_live [of c pipe create p] by auto
  with Cons show ?case by (simp add: List.map_filter_def)
qed

lemma session_replay:
  assumes "\<forall>c \<in> set rest. \<not> creates c" "create w h = Some p"
  shows "backend_replay pipe create (B_create w h # B_load is_live # rest) MediaPlayerClientBackend =
    Some \<lparr>m_mediaPlayerBackend =
      Some (serve pipe (P_load MSE '''' ''mse://1'' is_live # List.map_filter pipeline_view rest) p)\<rparr>"
  using assms
  by (simp add: createMediaPlayerBackend_def MediaPlayerClientBackend_def backend_load_def backend_replay_live)

end
