(* ===== verification/Client_Teardown.thy ===== *)
theory Client_Teardown
  imports Client_Frame Client_Data Client_Backend
begin

text \<open>
  The end of a session: \<open>stopStreaming\<close> and \<open>destroyClientBackend\<close>. The calls made on the backend
  only grow; after \<open>stopStreaming\<close> the queue refuses calls and no message or pull request is left, so
  that nothing can reach the backend any more, which \<open>destroyClientBackend\<close> then resets. Of the operations
  on a client in use none creates the pipeline again.
\<close>

section \<open>The calls grow\<close>

definition grown :: "backend_call list \<Rightarrow> player \<Rightarrow> bool" where
  "grown cs s \<longleftrightarrow> (\<exists>more. calls s = cs @ more \<and> (\<forall>c \<in> set more. \<not> creates c))"

lemma grown_refl [simp]: "grown (calls s) s"
  by (simp add: grown_def)

lemma grown_call [simp]: "grown cs s \<Longrightarrow> \<not> creates b \<Longrightarrow> grown cs (call b s)"
  by (auto simp: grown_def)

lemma grown_same [simp]:
  "grown cs (upd_delegate h f s) = grown cs s" "grown cs (post m s) = grown cs s"
  "grown cs (edit_source k g s) = grown cs s" "grown cs (edit_sync u s) = grown cs s"
  "grown cs (set_source_state k st s) = grown cs s" "grown cs (for_delegates f s) = grown cs s"
  by (simp_all add: grown_def set_source_state_def)

lemma grown_updates [simp]:
  "grown cs (s\<lparr>m_clientState := c\<rparr>) = grown cs s" "grown cs (s\<lparr>m_serverPlaybackState := p\<rparr>) = grown cs s"
  "grown cs (s\<lparr>wasPlayingBeforeEos := b\<rparr>) = grown cs s" "grown cs (s\<lparr>m_attachedSources := xs\<rparr>) = grown cs s"
  "grown cs (s\<lparr>m_playbackInfo := i\<rparr>) = grown cs s" "grown cs (s\<lparr>m_duration := d\<rparr>) = grown cs s"
  "grown cs (s\<lparr>queueMessages := q\<rparr>) = grown cs s" "grown cs (s\<lparr>queueAccepting := b\<rparr>) = grown cs s"
  "grown cs (s\<lparr>queueRunning := b\<rparr>) = grown cs s" "grown cs (s\<lparr>m_streamingStopped := b\<rparr>) = grown cs s"
  "grown cs (s\<lparr>m_clientBackend := b\<rparr>) = grown cs s" "grown cs (s\<lparr>m_backendCreated := b\<rparr>) = grown cs s"
  by (simp_all add: grown_def)

interpretation grown_state: state_prop "grown cs" "\<lambda>_. True"
  by unfold_locales simp_all

lemma grown_play_in_loop [simp]: "grown cs s \<Longrightarrow> grown cs (snd (play_in_loop e k s))"
  by (simp add: play_in_loop_def Let_def split: option.splits)

lemma grown_notify_sources [simp]: "grown cs s \<Longrightarrow> grown cs (notify_sources e st ks s)"
  by (induction ks arbitrary: s) (simp_all add: Let_def handleStateChanged_def split: option.splits)

lemma grown_state_change [simp]: "grown cs s \<Longrightarrow> grown cs (handlePlaybackStateChange e st s)"
  by (simp add: handlePlaybackStateChange_def Let_def)

lemma grown_handle_message: "grown cs s \<Longrightarrow> grown cs (handle_message e m s)"
proof (cases m)
  case (NeedDataMessage k n i)
  assume "grown cs s"
  then show ?thesis
    unfolding NeedDataMessage
    by (intro need_data_cases [where P = "grown cs"]) (simp_all add: grown_state.p_requestPullBuffer)
qed (simp_all add: grown_state.p_events handleSourceFlushed_def split: option.splits)

lemma grown_drain_messages: "grown cs s \<Longrightarrow> grown cs (drain_messages e ms s)"
  by (induction ms arbitrary: s) (simp_all add: grown_handle_message)

lemma grown_stopStreaming: "grown cs s \<Longrightarrow> grown cs (stopStreaming e s)"
  by (simp add: stopStreaming_def Let_def grown_state.p_stop_pullers grown_drain_messages)

lemma grown_other_updates [simp]:
  "grown cs (s\<lparr>m_wasAllSourcesAttachedSent := b\<rparr>) = grown cs s" "grown cs (s\<lparr>m_audioStreams := n\<rparr>) = grown cs s"
  "grown cs (s\<lparr>m_videoStreams := n\<rparr>) = grown cs s" "grown cs (s\<lparr>m_subtitleStreams := n\<rparr>) = grown cs s"
  "grown cs (s\<lparr>m_videoRectangle := r\<rparr>) = grown cs s"
  by (simp_all add: grown_def)

lemma grown_sendAllSourcesAttached [simp]:
  "grown cs s \<Longrightarrow> grown cs (sendAllSourcesAttachedIfPossibleInternal s)"
  by (simp add: sendAllSourcesAttachedIfPossibleInternal_def Let_def)

lemma grown_sources [simp]:
  "grown cs s \<Longrightarrow> grown cs (snd (attachSource_in_loop e src h s))"
  "grown cs s \<Longrightarrow> grown cs (removeSource_in_loop e k s)" "grown cs s \<Longrightarrow> grown cs (flush_in_loop e k r s)"
  "grown cs s \<Longrightarrow> grown cs (snd (pause_in_loop k s))"
  by (simp_all add: attachSource_in_loop_def pause_in_loop_def
      removeSource_in_loop_def flush_in_loop_def Let_def grown_state.p_drain_puller split: option.splits prod.splits)

lemma grown_playback_exec: "ordinary (Playback op) \<Longrightarrow> grown cs s \<Longrightarrow> grown cs (playback_exec op s)"
  by (cases op) (simp_all add: client_op_defs in_loop_def Let_def split: option.splits)

lemma grown_source_exec: "grown cs s \<Longrightarrow> grown cs (source_exec op s)"
  by (cases op) (simp_all add: client_op_defs in_loop_def)

lemma grown_property_exec: "grown cs s \<Longrightarrow> grown cs (property_exec op s)"
  by (cases op) (simp_all add: client_op_defs in_loop_def split: option.splits)

lemma grown_notify_exec: "grown cs s \<Longrightarrow> grown cs (notify_exec op s)"
  by (cases op) (simp_all add: client_op_defs)

lemma grown_thread_exec: "grown cs s \<Longrightarrow> grown cs (thread_exec op s)"
  by (cases op)
    (simp_all add: loop_round_def grown_handle_message grown_state.p_puller_step grown_stopStreaming
      split: list.splits)

lemma grown_exec: "ordinary op \<Longrightarrow> grown cs s \<Longrightarrow> grown cs (client_exec op s)"
  by (cases op)
    (simp_all add: grown_playback_exec grown_source_exec grown_property_exec grown_notify_exec
       grown_thread_exec)

lemma session_grown: "session_calls (calls s) \<Longrightarrow> grown (calls s) t \<Longrightarrow> session_calls (calls t)"
  by (auto simp: session_calls_def grown_def)

section \<open>A silent client\<close>

definition no_requests :: "player \<Rightarrow> int \<Rightarrow> bool" where
  "no_requests s k \<longleftrightarrow> (\<forall>a. find_key (m_attachedSources s) k = Some a \<longrightarrow> p_queue (m_bufferPuller a) = [])"

definition silent :: "player \<Rightarrow> bool" where
  "silent s \<longleftrightarrow> \<not> queueRunning s \<and> queueMessages s = [] \<and> (\<forall>k. no_requests s k)"

text \<open>Pullers that are drained when the queue refuses messages post nothing.\<close>

definition closed_with :: "(int \<times> AttachedSource) list \<Rightarrow> player \<Rightarrow> bool" where
  "closed_with xs s \<longleftrightarrow> \<not> queueRunning s \<and> queueMessages s = [] \<and> m_attachedSources s = xs"

interpretation closed_pull: pull_prop "closed_with xs" "\<lambda>_. True"
  by unfold_locales (simp_all add: closed_with_def post_def)

lemma edit_key_absent: "find_key m k = None \<Longrightarrow> edit_key k f m = m"
  by (induction m) (auto split: if_splits)

definition stopped_source :: "AttachedSource \<Rightarrow> AttachedSource" where
  "stopped_source a = a\<lparr>m_bufferPuller := (m_bufferPuller a)\<lparr>p_running := False, p_queue := []\<rparr>\<rparr>"

lemma closed_stop_puller:
  "closed_with xs s \<Longrightarrow> closed_with (edit_key k stopped_source xs) (stop_puller e k s)"
proof (cases "find_key xs k")
  case None
  assume "closed_with xs s"
  with None show ?thesis
    by (auto simp: stop_puller_def closed_with_def edit_key_absent split: option.splits)
next
  case (Some a)
  assume c: "closed_with xs s"
  then have "find_key (m_attachedSources s) k = Some a" using Some by (simp add: closed_with_def)
  with closed_pull.p_drain_puller [OF c] show ?thesis
    by (simp add: stop_puller_def closed_with_def stopped_source_def [abs_def])
qed

lemma closed_stop_pullers:
  "closed_with xs s \<Longrightarrow> closed_with (fold (\<lambda>k. edit_key k stopped_source) ks xs) (fold (stop_puller e) ks s)"
  by (induction ks arbitrary: xs s) (simp_all add: closed_stop_puller)

lemma find_fold_edit:
  "find_key (fold (\<lambda>k. edit_key k stopped_source) ks xs) k =
     (if k \<in> set ks then map_option stopped_source (find_key xs k) else find_key xs k)"
proof (induction ks arbitrary: xs)
  case (Cons j ks)
  have "stopped_source (stopped_source a) = stopped_source a" for a by (simp add: stopped_source_def)
  with Cons show ?case by (simp add: option.map_comp o_def)
qed simp

text \<open>Messages that are drained find a queue that refuses messages.\<close>

definition refusing :: "player \<Rightarrow> bool" where
  "refusing s \<longleftrightarrow> \<not> queueAccepting s \<and> queueMessages s = []"

lemma refusing_post [simp]: "refusing s \<Longrightarrow> refusing (post m s)"
  by (simp add: refusing_def post_def)

lemma refusing_same [simp]:
  "refusing (upd_delegate h f s) = refusing s" "refusing (call b s) = refusing s"
  "refusing (edit_source k g s) = refusing s" "refusing (edit_sync u s) = refusing s"
  "refusing (set_source_state k st s) = refusing s"
  "refusing (s\<lparr>m_clientState := c\<rparr>) = refusing s" "refusing (s\<lparr>m_serverPlaybackState := p\<rparr>) = refusing s"
  "refusing (s\<lparr>wasPlayingBeforeEos := w\<rparr>) = refusing s" "refusing (s\<lparr>m_attachedSources := xs\<rparr>) = refusing s"
  "refusing (s\<lparr>m_playbackInfo := i\<rparr>) = refusing s" "refusing (s\<lparr>m_duration := d\<rparr>) = refusing s"
  by (simp_all add: refusing_def set_source_state_def)

interpretation refusing_state: state_prop refusing "\<lambda>_. True"
  by unfold_locales simp_all

lemma refusing_play_in_loop [simp]: "refusing s \<Longrightarrow> refusing (snd (play_in_loop e k s))"
  by (simp add: play_in_loop_def Let_def split: option.splits)

lemma refusing_notify_sources [simp]: "refusing s \<Longrightarrow> refusing (notify_sources e st ks s)"
  by (induction ks arbitrary: s) (simp_all add: Let_def handleStateChanged_def split: option.splits)

lemma refusing_state_change [simp]: "refusing s \<Longrightarrow> refusing (handlePlaybackStateChange e st s)"
  by (simp add: handlePlaybackStateChange_def Let_def refusing_state.p_for_delegates)

lemma refusing_handle_message: "refusing s \<Longrightarrow> refusing (handle_message e m s)"
proof (cases m)
  case (NeedDataMessage k n i)
  assume "refusing s"
  then show ?thesis
    unfolding NeedDataMessage
    by (intro need_data_cases [where P = refusing]) (simp_all add: refusing_state.p_requestPullBuffer)
qed (simp_all add: refusing_state.p_events handleSourceFlushed_def split: option.splits)

lemma refusing_drain_messages: "refusing s \<Longrightarrow> refusing (drain_messages e ms s)"
  by (induction ms arbitrary: s) (simp_all add: refusing_handle_message)

lemma stopStreaming_silent:
  assumes "queueRunning s" "\<not> m_streamingStopped s"
  shows "silent (stopStreaming e s)"
proof -
  define s1 where "s1 = (drain_messages e (queueMessages s) (s\<lparr>queueAccepting := False, queueMessages := []\<rparr>))
                             \<lparr>queueRunning := False\<rparr>"
  let ?xs = "m_attachedSources s1"
  have "closed_with ?xs s1"
    using refusing_drain_messages [of "s\<lparr>queueAccepting := False, queueMessages := []\<rparr>" e "queueMessages s"]
    by (simp add: s1_def closed_with_def refusing_def)
  from closed_stop_pullers [OF this, of "keys ?xs" e]
  have c: "closed_with (fold (\<lambda>k. edit_key k stopped_source) (keys ?xs) ?xs) (fold (stop_puller e) (keys ?xs) s1)" .
  have "p_queue (m_bufferPuller a) = []"
    if "find_key (fold (\<lambda>k. edit_key k stopped_source) (keys ?xs) ?xs) k = Some a" for k a
    using that unfolding find_fold_edit in_set_keys_conv
    by (auto simp: stopped_source_def split: if_splits)
  with c have "silent (fold (stop_puller e) (keys ?xs) s1)"
    by (simp add: silent_def closed_with_def no_requests_def)
  with assms show ?thesis
    by (simp add: stopStreaming_def Let_def s1_def silent_def no_requests_def)
qed

text \<open>Nothing that can still happen to a silent client reaches the backend.\<close>

lemma silent_delegate [simp]: "silent (upd_delegate h f s) = silent s"
  by (simp add: silent_def no_requests_def)

lemma silent_edit_sync [simp]:
  "silent (edit_sync u s) = silent s" "m_streamingStopped (edit_sync u s) = m_streamingStopped s"
  by (simp_all add: silent_def no_requests_def) (simp add: edit_sync_def)

lemma silent_puller_step [simp]: "silent s \<Longrightarrow> puller_step e k s = s"
  by (auto simp: silent_def no_requests_def puller_step_def split: option.splits)

lemma silent_loop_round [simp]: "silent s \<Longrightarrow> loop_round e s = s"
  by (simp add: silent_def loop_round_def)

lemma silent_in_loop [simp]: "silent s \<Longrightarrow> in_loop d f s = (d, s)" "silent s \<Longrightarrow> post m s = s"
  by (simp_all add: silent_def in_loop_def post_def)

lemma silent_exec:
  assumes "silent s" "m_streamingStopped s"
  shows "silent (client_exec op s) \<and> calls (client_exec op s) = calls s \<and> m_streamingStopped (client_exec op s)"
proof (cases op)
  case (Playback p)
  with assms show ?thesis by (cases p) (simp_all add: client_op_defs edit_sync_def [symmetric])
next
  case (Sources p)
  with assms show ?thesis by (cases p) (simp_all add: client_op_defs)
next
  case (Property p)
  with assms show ?thesis by (cases p) (simp_all add: client_op_defs)
next
  case (Notify p)
  with assms show ?thesis
    by (cases p) (simp_all add: client_op_defs, simp_all add: edit_sync_def silent_def no_requests_def)
next
  case (Thread p)
  with assms show ?thesis by (cases p) (simp_all add: stopStreaming_def, simp add: upd_delegate_def)
qed

interpretation silent_runs: operation_system client_exec
  "\<lambda>s. silent s \<and> m_streamingStopped s \<and> calls s = cs"
  by unfold_locales (use silent_exec in auto)

section \<open>Properties\<close>

text \<open>
  C21. A stopped client is silent. Once \<open>stopStreaming\<close> has returned for a client that was running,
  whatever is done with it afterwards (methods, notifications of the server, rounds of the worker
  threads, in any number and order), no further call is made on its backend, so that resetting the
  backend pointer is safe.
\<close>

theorem stopped_client_is_silent:
  assumes "queueRunning s" "\<not> m_streamingStopped s"
  shows "calls (fold client_exec ops (destroyClientBackend (stopStreaming e s))) = calls (stopStreaming e s)"
proof -
  have "silent (destroyClientBackend (stopStreaming e s))"
    using stopStreaming_silent [OF assms] by (simp add: destroyClientBackend_def silent_def no_requests_def)
  moreover have "m_streamingStopped (destroyClientBackend (stopStreaming e s))"
    using assms by (simp add: destroyClientBackend_def stopStreaming_def Let_def)
  ultimately show ?thesis
    using silent_runs.inv_run [of _ "calls (stopStreaming e s)" ops] by (simp add: destroyClientBackend_def)
qed

lemma data_player_running: "queueRunning data_player" "\<not> m_streamingStopped data_player"
  by (simp_all add: data_player_def upd_delegate_def demo_player_def client.defs GStreamerMSEMediaPlayerClient_def)

theorem stopped_client_is_silent_witness:
  "calls (fold client_exec
       [Playback (O_pause 1), Notify (O_notifyNeedMediaData 1 3 4), Thread (O_loop_round good_env),
        Thread (O_puller_step good_env 1)]
       (destroyClientBackend (stopStreaming good_env data_player))) =
   calls (stopStreaming good_env data_player)"
  by (rule stopped_client_is_silent [OF data_player_running])

end
