(* ===== verification/Media_Player_Manager.thy ===== *)
theory Media_Player_Manager
  imports Client_Teardown
begin

text \<open>
  \<open>MediaPlayerManager.cpp\<close>: the clients shared by the sinks of one pipeline.

  The record \<open>world\<close> is the state of the process: the static map \<open>m_mediaPlayerClientsInfo\<close> from the
  outermost bin to the client of its pipeline, the client objects and the delegate objects, both by
  handle. Each delegate owns one manager, so the handle of the delegate is also the address of the
  manager, which \<open>controller\<close> holds. The members of a manager are in its delegate.

  A \<open>std::weak_ptr\<close> can be locked while a \<open>std::shared_ptr\<close> to the object exists; the only owners that
  outlive a call are the entries of the map. All methods but \<open>getMediaPlayerClient\<close> take the static
  mutex, and each is one function here.
\<close>

section \<open>State\<close>

record MediaPlayerClientInfo =
  mi_client :: nat
  mi_controller :: "nat option"
  mi_refCount :: u32

record world =
  m_mediaPlayerClientsInfo :: "(nat option \<times> MediaPlayerClientInfo) list"
  w_clients :: "nat \<Rightarrow> client"
  w_next :: nat
  w_handles :: "nat list"
  w_delegates :: "nat \<Rightarrow> delegate"

definition the_manager :: "world \<Rightarrow> nat \<Rightarrow> manager" where
  "the_manager w h = m_mediaPlayerManager (w_delegates w h)"

definition set_manager :: "nat \<Rightarrow> manager \<Rightarrow> world \<Rightarrow> world" where
  "set_manager h m w =
     w\<lparr>w_delegates := (w_delegates w)(h := (w_delegates w h)\<lparr>m_mediaPlayerManager := m\<rparr>)\<rparr>"

text \<open>A method of a client runs on the state of that client and of all delegates.\<close>

definition player_of :: "nat \<Rightarrow> world \<Rightarrow> player" where
  "player_of c w = client.extend (w_clients w c) \<lparr>delegates = w_delegates w\<rparr>"

definition put_player :: "nat \<Rightarrow> player \<Rightarrow> world \<Rightarrow> world" where
  "put_player c s w = w\<lparr>w_clients := (w_clients w)(c := client.truncate s), w_delegates := delegates s\<rparr>"

definition on_client :: "nat \<Rightarrow> (player \<Rightarrow> 'r \<times> player) \<Rightarrow> world \<Rightarrow> 'r \<times> world" where
  "on_client c f w = (let (r, s) = f (player_of c w) in (r, put_player c s w))"

definition do_client :: "nat \<Rightarrow> (player \<Rightarrow> player) \<Rightarrow> world \<Rightarrow> world" where
  "do_client c f w = put_player c (f (player_of c w)) w"

section \<open>Methods\<close>

definition getMediaPlayerClient :: "nat \<Rightarrow> world \<Rightarrow> nat option" where
  "getMediaPlayerClient h w =
     (case m_client (the_manager w h) of
        None \<Rightarrow> None
      | Some c \<Rightarrow> if list_ex (\<lambda>(_, info). mi_client info = c) (m_mediaPlayerClientsInfo w) then Some c else None)"

definition edit_info :: "nat option \<Rightarrow> (MediaPlayerClientInfo \<Rightarrow> MediaPlayerClientInfo) \<Rightarrow> world \<Rightarrow> world" where
  "edit_info p f w = w\<lparr>m_mediaPlayerClientsInfo := edit_key p f (m_mediaPlayerClientsInfo w)\<rparr>"

text \<open>A client whose backend cannot be created is destroyed; its destructor stops streaming.\<close>

definition createMediaPlayerClient :: "env \<Rightarrow> nat \<Rightarrow> nat option \<Rightarrow> u32 \<Rightarrow> u32 \<Rightarrow> bool \<Rightarrow> world \<Rightarrow> world" where
  "createMediaPlayerClient e h gstBinParent maxVideoWidth maxVideoHeight isLive w =
     (case find_key (m_mediaPlayerClientsInfo w) gstBinParent of
        Some it \<Rightarrow>
          set_manager h \<lparr>m_client = Some (mi_client it), m_currentGstBinParent = gstBinParent\<rparr>
            (edit_info gstBinParent (\<lambda>i. i\<lparr>mi_refCount := mi_refCount i + 1\<rparr>) w)
      | None \<Rightarrow>
          (let c = w_next w;
               w1 = w\<lparr>w_clients := (w_clients w)
                        (c := GStreamerMSEMediaPlayerClient maxVideoWidth maxVideoHeight isLive),
                      w_next := Suc c\<rparr>;
               (created, w2) = on_client c (createBackend e) w1
           in if created
              then set_manager h \<lparr>m_client = Some c, m_currentGstBinParent = gstBinParent\<rparr>
                     (w2\<lparr>m_mediaPlayerClientsInfo := m_mediaPlayerClientsInfo w2 @
                        [(gstBinParent, \<lparr>mi_client = c, mi_controller = Some h, mi_refCount = 1\<rparr>)]\<rparr>)
              else do_client c (stopStreaming e) w2))"

definition releaseMediaPlayerClient :: "env \<Rightarrow> nat \<Rightarrow> world \<Rightarrow> world" where
  "releaseMediaPlayerClient e h w =
     (case getMediaPlayerClient h w of
        None \<Rightarrow> w
      | Some _ \<Rightarrow>
          (let p = m_currentGstBinParent (the_manager w h)
           in case find_key (m_mediaPlayerClientsInfo w) p of
                None \<Rightarrow> w
              | Some it0 \<Rightarrow>
                  (let w1 = edit_info p (\<lambda>i. i\<lparr>mi_refCount := mi_refCount i - 1\<rparr>) w;
                       c = mi_client it0;
                       w2 = (if mi_refCount it0 - 1 = 0
                             then (let w3 = do_client c destroyClientBackend
                                              (do_client c (stopStreaming e) (do_client c stop w1))
                                   in w3\<lparr>m_mediaPlayerClientsInfo := erase_key p (m_mediaPlayerClientsInfo w3)\<rparr>)
                             else if mi_controller it0 = Some h
                             then edit_info p (\<lambda>i. i\<lparr>mi_controller := None\<rparr>) w1
                             else w1)
                   in set_manager h \<lparr>m_client = None, m_currentGstBinParent = None\<rparr> w2)))"

definition attachMediaPlayerClient ::
  "env \<Rightarrow> nat \<Rightarrow> nat option \<Rightarrow> u32 \<Rightarrow> u32 \<Rightarrow> bool \<Rightarrow> world \<Rightarrow> bool \<times> world" where
  "attachMediaPlayerClient e h gstBinParent maxVideoWidth maxVideoHeight isLive w =
     (let currentParent = m_currentGstBinParent (the_manager w h);
          w1 = (case getMediaPlayerClient h w of
                  None \<Rightarrow> createMediaPlayerClient e h gstBinParent maxVideoWidth maxVideoHeight isLive w
                | Some _ \<Rightarrow>
                    if gstBinParent \<noteq> currentParent
                    then createMediaPlayerClient e h gstBinParent maxVideoWidth maxVideoHeight isLive
                           (releaseMediaPlayerClient e h w)
                    else w)
      in (getMediaPlayerClient h w1 \<noteq> None, w1))"

definition acquireControl :: "nat \<Rightarrow> MediaPlayerClientInfo \<Rightarrow> bool \<times> MediaPlayerClientInfo" where
  "acquireControl this info =
     (if mi_controller info = None then (True, info\<lparr>mi_controller := Some this\<rparr>) else (False, info))"

definition hasControl :: "nat \<Rightarrow> world \<Rightarrow> bool \<times> world" where
  "hasControl this w =
     (case getMediaPlayerClient this w of
        None \<Rightarrow> (False, w)
      | Some _ \<Rightarrow>
          (let p = m_currentGstBinParent (the_manager w this)
           in case find_key (m_mediaPlayerClientsInfo w) p of
                None \<Rightarrow> (False, w)
              | Some it \<Rightarrow>
                  if mi_controller it = Some this then (True, w)
                  else (fst (acquireControl this it), edit_info p (\<lambda>i. snd (acquireControl this i)) w)))"

text \<open>A new delegate, and the destructor of a delegate, which destroys its manager.\<close>

definition new_delegate :: "nat \<Rightarrow> delegate \<Rightarrow> world \<Rightarrow> world" where
  "new_delegate h d w = w\<lparr>w_handles := h # w_handles w, w_delegates := (w_delegates w)(h := d)\<rparr>"

definition delete_delegate :: "env \<Rightarrow> nat \<Rightarrow> world \<Rightarrow> world" where
  "delete_delegate e h w =
     (let w1 = releaseMediaPlayerClient e h
                 (w\<lparr>w_delegates := (w_delegates w)(h := clearBuffersUnlocked ((w_delegates w h)\<lparr>m_caps := None\<rparr>))\<rparr>)
      in w1\<lparr>w_handles := filter (\<lambda>j. j \<noteq> h) (w_handles w1)\<rparr>)"

section \<open>What the operations change\<close>

lemma player_of_simps [simp]:
  "delegates (player_of c w) = w_delegates w" "player_of c (put_player c s w) = s"
  by (simp_all add: player_of_def put_player_def client.defs)

lemma player_of_put_other: "d \<noteq> c \<Longrightarrow> w_clients (put_player c s w) d = w_clients w d"
  by (simp add: put_player_def)

lemma put_player_simps [simp]:
  "m_mediaPlayerClientsInfo (put_player c s w) = m_mediaPlayerClientsInfo w"
  "w_next (put_player c s w) = w_next w" "w_handles (put_player c s w) = w_handles w"
  "the_manager (put_player c s w) h = manager_of s h"
  by (simp_all add: put_player_def the_manager_def manager_of_def)

lemma set_manager_simps [simp]:
  "m_mediaPlayerClientsInfo (set_manager h m w) = m_mediaPlayerClientsInfo w"
  "w_next (set_manager h m w) = w_next w" "w_handles (set_manager h m w) = w_handles w"
  "w_clients (set_manager h m w) = w_clients w"
  "the_manager (set_manager h m w) j = (if j = h then m else the_manager w j)"
  by (simp_all add: set_manager_def the_manager_def)

lemma edit_info_simps [simp]:
  "m_mediaPlayerClientsInfo (edit_info p f w) = edit_key p f (m_mediaPlayerClientsInfo w)"
  "w_next (edit_info p f w) = w_next w" "w_handles (edit_info p f w) = w_handles w"
  "w_clients (edit_info p f w) = w_clients w" "the_manager (edit_info p f w) = the_manager w"
  "player_of c (edit_info p f w) = player_of c w"
  by (simp_all add: edit_info_def the_manager_def fun_eq_iff player_of_def)

lemma manager_of_player_of [simp]: "manager_of (player_of c w) = the_manager w"
  by (simp add: manager_of_def the_manager_def fun_eq_iff)

text \<open>The life cycle of a client object.\<close>

definition client_up :: "client \<Rightarrow> bool" where
  "client_up c \<longleftrightarrow> queueRunning c \<and> queueAccepting c \<and> m_clientBackend c \<and> m_backendCreated c \<and>
     \<not> m_streamingStopped c"

lemma client_up_life: "client_up (client.truncate s) \<longleftrightarrow> life s = (True, True, True, True, False)"
  by (auto simp: client_up_def life_def client.defs)

lemma client_up_player: "client_up (w_clients w c) \<longleftrightarrow> life (player_of c w) = (True, True, True, True, False)"
  by (auto simp: client_up_def life_def player_of_def client.defs)

section \<open>The invariant\<close>

text \<open>The sinks that use the client of a pipeline.\<close>

definition users :: "world \<Rightarrow> nat option \<Rightarrow> nat \<Rightarrow> nat set" where
  "users w p c = {h \<in> set (w_handles w). the_manager w h = \<lparr>m_client = Some c, m_currentGstBinParent = p\<rparr>}"

definition info_ok :: "world \<Rightarrow> nat option \<Rightarrow> MediaPlayerClientInfo \<Rightarrow> bool" where
  "info_ok w p i \<longleftrightarrow> unat (mi_refCount i) = card (users w p (mi_client i)) \<and>
     users w p (mi_client i) \<noteq> {} \<and> mi_client i < w_next w \<and>
     (\<forall>h. mi_controller i = Some h \<longrightarrow> h \<in> users w p (mi_client i)) \<and>
     client_up (w_clients w (mi_client i))"

definition manager_ok :: "world \<Rightarrow> manager \<Rightarrow> bool" where
  "manager_ok w m \<longleftrightarrow> (case m_client m of
     None \<Rightarrow> m_currentGstBinParent m = None
   | Some c \<Rightarrow> map_option mi_client (find_key (m_mediaPlayerClientsInfo w) (m_currentGstBinParent m)) = Some c)"

lemma manager_ok_alt: "manager_ok w m \<longleftrightarrow> m = \<lparr>m_client = None, m_currentGstBinParent = None\<rparr> \<or>
     (\<exists>p i. m = \<lparr>m_client = Some (mi_client i), m_currentGstBinParent = p\<rparr> \<and>
            find_key (m_mediaPlayerClientsInfo w) p = Some i)"
  by (cases m) (auto simp: manager_ok_def split: option.splits)

definition infos_ok :: "world \<Rightarrow> bool" where
  "infos_ok w \<longleftrightarrow> (\<forall>p i. find_key (m_mediaPlayerClientsInfo w) p = Some i \<longrightarrow> info_ok w p i)"

definition clients_distinct :: "world \<Rightarrow> bool" where
  "clients_distinct w \<longleftrightarrow> (\<forall>p q i j. find_key (m_mediaPlayerClientsInfo w) p = Some i \<longrightarrow>
     find_key (m_mediaPlayerClientsInfo w) q = Some j \<longrightarrow> mi_client i = mi_client j \<longrightarrow> p = q)"

definition manager_inv :: "world \<Rightarrow> bool" where
  "manager_inv w \<longleftrightarrow> distinct (keys (m_mediaPlayerClientsInfo w)) \<and>
     distinct (w_handles w) \<and> length (w_handles w) < 2 ^ 32 \<and> infos_ok w \<and> clients_distinct w \<and>
     (\<forall>h \<in> set (w_handles w). manager_ok w (the_manager w h))"

lemma finite_users [simp]: "finite (users w p c)"
  by (simp add: users_def)

lemma users_cong:
  "w_handles w' = w_handles w \<Longrightarrow> the_manager w' = the_manager w \<Longrightarrow> users w' p c = users w p c"
  by (simp add: users_def)

lemma users_bound:
  assumes "manager_inv w"
  shows "card (users w p c) < 2 ^ 32"
proof -
  have "card (users w p c) \<le> card (set (w_handles w))"
    by (rule card_mono) (auto simp: users_def)
  also have "\<dots> \<le> length (w_handles w)" by (rule card_length)
  finally show ?thesis using assms by (simp add: manager_inv_def)
qed

lemma get_client_iff:
  assumes "manager_inv w" "h \<in> set (w_handles w)"
  shows "getMediaPlayerClient h w = m_client (the_manager w h)"
  using assms
  by (auto simp: getMediaPlayerClient_def manager_inv_def manager_ok_alt list_ex_lookup split: option.splits)

lemma attached_info:
  assumes "manager_inv w" "h \<in> set (w_handles w)" "getMediaPlayerClient h w = Some c"
  obtains i where "find_key (m_mediaPlayerClientsInfo w) (m_currentGstBinParent (the_manager w h)) = Some i"
    "mi_client i = c" "h \<in> users w (m_currentGstBinParent (the_manager w h)) c"
proof -
  have "m_client (the_manager w h) = Some c" using assms get_client_iff by simp
  moreover have "manager_ok w (the_manager w h)" using assms by (auto simp: manager_inv_def)
  ultimately obtain i where "the_manager w h =
      \<lparr>m_client = Some (mi_client i), m_currentGstBinParent = m_currentGstBinParent (the_manager w h)\<rparr>"
    "find_key (m_mediaPlayerClientsInfo w) (m_currentGstBinParent (the_manager w h)) = Some i" "mi_client i = c"
    by (auto simp: manager_ok_alt)
  with assms(2) show thesis by (intro that) (auto simp: users_def)
qed

text \<open>Operations of clients that keep the managers and the life cycle.\<close>

lemma manager_inv_same:
  assumes "manager_inv w" and "m_mediaPlayerClientsInfo w' = m_mediaPlayerClientsInfo w"
    and "w_handles w' = w_handles w" "w_next w \<le> w_next w'" "the_manager w' = the_manager w"
    and "\<And>p i. find_key (m_mediaPlayerClientsInfo w) p = Some i \<Longrightarrow>
      client_up (w_clients w (mi_client i)) \<Longrightarrow> client_up (w_clients w' (mi_client i))"
  shows "manager_inv w'"
proof -
  have "info_ok w' p i" if "info_ok w p i" "find_key (m_mediaPlayerClientsInfo w) p = Some i" for p i
    using that assms(4,6) by (auto simp: info_ok_def users_cong [OF assms(3,5)])
  then have "infos_ok w'" using assms(1) by (simp add: manager_inv_def infos_ok_def assms(2))
  moreover have "clients_distinct w' = clients_distinct w" "manager_ok w' = manager_ok w"
    unfolding clients_distinct_def manager_ok_def [abs_def] assms(2) by (rule refl)+
  ultimately show ?thesis using assms(1) by (simp add: manager_inv_def assms(2,3,5))
qed

lemma manager_inv_client:
  assumes "manager_inv w" and "shell (f (player_of c w)) = shell (player_of c w)"
  shows "manager_inv (do_client c f w)"
proof (rule manager_inv_same [OF assms(1)])
  have "the_manager (do_client c f w) h = the_manager w h" for h
    using assms(2) manager_of_player_of [of c w] by (simp add: do_client_def shell_def)
  then show "the_manager (do_client c f w) = the_manager w" by (rule ext)
  fix p i
  assume "client_up (w_clients w (mi_client i))"
  then show "client_up (w_clients (do_client c f w) (mi_client i))"
    using assms(2) client_up_life [of "f (player_of c w)"] client_up_player [of w c]
    by (cases "mi_client i = c") (auto simp: do_client_def put_player_def shell_def)
qed (simp_all add: do_client_def)

section \<open>The methods keep the invariant\<close>

abbreviation detached :: manager where
  "detached \<equiv> \<lparr>m_client = None, m_currentGstBinParent = None\<rparr>"

lemma users_set_manager:
  "h \<in> set (w_handles w) \<Longrightarrow> users (set_manager h m w) p c =
     (if m = \<lparr>m_client = Some c, m_currentGstBinParent = p\<rparr> then insert h (users w p c) else users w p c - {h})"
  by (auto simp: users_def)

lemma users_edit_info [simp]: "users (edit_info p f w) q c = users w q c"
  by (rule users_cong) simp_all

lemma manager_inv_handles:
  "manager_inv w \<Longrightarrow> distinct (w_handles w) \<and> length (w_handles w) < 2 ^ 32 \<and>
     distinct (keys (m_mediaPlayerClientsInfo w))"
  by (simp add: manager_inv_def)

lemma info_okD:
  assumes "manager_inv w" "find_key (m_mediaPlayerClientsInfo w) p = Some i"
  shows "unat (mi_refCount i) = card (users w p (mi_client i))" "users w p (mi_client i) \<noteq> {}"
    "mi_client i < w_next w" "\<And>h. mi_controller i = Some h \<Longrightarrow> h \<in> users w p (mi_client i)"
    "client_up (w_clients w (mi_client i))"
    "\<And>q j. find_key (m_mediaPlayerClientsInfo w) q = Some j \<Longrightarrow> mi_client i = mi_client j \<Longrightarrow> p = q"
  using assms by (auto simp: manager_inv_def infos_ok_def info_ok_def clients_distinct_def)

lemma users_info:
  assumes "manager_inv w" "h \<in> users w p c"
  shows "\<exists>i. find_key (m_mediaPlayerClientsInfo w) p = Some i \<and> mi_client i = c"
proof -
  have "manager_ok w \<lparr>m_client = Some c, m_currentGstBinParent = p\<rparr>"
    using assms by (auto simp: users_def manager_inv_def)
  then show ?thesis by (auto simp: manager_ok_alt)
qed

text \<open>A sink that was detached joins an existing client.\<close>

lemma manager_inv_join:
  assumes inv: "manager_inv w" and h: "h \<in> set (w_handles w)" "the_manager w h = detached"
    and i: "find_key (m_mediaPlayerClientsInfo w) p = Some i"
  defines "w' \<equiv> set_manager h \<lparr>m_client = Some (mi_client i), m_currentGstBinParent = p\<rparr>
            (edit_info p (\<lambda>i. i\<lparr>mi_refCount := mi_refCount i + 1\<rparr>) w)"
  shows "manager_inv w'"
proof -
  note ok = info_okD [OF inv]
  have u: "users w' q c = (if q = p \<and> c = mi_client i then insert h (users w q c) else users w q c)" for q c
    using h by (auto simp: w'_def users_set_manager) (auto simp: users_def)
  have new: "h \<notin> users w p (mi_client i)" using h(2) by (simp add: users_def)
  then have "card (insert h (users w p (mi_client i))) = Suc (card (users w p (mi_client i)))" by simp
  moreover have "card (insert h (users w p (mi_client i))) \<le> length (w_handles w)"
    using h by (intro order_trans [OF card_mono card_length]) (auto simp: users_def)
  ultimately have "Suc (unat (mi_refCount i)) < 2 ^ 32"
    using ok(1) [OF i] manager_inv_handles [OF inv] by simp
  then have "unat (mi_refCount i + 1) = Suc (unat (mi_refCount i))"
    by (simp add: unat_word_ariths)
  then have count: "unat (mi_refCount i + 1) = card (insert h (users w p (mi_client i)))"
    using new ok(1) [OF i] by simp
  have find: "find_key (m_mediaPlayerClientsInfo w') q =
      (if q = p then Some (i\<lparr>mi_refCount := mi_refCount i + 1\<rparr>) else find_key (m_mediaPlayerClientsInfo w) q)" for q
    using i by (simp add: w'_def)
  have infos: "infos_ok w'"
    unfolding infos_ok_def info_ok_def find u
    using ok count i by (auto simp: w'_def)
  have dist: "clients_distinct w'"
    unfolding clients_distinct_def find using ok(6) i by (auto split: if_splits)
  have mgr: "manager_ok w' (the_manager w' j)" if "j \<in> set (w_handles w')" for j
  proof (cases "j = h")
    case True
    then have "the_manager w' j = \<lparr>m_client = Some (mi_client i), m_currentGstBinParent = p\<rparr>" by (simp add: w'_def)
    then show ?thesis unfolding manager_ok_def find by auto
  next
    case False
    then have "manager_ok w (the_manager w j)" using that inv by (simp add: manager_inv_def w'_def)
    then show ?thesis
      using False i unfolding manager_ok_def find by (auto simp: w'_def split: option.splits)
  qed
  show ?thesis
    using manager_inv_handles [OF inv] infos dist mgr by (simp add: manager_inv_def w'_def)
qed

text \<open>The first sink of a pipeline creates its client.\<close>

lemma manager_inv_found:
  assumes inv: "manager_inv w" and h: "h \<in> set (w_handles w)" "the_manager w h = detached"
    and i: "find_key (m_mediaPlayerClientsInfo w) p = None"
    and c: "w_next w = c" "client_up x"
    and w': "w_handles w' = w_handles w" "w_next w' = Suc c" "w_clients w' = (w_clients w)(c := x)"
      "m_mediaPlayerClientsInfo w' = m_mediaPlayerClientsInfo w @
         [(p, \<lparr>mi_client = c, mi_controller = Some h, mi_refCount = 1\<rparr>)]"
      "the_manager w' = (the_manager w)(h := \<lparr>m_client = Some c, m_currentGstBinParent = p\<rparr>)"
  shows "manager_inv w'"
proof -
  note ok = info_okD [OF inv]
  have find: "find_key (m_mediaPlayerClientsInfo w') q =
      (if q = p then Some \<lparr>mi_client = c, mi_controller = Some h, mi_refCount = 1\<rparr>
       else find_key (m_mediaPlayerClientsInfo w) q)" for q
    using i by (auto simp: w' map_add_def split: option.splits)
  have none: "users w q c = {}" for q
    using users_info [OF inv] ok(3) c(1) by fastforce
  have u: "users w' q d = (if q = p \<and> d = c then {h} else users w q d)" for q d
    using h none [of p] by (auto simp: users_def w')
  have infos: "infos_ok w'"
    unfolding infos_ok_def info_ok_def find u using ok c i by (auto simp: w' less_Suc_eq)
  have dist: "clients_distinct w'"
    unfolding clients_distinct_def find using ok(3,6) c(1) by (fastforce split: if_splits)
  have mgr: "manager_ok w' (the_manager w' j)" if "j \<in> set (w_handles w')" for j
  proof (cases "j = h")
    case True
    then show ?thesis unfolding manager_ok_def find by (simp add: w'(5))
  next
    case False
    then have "manager_ok w (the_manager w j)" using that inv by (simp add: manager_inv_def w')
    then show ?thesis using False i unfolding manager_ok_def find by (auto simp: w' split: option.splits)
  qed
  have "distinct (keys (m_mediaPlayerClientsInfo w'))"
    using manager_inv_handles [OF inv] i by (auto simp: w' map_of_eq_None_iff)
  then show ?thesis
    using manager_inv_handles [OF inv] infos dist mgr by (simp add: manager_inv_def w')
qed

text \<open>A sink leaves a client that others still use.\<close>

lemma manager_inv_leave:
  assumes inv: "manager_inv w" and h: "h \<in> users w p (mi_client i)"
    and i: "find_key (m_mediaPlayerClientsInfo w) p = Some i" "mi_refCount i - 1 \<noteq> 0"
    and w': "w_handles w' = w_handles w" "w_next w' = w_next w" "w_clients w' = w_clients w"
      "m_mediaPlayerClientsInfo w' = edit_key p (\<lambda>i. i\<lparr>mi_refCount := mi_refCount i - 1,
         mi_controller := (if mi_controller i = Some h then None else mi_controller i)\<rparr>) (m_mediaPlayerClientsInfo w)"
      "the_manager w' = (the_manager w)(h := detached)"
  shows "manager_inv w'"
proof -
  note ok = info_okD [OF inv]
  let ?i = "i\<lparr>mi_refCount := mi_refCount i - 1,
         mi_controller := (if mi_controller i = Some h then None else mi_controller i)\<rparr>"
  have find: "find_key (m_mediaPlayerClientsInfo w') q =
      (if q = p then Some ?i else find_key (m_mediaPlayerClientsInfo w) q)" for q
    using i by (simp add: w')
  have u: "users w' q c = (if q = p then users w q c - {h} else users w q c)" for q c
    using h by (auto simp: users_def w')
  have "mi_refCount i \<noteq> 0" using ok(1,2) [OF i(1)] by auto
  then have count: "unat (mi_refCount i - 1) = card (users w p (mi_client i) - {h})"
    using ok(1) [OF i(1)] h by (simp add: unat_minus_one)
  moreover have "unat (mi_refCount i - 1) \<noteq> 0" using i(2) by (simp add: unat_eq_0)
  ultimately have left: "users w p (mi_client i) - {h} \<noteq> {}" by (metis card.empty)
  have infos: "infos_ok w'"
    unfolding infos_ok_def info_ok_def find u using ok i left count by (auto simp: w')
  have dist: "clients_distinct w'"
    unfolding clients_distinct_def find using ok(6) i by (auto split: if_splits)
  have mgr: "manager_ok w' (the_manager w' j)" if "j \<in> set (w_handles w')" for j
  proof (cases "j = h")
    case True
    then show ?thesis by (simp add: manager_ok_def w')
  next
    case False
    then have "manager_ok w (the_manager w j)" using that inv by (simp add: manager_inv_def w')
    then show ?thesis using False i unfolding manager_ok_def find by (auto simp: w' split: option.splits)
  qed
  show ?thesis
    using manager_inv_handles [OF inv] infos dist mgr by (simp add: manager_inv_def w')
qed

text \<open>The last sink leaves: the entry is erased.\<close>

lemma manager_inv_last:
  assumes inv: "manager_inv w" and h: "users w p (mi_client i) = {h}"
    and i: "find_key (m_mediaPlayerClientsInfo w) p = Some i"
    and w': "w_handles w' = w_handles w" "w_next w' = w_next w"
      "\<And>c. c \<noteq> mi_client i \<Longrightarrow> w_clients w' c = w_clients w c"
      "m_mediaPlayerClientsInfo w' = erase_key p (m_mediaPlayerClientsInfo w)"
      "the_manager w' = (the_manager w)(h := detached)"
  shows "manager_inv w'"
proof -
  note ok = info_okD [OF inv]
  have find: "find_key (m_mediaPlayerClientsInfo w') q =
      (if q = p then None else find_key (m_mediaPlayerClientsInfo w) q)" for q
    by (simp add: w')
  have "h \<in> users w p (mi_client i)" using h by simp
  then have u: "users w' q c = users w q c" if "q \<noteq> p" for q c
    using that by (auto simp: users_def w')
  have other: "mi_client j \<noteq> mi_client i"
    if "q \<noteq> p" "find_key (m_mediaPlayerClientsInfo w) q = Some j" for q j
    using ok(6) [OF that(2) i] that(1) by auto
  have infos: "infos_ok w'"
    unfolding infos_ok_def info_ok_def find using ok by (auto simp: w' u other)
  have dist: "clients_distinct w'"
    unfolding clients_distinct_def find using ok(6) by (auto split: if_splits)
  have mgr: "manager_ok w' (the_manager w' j)" if "j \<in> set (w_handles w')" for j
  proof (cases "j = h")
    case True
    then show ?thesis by (simp add: manager_ok_def w')
  next
    case False
    then have j: "manager_ok w (the_manager w j)" using that inv by (simp add: manager_inv_def w')
    have "j \<notin> users w p (mi_client i)" using h False by simp
    then show ?thesis
      using False i j that unfolding manager_ok_def find
      by (cases "the_manager w j") (auto simp: w' users_def split: option.splits)
  qed
  show ?thesis
    using manager_inv_handles [OF inv] infos dist mgr by (simp add: manager_inv_def w')
qed

lemma shell_after_do_client:
  "shell (f (player_of c w)) = shell (player_of c w) \<Longrightarrow> the_manager (do_client c f w) = the_manager w"
  "manager_of (f (player_of c w)) = manager_of (player_of c w) \<Longrightarrow> the_manager (do_client c f w) = the_manager w"
  using manager_of_player_of [of c w] by (auto simp: do_client_def shell_def fun_eq_iff)

lemma do_client_put [simp]: "do_client c f (put_player c s w) = put_player c (f s) w"
  by (simp add: do_client_def) (simp add: put_player_def)

lemma manager_inv_create:
  assumes inv: "manager_inv w" and h: "h \<in> set (w_handles w)" "the_manager w h = detached"
  shows "manager_inv (createMediaPlayerClient e h p mw mh lv w)"
proof (cases "find_key (m_mediaPlayerClientsInfo w) p")
  case (Some i)
  with manager_inv_join [OF inv h Some] show ?thesis by (simp add: createMediaPlayerClient_def)
next
  case None
  define c where "c = w_next w"
  define w1 where "w1 = w\<lparr>w_clients := (w_clients w)(c := GStreamerMSEMediaPlayerClient mw mh lv), w_next := Suc c\<rparr>"
  obtain created s where cr: "createBackend e (player_of c w1) = (created, s)" by (cases "createBackend e (player_of c w1)")
  have mgr: "manager_of s = the_manager w"
    using life_cycle(3) [of e "player_of c w1"] cr by (simp add: w1_def the_manager_def [abs_def])
  have up: "created \<Longrightarrow> client_up (client.truncate s)"
    using cr by (auto simp: createBackend_def in_loop_def player_of_def w1_def GStreamerMSEMediaPlayerClient_def
        client.defs Let_def call_def client_up_def split: if_splits)
  have keep: "client_up x \<Longrightarrow> find_key (m_mediaPlayerClientsInfo w) q = Some i \<Longrightarrow> mi_client i \<noteq> c" for x q i
    using info_okD(3) [OF inv] c_def by fastforce
  show ?thesis
  proof (cases created)
    case True
    show ?thesis
      unfolding createMediaPlayerClient_def None option.case Let_def on_client_def c_def [symmetric] w1_def [symmetric] cr
      using True mgr by (simp, intro manager_inv_found [OF inv h None c_def [symmetric] up])
        (auto simp: put_player_def w1_def the_manager_def manager_of_def fun_eq_iff set_manager_def)
  next
    case False
    have *: "manager_of (stopStreaming e s) = the_manager w" using life_cycle(1) [of e s] mgr by simp
    show ?thesis
      unfolding createMediaPlayerClient_def None option.case Let_def on_client_def c_def [symmetric] w1_def [symmetric] cr
      using False * keep
      by (simp, intro manager_inv_same [OF inv])
        (auto simp: put_player_def w1_def the_manager_def manager_of_def fun_eq_iff c_def)
  qed
qed

lemma erase_edit_key [simp]: "erase_key k (edit_key k f m) = erase_key k m"
  by (induction m) auto

lemma edit_edit_key: "edit_key k g (edit_key k f m) = edit_key k (\<lambda>x. g (f x)) m"
  by (induction m) auto

lemma edit_key_cong: "(\<And>v. find_key m k = Some v \<Longrightarrow> f v = g v) \<Longrightarrow> distinct (keys m) \<Longrightarrow>
    edit_key k f m = edit_key k g m"
  by (induction m) (auto split: if_splits simp: map_of_eq_None_iff)

definition torn_down :: "env \<Rightarrow> player \<Rightarrow> player" where
  "torn_down e s = destroyClientBackend (stopStreaming e (stop s))"

lemma manager_of_torn_down [simp]: "manager_of (torn_down e s) = manager_of s"
  using life_cycle(4) [of s] by (simp add: torn_down_def life_cycle shell_def)

text \<open>Releasing, by whether other sinks use the client.\<close>

lemma release_cases:
  assumes inv: "manager_inv w" and h: "h \<in> set (w_handles w)" and c: "getMediaPlayerClient h w = Some c"
  obtains (last) p i where "find_key (m_mediaPlayerClientsInfo w) p = Some i" "mi_client i = c"
      "users w p c = {h}" "mi_refCount i = 1"
      "releaseMediaPlayerClient e h w = set_manager h detached
         ((put_player c (torn_down e (player_of c w)) w)\<lparr>m_mediaPlayerClientsInfo :=
            erase_key p (m_mediaPlayerClientsInfo w)\<rparr>)"
    | (shared) p i where "find_key (m_mediaPlayerClientsInfo w) p = Some i" "mi_client i = c"
      "h \<in> users w p c" "users w p c \<noteq> {h}" "mi_refCount i - 1 \<noteq> 0"
      "releaseMediaPlayerClient e h w = set_manager h detached (edit_info p (\<lambda>i. i\<lparr>mi_refCount := mi_refCount i - 1,
         mi_controller := (if mi_controller i = Some h then None else mi_controller i)\<rparr>) w)"
proof -
  let ?p = "m_currentGstBinParent (the_manager w h)"
  obtain i where i: "find_key (m_mediaPlayerClientsInfo w) ?p = Some i" "mi_client i = c" "h \<in> users w ?p c"
    using attached_info [OF inv h c] .
  note ok = info_okD [OF inv i(1), unfolded i(2)]
  show thesis
  proof (cases "mi_refCount i - 1 = 0")
    case True
    then have one: "mi_refCount i = 1" by simp
    then have "card (users w ?p c) = 1" using ok(1) by simp
    then have "users w ?p c = {h}" using i(3) by (metis card_1_singletonE singletonD)
    moreover have "releaseMediaPlayerClient e h w = set_manager h detached
         ((put_player c (torn_down e (player_of c w)) w)\<lparr>m_mediaPlayerClientsInfo :=
            erase_key ?p (m_mediaPlayerClientsInfo w)\<rparr>)"
      using True i c
      by (simp add: releaseMediaPlayerClient_def Let_def do_client_def [of c stop] torn_down_def)
        (simp add: put_player_def edit_info_def)
    ultimately show thesis using last i one by blast
  next
    case False
    have "releaseMediaPlayerClient e h w = set_manager h detached (edit_info ?p (\<lambda>i. i\<lparr>mi_refCount := mi_refCount i - 1,
         mi_controller := (if mi_controller i = Some h then None else mi_controller i)\<rparr>) w)"
      using False i c manager_inv_handles [OF inv]
      by (auto simp: releaseMediaPlayerClient_def Let_def edit_info_def edit_edit_key
          intro!: arg_cong [where f = "set_manager h detached"] edit_key_cong
          arg_cong [where f = "\<lambda>m. w\<lparr>m_mediaPlayerClientsInfo := m\<rparr>"])
    moreover have "users w ?p c \<noteq> {h}"
    proof
      assume "users w ?p c = {h}"
      then have "unat (mi_refCount i) = unat (1 :: u32)" using ok(1) by simp
      then have "mi_refCount i = 1" by (simp only: word_unat_eq_iff)
      with False show False by simp
    qed
    ultimately show thesis using shared i False by blast
  qed
qed

lemma manager_inv_release:
  assumes inv: "manager_inv w" and h: "h \<in> set (w_handles w)"
  shows "manager_inv (releaseMediaPlayerClient e h w)"
    "the_manager (releaseMediaPlayerClient e h w) = (the_manager w)(h := detached)"
    "w_handles (releaseMediaPlayerClient e h w) = w_handles w"
proof -
  let ?w = "releaseMediaPlayerClient e h w"
  have "manager_inv ?w \<and> the_manager ?w = (the_manager w)(h := detached) \<and> w_handles ?w = w_handles w"
  proof (cases "getMediaPlayerClient h w")
    case None
    then have "the_manager w h = detached"
      using inv h get_client_iff [OF inv h] by (auto simp: manager_inv_def manager_ok_alt)
    with None inv show ?thesis by (simp add: releaseMediaPlayerClient_def fun_eq_iff)
  next
    case (Some c)
    from inv h Some show ?thesis
    proof (cases rule: release_cases [where e = e])
      case (last p i)
      have "the_manager ?w = (the_manager w)(h := detached)" unfolding last(5) by (auto simp: the_manager_def put_player_def set_manager_def fun_eq_iff manager_of_def [symmetric])
      moreover have "manager_inv ?w"
        by (rule manager_inv_last [OF inv _ last(1)]) (use last calculation in \<open>auto simp: put_player_def\<close>)
      ultimately show ?thesis unfolding last(5) by simp
    next
      case (shared p i)
      have "the_manager ?w = (the_manager w)(h := detached)" unfolding shared(6) by (auto simp: fun_eq_iff)
      moreover have "manager_inv ?w"
        by (rule manager_inv_leave [OF inv _ shared(1,5)]) (use shared calculation in auto)
      ultimately show ?thesis unfolding shared(6) by simp
    qed
  qed
  then show "manager_inv ?w" "the_manager ?w = (the_manager w)(h := detached)" "w_handles ?w = w_handles w"
    by simp_all
qed

lemma manager_inv_attach:
  assumes inv: "manager_inv w" and h: "h \<in> set (w_handles w)"
  shows "manager_inv (snd (attachMediaPlayerClient e h p mw mh lv w))"
proof (cases "getMediaPlayerClient h w")
  case None
  then have "the_manager w h = detached"
    using inv h get_client_iff [OF inv h] by (auto simp: manager_inv_def manager_ok_alt)
  with None manager_inv_create [OF inv h] show ?thesis by (simp add: attachMediaPlayerClient_def Let_def)
next
  case (Some c)
  have "manager_inv (createMediaPlayerClient e h p mw mh lv (releaseMediaPlayerClient e h w))"
    using manager_inv_release [OF inv h, of e] h by (intro manager_inv_create) auto
  with Some inv show ?thesis by (simp add: attachMediaPlayerClient_def Let_def)
qed

lemma manager_inv_control:
  assumes inv: "manager_inv w" and h: "h \<in> set (w_handles w)"
  shows "manager_inv (snd (hasControl h w))"
proof (cases "getMediaPlayerClient h w")
  case None
  with inv show ?thesis by (simp add: hasControl_def)
next
  case (Some c)
  let ?p = "m_currentGstBinParent (the_manager w h)"
  obtain i where i: "find_key (m_mediaPlayerClientsInfo w) ?p = Some i" "mi_client i = c" "h \<in> users w ?p c"
    using attached_info [OF inv h Some] .
  define w' where "w' = edit_info ?p (\<lambda>i. snd (acquireControl h i)) w"
  note ok = info_okD [OF inv]
  have find: "find_key (m_mediaPlayerClientsInfo w') q =
      (if q = ?p then Some (snd (acquireControl h i)) else find_key (m_mediaPlayerClientsInfo w) q)" for q
    using i by (simp add: w'_def)
  have same: "mi_client (snd (acquireControl h i)) = mi_client i" "mi_refCount (snd (acquireControl h i)) = mi_refCount i"
    by (simp_all add: acquireControl_def)
  have u: "users w' = users w" by (simp add: w'_def fun_eq_iff)
  have "infos_ok w'"
    unfolding infos_ok_def info_ok_def find u
    using ok i by (auto simp: same) (auto simp: acquireControl_def w'_def split: if_splits)
  moreover have "clients_distinct w'"
    unfolding clients_distinct_def find using ok(6) i by (auto simp: same split: if_splits)
  moreover have "manager_ok w' m" if "manager_ok w m" for m
    using that i unfolding manager_ok_def find by (auto simp: same split: option.splits)
  ultimately have "manager_inv w'" using inv by (simp add: manager_inv_def w'_def)
  with inv i Some show ?thesis by (simp add: hasControl_def Let_def w'_def)
qed

lemma manager_inv_new:
  assumes inv: "manager_inv w" and h: "h \<notin> set (w_handles w)" "Suc (length (w_handles w)) < 2 ^ 32"
    and d: "m_mediaPlayerManager d = detached"
  shows "manager_inv (new_delegate h d w)"
proof -
  let ?w = "new_delegate h d w"
  have m: "the_manager ?w j = (if j = h then detached else the_manager w j)" for j
    using d by (simp add: new_delegate_def the_manager_def)
  have u: "users ?w p c = users w p c" for p c
    unfolding users_def m using h by (auto simp: new_delegate_def)
  have f: "m_mediaPlayerClientsInfo ?w = m_mediaPlayerClientsInfo w" "w_handles ?w = h # w_handles w"
    "w_next ?w = w_next w" "w_clients ?w = w_clients w"
    by (simp_all add: new_delegate_def)
  show ?thesis
    using inv h unfolding manager_inv_def infos_ok_def info_ok_def clients_distinct_def manager_ok_def f u m
    by (auto simp del: map_of_eq_Some_iff)
qed

lemma manager_inv_drop:
  assumes inv: "manager_inv w" and d: "the_manager w h = detached"
  shows "manager_inv (w\<lparr>w_handles := filter (\<lambda>j. j \<noteq> h) (w_handles w)\<rparr>)" (is "manager_inv ?w")
proof -
  have u: "users ?w p c = users w p c" for p c
    using d by (auto simp: users_def the_manager_def)
  have f: "m_mediaPlayerClientsInfo ?w = m_mediaPlayerClientsInfo w" "the_manager ?w = the_manager w"
    "w_next ?w = w_next w" "w_clients ?w = w_clients w"
    by (simp_all add: the_manager_def fun_eq_iff)
  show ?thesis
    using inv unfolding manager_inv_def infos_ok_def info_ok_def clients_distinct_def manager_ok_def f u
    by (auto simp del: map_of_eq_Some_iff intro: le_less_trans [OF length_filter_le])
qed

lemma manager_inv_delete:
  assumes inv: "manager_inv w" and h: "h \<in> set (w_handles w)"
  shows "manager_inv (delete_delegate e h w)"
proof -
  let ?w = "w\<lparr>w_delegates := (w_delegates w)(h := clearBuffersUnlocked ((w_delegates w h)\<lparr>m_caps := None\<rparr>))\<rparr>"
  have "manager_inv ?w"
    by (rule manager_inv_same [OF inv])
      (auto simp: the_manager_def clearBuffersUnlocked_def setLastBuffer_def fun_eq_iff)
  note r = manager_inv_release [OF this, of h e]
  show ?thesis
    unfolding delete_delegate_def Let_def by (rule manager_inv_drop) (use r h in simp_all)
qed

section \<open>The operations of a process\<close>

text \<open>Everything that can happen to the sinks of a process and to their clients.\<close>

datatype world_op =
    W_new nat delegate | W_delete env nat | W_attach env nat "nat option" u32 u32 bool
  | W_release env nat | W_hasControl nat | W_client nat client_op

fun world_exec :: "world_op \<Rightarrow> world \<Rightarrow> world" where
  "world_exec (W_new h d) w = new_delegate h d w"
| "world_exec (W_delete e h) w = delete_delegate e h w"
| "world_exec (W_attach e h p mw mh lv) w = snd (attachMediaPlayerClient e h p mw mh lv w)"
| "world_exec (W_release e h) w = releaseMediaPlayerClient e h w"
| "world_exec (W_hasControl h) w = snd (hasControl h w)"
| "world_exec (W_client c op) w = do_client c (client_exec op) w"

text \<open>A delegate is constructed at a fresh address with a new manager, and methods are called on
  constructed delegates. The server may report any state at any time.\<close>

fun world_allowed :: "world \<Rightarrow> world_op \<Rightarrow> bool" where
  "world_allowed w (W_new h d) = (h \<notin> set (w_handles w) \<and> Suc (length (w_handles w)) < 2 ^ 32 \<and>
     m_mediaPlayerManager d = detached)"
| "world_allowed w (W_delete e h) = (h \<in> set (w_handles w))"
| "world_allowed w (W_attach e h p mw mh lv) = (h \<in> set (w_handles w))"
| "world_allowed w (W_release e h) = (h \<in> set (w_handles w))"
| "world_allowed w (W_hasControl h) = (h \<in> set (w_handles w))"
| "world_allowed w (W_client c op) = ordinary op"

definition world_step :: "world \<Rightarrow> world \<Rightarrow> bool" where
  "world_step w w' \<longleftrightarrow> (\<exists>op. world_allowed w op \<and> w' = world_exec op w)"

definition world_start :: "world \<Rightarrow> bool" where
  "world_start w \<longleftrightarrow> m_mediaPlayerClientsInfo w = [] \<and> w_handles w = []"

lemma manager_inv_exec:
  assumes "manager_inv w" "world_allowed w op"
  shows "manager_inv (world_exec op w)"
  using assms
  by (cases op) (auto simp: manager_inv_new manager_inv_delete manager_inv_attach manager_inv_release
      manager_inv_control manager_inv_client shell_exec simp del: fun_upd_apply)

section \<open>Sessions\<close>

text \<open>A property of the clients of all pipelines. Where a client, with its number \<open>c\<close>, has the
  property after its backend was created and every operation that is allowed keeps it, whatever the
  manager does keeps it for all clients. \<open>delegates\<close> belongs to the process, not to the client.\<close>

definition all_sessions :: "(nat \<Rightarrow> player \<Rightarrow> bool) \<Rightarrow> world \<Rightarrow> bool" where
  "all_sessions Q w \<longleftrightarrow> (\<forall>p i. find_key (m_mediaPlayerClientsInfo w) p = Some i \<longrightarrow>
     Q (mi_client i) (player_of (mi_client i) w))"

locale session_property =
  fixes Q :: "nat \<Rightarrow> player \<Rightarrow> bool"
    and permitted :: "player \<Rightarrow> client_op \<Rightarrow> bool"
  assumes of_client: "client.truncate s = client.truncate t \<Longrightarrow> Q c s \<Longrightarrow> Q c t"
    and of_new: "client_start s \<Longrightarrow> createBackend e s = (True, t) \<Longrightarrow> Q c t"
    and of_op: "Q c s \<Longrightarrow> ordinary op \<Longrightarrow> permitted s op \<Longrightarrow> Q c (client_exec op s)"
begin

lemma truncate_player_of: "client.truncate (player_of c w) = w_clients w c"
  by (simp add: player_of_def client.defs)

lemma same_client: "w_clients w' c = w_clients w c \<Longrightarrow> Q d (player_of c w) \<Longrightarrow> Q d (player_of c w')"
  by (rule of_client [of "player_of c w"]) (simp_all add: truncate_player_of)

lemma sessionsI:
  assumes "all_sessions Q w"
    and "\<And>p i. find_key (m_mediaPlayerClientsInfo w') p = Some i \<Longrightarrow>
      (\<exists>j q. find_key (m_mediaPlayerClientsInfo w) q = Some j \<and> mi_client i = mi_client j \<and>
         w_clients w' (mi_client i) = w_clients w (mi_client i)) \<or> Q (mi_client i) (player_of (mi_client i) w')"
  shows "all_sessions Q w'"
  unfolding all_sessions_def
proof (intro allI impI)
  fix p i assume "find_key (m_mediaPlayerClientsInfo w') p = Some i"
  from assms(2) [OF this] assms(1) show "Q (mi_client i) (player_of (mi_client i) w')"
    unfolding all_sessions_def by (metis same_client)
qed

lemma sessions_same:
  assumes "all_sessions Q w" "m_mediaPlayerClientsInfo w' = m_mediaPlayerClientsInfo w" "w_clients w' = w_clients w"
  shows "all_sessions Q w'"
  using assms(1) same_client [of w' _ w] unfolding all_sessions_def assms(2) assms(3) by blast

lemma sessions_create:
  assumes ok: "all_sessions Q w" and inv: "manager_inv w"
  shows "all_sessions Q (createMediaPlayerClient e h p mw mh lv w)"
proof (cases "find_key (m_mediaPlayerClientsInfo w) p")
  case (Some i)
  then show ?thesis
    by (intro sessionsI [OF ok]) (auto simp: createMediaPlayerClient_def split: if_splits)
next
  case None
  define c where "c = w_next w"
  define w1 where "w1 = w\<lparr>w_clients := (w_clients w)(c := GStreamerMSEMediaPlayerClient mw mh lv), w_next := Suc c\<rparr>"
  obtain created s where cr: "createBackend e (player_of c w1) = (created, s)" by (cases "createBackend e (player_of c w1)")
  have start: "client_start (player_of c w1)"
    unfolding client_start_def by (auto simp: player_of_def w1_def)
  have new: "created \<Longrightarrow> Q c s" using of_new [OF start] cr by auto
  have new': "created \<Longrightarrow> w_clients w' c = client.truncate s \<Longrightarrow> Q c (player_of c w')" for w'
    by (rule of_client [of s]) (simp_all add: truncate_player_of new)
  have fresh: "find_key (m_mediaPlayerClientsInfo w) q = Some i \<Longrightarrow> mi_client i \<noteq> c" for q i
    using info_okD(3) [OF inv] c_def by fastforce
  show ?thesis
    unfolding createMediaPlayerClient_def None option.case Let_def on_client_def c_def [symmetric] w1_def [symmetric] cr
    using new' fresh
    by (cases created; intro sessionsI [OF ok]) (auto simp: do_client_def put_player_def w1_def map_add_def None
        simp del: map_of_eq_Some_iff split: if_splits option.splits)
qed

lemma sessions_release:
  assumes ok: "all_sessions Q w" and inv: "manager_inv w" and h: "h \<in> set (w_handles w)"
  shows "all_sessions Q (releaseMediaPlayerClient e h w)"
proof (cases "getMediaPlayerClient h w")
  case None
  then show ?thesis using ok by (simp add: releaseMediaPlayerClient_def)
next
  case (Some c)
  from inv h Some show ?thesis
  proof (cases rule: release_cases [where e = e])
    case (last p i)
    have "mi_client j \<noteq> c" if "find_key (m_mediaPlayerClientsInfo w) q = Some j" "q \<noteq> p" for q j
      using info_okD(6) [OF inv that(1) last(1)] that(2) last(2) by auto
    then show ?thesis
      unfolding last(5)
      by (intro sessionsI [OF ok]) (auto simp: put_player_def simp del: map_of_eq_Some_iff split: if_splits)
  next
    case (shared p i)
    then show ?thesis
      unfolding shared(6)
      by (intro sessionsI [OF ok]) (auto simp del: map_of_eq_Some_iff split: if_splits)
  qed
qed

lemma sessions_client:
  assumes "all_sessions Q w" "permitted (player_of c w) op" "ordinary op"
  shows "all_sessions Q (do_client c (client_exec op) w)"
proof (rule sessionsI [OF assms(1)], goal_cases)
  case (1 p i)
  then have i: "find_key (m_mediaPlayerClientsInfo w) p = Some i" by (simp add: do_client_def put_player_def)
  then have Q: "Q (mi_client i) (player_of (mi_client i) w)" using assms(1) by (simp add: all_sessions_def)
  show ?case
  proof (cases "mi_client i = c")
    case True
    have "Q c (client_exec op (player_of c w))" using of_op Q True assms(2,3) by simp
    then have "Q c (player_of c (do_client c (client_exec op) w))"
      by (rule of_client [rotated]) (simp add: truncate_player_of, simp add: do_client_def put_player_def)
    with True show ?thesis by simp
  next
    case False
    then show ?thesis using i by (intro disjI1 exI conjI) (auto simp: do_client_def put_player_def)
  qed
qed

lemma sessions_exec:
  assumes ok: "all_sessions Q w" and inv: "manager_inv w" and a: "world_allowed w op"
    and p: "\<And>c x. op = W_client c x \<Longrightarrow> permitted (player_of c w) x"
  shows "all_sessions Q (world_exec op w)"
proof (cases op)
  case (W_new h d)
  then show ?thesis by (intro sessions_same [OF ok]) (simp_all add: new_delegate_def)
next
  case (W_delete e h)
  let ?w = "w\<lparr>w_delegates := (w_delegates w)(h := clearBuffersUnlocked ((w_delegates w h)\<lparr>m_caps := None\<rparr>))\<rparr>"
  have "manager_inv ?w"
    by (rule manager_inv_same [OF inv])
      (auto simp: the_manager_def clearBuffersUnlocked_def setLastBuffer_def fun_eq_iff)
  moreover have "all_sessions Q ?w" by (rule sessions_same [OF ok]) simp_all
  ultimately have "all_sessions Q (releaseMediaPlayerClient e h ?w)"
    using a W_delete by (intro sessions_release) simp_all
  then show ?thesis
    by (rule sessions_same) (simp_all add: W_delete delete_delegate_def Let_def)
next
  case (W_attach e h p mw mh lv)
  then show ?thesis
    using a sessions_create [OF ok inv] sessions_release [OF ok inv, of h e]
      sessions_create [OF sessions_release [OF ok inv, of h e] manager_inv_release(1) [OF inv, of h e]] ok
    by (simp add: attachMediaPlayerClient_def Let_def split: option.splits)
next
  case (W_release e h)
  with sessions_release [OF ok inv] a show ?thesis by simp
next
  case (W_hasControl h)
  have "mi_client (snd (acquireControl h i)) = mi_client i" for i by (simp add: acquireControl_def)
  then show ?thesis
    unfolding W_hasControl
    by (intro sessionsI [OF ok])
      (auto simp: hasControl_def Let_def simp del: map_of_eq_Some_iff split: option.splits if_splits)
next
  case (W_client c op)
  with sessions_client [OF ok] a p show ?thesis by simp
qed

end

text \<open>The invariants that hold for the client of every pipeline, whatever the server does: its keys, the single
  announcement of its sources, and the order of the calls that create its backend.\<close>

definition session_ok :: "player \<Rightarrow> bool" where
  "session_ok s \<longleftrightarrow> session_calls (calls s) \<and> keys_inv s \<and> sent_once s"

lemma created_calls:
  assumes "createBackend e s = (True, t)" "calls s = []"
  shows "session_calls (calls t)"
  using assms
  by (auto simp: createBackend_def in_loop_def Let_def call_def session_calls_def split: if_splits)

lemma session_ok_new:
  assumes "client_start s" "createBackend e s = (True, t)"
  shows "session_ok t"
proof -
  have "calls s = []"
    using assms(1) by (auto simp: client_start_def client.defs GStreamerMSEMediaPlayerClient_def)
  then show ?thesis
    using created_calls [OF assms(2)] keys_inv_exec [OF keys_start [OF assms(1)], of "Playback (O_createBackend e)"]
      sent_once_created [OF assms] assms(2)
    by (simp add: session_ok_def)
qed

lemma session_ok_exec:
  assumes "session_ok s" "ordinary op"
  shows "session_ok (client_exec op s)"
  using assms keys_inv_exec [of s op] sent_once_exec [of op s] session_grown [OF _ grown_exec [OF assms(2) grown_refl], of s]
  by (simp add: session_ok_def)

lemma session_ok_client: "client.truncate s = client.truncate t \<Longrightarrow> session_ok s \<Longrightarrow> session_ok t"
  by (simp add: session_ok_def keys_inv_def sent_once_def client.defs)

interpretation ok: session_property "\<lambda>c. session_ok" "\<lambda>_ _. True"
  by unfold_locales (auto intro: session_ok_new session_ok_exec session_ok_client)

abbreviation sessions_ok :: "world \<Rightarrow> bool" where
  "sessions_ok \<equiv> all_sessions (\<lambda>c. session_ok)"

lemma world_start_inv: "world_start w \<Longrightarrow> manager_inv w \<and> all_sessions Q w"
  by (simp add: world_start_def manager_inv_def all_sessions_def infos_ok_def clients_distinct_def)

interpretation worlds: invariant_system world_start world_step "\<lambda>w. manager_inv w \<and> sessions_ok w"
  by unfold_locales (auto simp: world_start_inv world_step_def manager_inv_exec intro!: ok.sessions_exec)

text \<open>
  The order of play and pause commands depends on the server: in an orderly run it reports PAUSED,
  PLAYING or END\_OF\_STREAM only for a session that has announced its sources. The client itself does not
  check this.
\<close>

definition orderly :: "world \<Rightarrow> world_op \<Rightarrow> bool" where
  "orderly w op \<longleftrightarrow> (\<forall>c x. op = W_client c x \<longrightarrow> op_allowed (player_of c w) x)"

definition orderly_step :: "world \<Rightarrow> world \<Rightarrow> bool" where
  "orderly_step w w' \<longleftrightarrow> (\<exists>op. world_allowed w op \<and> orderly w op \<and> w' = world_exec op w)"

lemma orderly_world_step: "orderly_step w w' \<Longrightarrow> world_step w w'"
  by (auto simp: orderly_step_def world_step_def)

lemma proto_client: "client.truncate s = client.truncate t \<Longrightarrow> proto_inv s \<Longrightarrow> proto_inv t"
  by (simp add: proto_inv_def client.defs)

lemma proto_new: "client_start s \<Longrightarrow> createBackend e s = (True, t) \<Longrightarrow> proto_inv t"
  using proto_exec [OF proto_start, of s "Playback (O_createBackend e)"] by simp

interpretation order: session_property "\<lambda>c. proto_inv" op_allowed
  by unfold_locales (auto intro: proto_client proto_new proto_exec)

interpretation orderly_worlds: invariant_system world_start orderly_step
  "\<lambda>w. manager_inv w \<and> all_sessions (\<lambda>c. proto_inv) w"
  by unfold_locales
    (auto simp: world_start_inv orderly_step_def orderly_def manager_inv_exec intro!: order.sessions_exec)

section \<open>Control\<close>

lemma hasControl_effect:
  assumes inv: "manager_inv w" and h: "h \<in> set (w_handles w)" and c: "getMediaPlayerClient h w = Some c"
  defines "p \<equiv> m_currentGstBinParent (the_manager w h)"
  obtains i j where "find_key (m_mediaPlayerClientsInfo w) p = Some i" "mi_client i = c"
    "find_key (m_mediaPlayerClientsInfo (snd (hasControl h w))) p = Some j" "mi_client j = c"
    "the_manager (snd (hasControl h w)) = the_manager w" "w_handles (snd (hasControl h w)) = w_handles w"
    "fst (hasControl h w) \<longleftrightarrow> mi_controller i \<in> {None, Some h}"
    "mi_controller j = (if mi_controller i = None then Some h else mi_controller i)"
proof -
  obtain i where i: "find_key (m_mediaPlayerClientsInfo w) p = Some i" "mi_client i = c"
    using attached_info [OF inv h c] p_def by metis
  show thesis
    by (rule that [of i "if mi_controller i = Some h then i else snd (acquireControl h i)"])
      (use i c in \<open>auto simp: hasControl_def acquireControl_def p_def\<close>)
qed

lemma same_client_same_parent:
  assumes inv: "manager_inv w" and "h \<in> set (w_handles w)" "k \<in> set (w_handles w)"
    and "getMediaPlayerClient h w = Some c" "getMediaPlayerClient k w = Some c"
  shows "m_currentGstBinParent (the_manager w h) = m_currentGstBinParent (the_manager w k)"
proof -
  obtain i j where "find_key (m_mediaPlayerClientsInfo w) (m_currentGstBinParent (the_manager w h)) = Some i"
    "find_key (m_mediaPlayerClientsInfo w) (m_currentGstBinParent (the_manager w k)) = Some j"
    "mi_client i = c" "mi_client j = c"
    using attached_info [OF inv assms(2,4)] attached_info [OF inv assms(3,5)] by metis
  with info_okD(6) [OF inv] show ?thesis by metis
qed

section \<open>Properties\<close>

text \<open>A process with two sinks of the pipeline 7.\<close>

definition empty_world :: world where
  "empty_world = \<lparr>m_mediaPlayerClientsInfo = [], w_clients = (\<lambda>_. GStreamerMSEMediaPlayerClient 0 0 False),
     w_next = 0, w_handles = [], w_delegates = demo_delegates GST_STATE_READY GST_STATE_PAUSED\<rparr>"

definition demo_world :: world where
  "demo_world = fold world_exec
     [W_new 0 (demo_delegates GST_STATE_READY GST_STATE_PAUSED 0),
      W_new 1 (demo_delegates GST_STATE_READY GST_STATE_PAUSED 1),
      W_attach good_env 0 (Some 7) 0 0 False, W_attach good_env 1 (Some 7) 0 0 False] empty_world"

text \<open>The state after the four operations, evaluated.\<close>

definition demo_client :: client where
  "demo_client = (GStreamerMSEMediaPlayerClient 0 0 False)
     \<lparr>m_backendCreated := True, calls := [B_create 3840 2160, B_load False]\<rparr>"

definition demo_sinks :: "nat set \<Rightarrow> nat \<Rightarrow> delegate" where
  "demo_sinks A h = (demo_delegates GST_STATE_READY GST_STATE_PAUSED h)\<lparr>m_mediaPlayerManager :=
     (if h \<in> A then \<lparr>m_client = Some 0, m_currentGstBinParent = Some 7\<rparr> else detached)\<rparr>"

lemma demo_sinks_none: "demo_delegates GST_STATE_READY GST_STATE_PAUSED = demo_sinks {}"
  by (simp add: demo_sinks_def demo_delegates_def PullModePlaybackDelegate_def fun_eq_iff)

lemma demo_sinks_manager [simp]:
  "m_mediaPlayerManager (demo_sinks A h) =
     (if h \<in> A then \<lparr>m_client = Some 0, m_currentGstBinParent = Some 7\<rparr> else detached)"
  by (simp add: demo_sinks_def)

lemma demo_sinks_set:
  "(demo_sinks A)(h := (demo_sinks A h)\<lparr>m_mediaPlayerManager := \<lparr>m_client = Some 0, m_currentGstBinParent = Some 7\<rparr>\<rparr>) =
     demo_sinks (insert h A)"
  by (auto simp: demo_sinks_def fun_eq_iff)

lemma demo_create:
  "createBackend good_env (client.extend (GStreamerMSEMediaPlayerClient 0 0 False) \<lparr>delegates = ds\<rparr>) =
     (True, client.extend demo_client \<lparr>delegates = ds\<rparr>)"
  by (simp add: createBackend_def in_loop_def demo_client_def good_env_def GStreamerMSEMediaPlayerClient_def
      client.defs call_def DEFAULT_MAX_VIDEO_WIDTH_def DEFAULT_MAX_VIDEO_HEIGHT_def)

definition used_world :: "nat set \<Rightarrow> u32 \<Rightarrow> world" where
  "used_world A n = \<lparr>m_mediaPlayerClientsInfo = [(Some 7, \<lparr>mi_client = 0, mi_controller = Some 0, mi_refCount = n\<rparr>)],
     w_clients = (w_clients empty_world)(0 := demo_client), w_next = 1, w_handles = [1, 0],
     w_delegates = demo_sinks A\<rparr>"

lemma demo_first:
  "world_exec (W_new 1 (demo_delegates GST_STATE_READY GST_STATE_PAUSED 1))
     (world_exec (W_new 0 (demo_delegates GST_STATE_READY GST_STATE_PAUSED 0)) empty_world) =
   empty_world\<lparr>w_handles := [1, 0], w_delegates := demo_sinks {}\<rparr>"
  by (simp add: new_delegate_def empty_world_def demo_sinks_none)

lemma demo_second:
  "world_exec (W_attach good_env 0 (Some 7) 0 0 False)
     (empty_world\<lparr>w_handles := [1, 0], w_delegates := demo_sinks {}\<rparr>) = used_world {0} 1"
  by (simp add: attachMediaPlayerClient_def getMediaPlayerClient_def the_manager_def createMediaPlayerClient_def
      empty_world_def on_client_def player_of_def demo_create Let_def put_player_def set_manager_def
      used_world_def,
      simp add: demo_sinks_set client.defs demo_client_def GStreamerMSEMediaPlayerClient_def)

lemma demo_third: "world_exec (W_attach good_env 1 (Some 7) 0 0 False) (used_world {0} 1) = used_world {0, 1} 2"
  by (simp add: attachMediaPlayerClient_def getMediaPlayerClient_def the_manager_def createMediaPlayerClient_def
      used_world_def edit_info_def set_manager_def demo_sinks_set insert_commute)

lemma demo_world_value: "demo_world = used_world {0, 1} 2"
  using demo_first demo_second demo_third by (simp add: demo_world_def del: world_exec.simps)

lemma demo_world_orderly: "orderly_step\<^sup>*\<^sup>* empty_world demo_world"
proof -
  let ?ops = "[W_new 0 (demo_delegates GST_STATE_READY GST_STATE_PAUSED 0),
      W_new 1 (demo_delegates GST_STATE_READY GST_STATE_PAUSED 1),
      W_attach good_env 0 (Some 7) 0 0 False, W_attach good_env 1 (Some 7) 0 0 False]"
  have step: "world_allowed w op \<Longrightarrow> (\<And>c x. op \<noteq> W_client c x) \<Longrightarrow> orderly_step w (world_exec op w)" for w op
    by (auto simp: orderly_step_def orderly_def)
  have "orderly_step empty_world (world_exec (?ops ! 0) empty_world)"
    by (rule step) (simp_all add: empty_world_def demo_delegates_def PullModePlaybackDelegate_def)
  moreover have "orderly_step (world_exec (?ops ! 0) empty_world)
      (empty_world\<lparr>w_handles := [1, 0], w_delegates := demo_sinks {}\<rparr>)"
    using step [of "world_exec (?ops ! 0) empty_world" "?ops ! 1"] demo_first
    by (simp add: empty_world_def demo_delegates_def PullModePlaybackDelegate_def new_delegate_def del: world_exec.simps(2-))
  moreover have "orderly_step (empty_world\<lparr>w_handles := [1, 0], w_delegates := demo_sinks {}\<rparr>) (used_world {0} 1)"
    using step [of "empty_world\<lparr>w_handles := [1, 0], w_delegates := demo_sinks {}\<rparr>" "?ops ! 2"] demo_second
    by (simp del: world_exec.simps)
  moreover have "orderly_step (used_world {0} 1) demo_world"
    using step [of "used_world {0} 1" "?ops ! 3"] demo_third demo_world_value
    by (simp add: used_world_def del: world_exec.simps)
  ultimately show ?thesis by (meson converse_rtranclp_into_rtranclp rtranclp.rtrancl_refl)
qed

lemma demo_world_reachable: "world_step\<^sup>*\<^sup>* empty_world demo_world"
  using demo_world_orderly by (rule rtranclp_mono [THEN predicate2D, rotated]) (auto dest: orderly_world_step)

lemma empty_world_start: "world_start empty_world"
  by (simp add: world_start_def empty_world_def)

text \<open>
  C22. Counting of the users of a client. In every state that a process can reach, by any
  construction, destruction, attaching and releasing of sinks and any use of their clients, the
  reference count of the client of a pipeline is the number of sinks attached to it and not zero,
  the client is alive with a running queue and an existing backend, its session invariants hold,
  also that of the order of its commands if the server was orderly, and no attached sink refers to a
  client that is gone.
\<close>

theorem clients_are_counted:
  assumes "world_start w0" "world_step\<^sup>*\<^sup>* w0 w"
  shows "(\<forall>p i. find_key (m_mediaPlayerClientsInfo w) p = Some i \<longrightarrow>
      unat (mi_refCount i) = card (users w p (mi_client i)) \<and> mi_refCount i \<noteq> 0 \<and>
      client_up (w_clients w (mi_client i)) \<and> session_ok (player_of (mi_client i) w) \<and>
      (orderly_step\<^sup>*\<^sup>* w0 w \<longrightarrow> proto_inv (player_of (mi_client i) w))) \<and>
    (\<forall>h \<in> set (w_handles w). getMediaPlayerClient h w = m_client (the_manager w h))"
proof -
  have inv: "manager_inv w" "sessions_ok w" using worlds.inv_reachable [OF assms] by simp_all
  have "mi_refCount i \<noteq> 0" if "find_key (m_mediaPlayerClientsInfo w) p = Some i" for p i
    using info_okD(1,2) [OF inv(1) that] by auto
  moreover have "orderly_step\<^sup>*\<^sup>* w0 w \<longrightarrow> all_sessions (\<lambda>c. proto_inv) w"
    using orderly_worlds.inv_reachable [OF assms(1)] by blast
  ultimately show ?thesis
    using info_okD(1,5) [OF inv(1)] get_client_iff [OF inv(1)] inv(2)
    by (simp add: all_sessions_def del: map_of_eq_Some_iff)
qed

lemma demo_world_simps:
  "find_key (m_mediaPlayerClientsInfo demo_world) (Some 7) =
     Some \<lparr>mi_client = 0, mi_controller = Some 0, mi_refCount = 2\<rparr>"
  "w_handles demo_world = [1, 0]"
  "h \<in> {0, 1} \<Longrightarrow> the_manager demo_world h = \<lparr>m_client = Some 0, m_currentGstBinParent = Some 7\<rparr>"
  "h \<in> {0, 1} \<Longrightarrow> getMediaPlayerClient h demo_world = Some 0"
  by (auto simp: demo_world_value used_world_def the_manager_def getMediaPlayerClient_def)

theorem clients_are_counted_witness:
  "unat (2 :: u32) = card (users demo_world (Some 7) 0) \<and> client_up (w_clients demo_world 0) \<and>
   proto_inv (player_of 0 demo_world)"
proof -
  note c = clients_are_counted [OF empty_world_start demo_world_reachable, THEN conjunct1]
  show ?thesis using c [rule_format, OF demo_world_simps(1)] demo_world_orderly by simp
qed

text \<open>
  C23. Control over a session is exclusive and is handed over. When one of two sinks of the same
  client has control, the other one does not, whoever asked first; after the sink in control has
  released the client, the other sink gets control when it asks.
\<close>

theorem control_is_exclusive:
  assumes "world_start w0" "world_step\<^sup>*\<^sup>* w0 w" "h \<in> set (w_handles w)" "k \<in> set (w_handles w)" "h \<noteq> k"
    and "getMediaPlayerClient h w = Some c" "getMediaPlayerClient k w = Some c" "fst (hasControl h w)"
  shows "\<not> fst (hasControl k (snd (hasControl h w))) \<and>
    fst (hasControl k (releaseMediaPlayerClient e h (snd (hasControl h w))))"
proof -
  define w1 where "w1 = snd (hasControl h w)"
  let ?p = "m_currentGstBinParent (the_manager w h)"
  have inv: "manager_inv w" using worlds.inv_reachable [OF assms(1,2)] by simp
  have inv1: "manager_inv w1" using manager_inv_control [OF inv assms(3)] by (simp add: w1_def)
  obtain j where j: "find_key (m_mediaPlayerClientsInfo w1) ?p = Some j" "mi_client j = c"
    "mi_controller j = Some h" "the_manager w1 = the_manager w" "w_handles w1 = w_handles w"
    using hasControl_effect [OF inv assms(3,6)] assms(8) unfolding w1_def [symmetric] by (metis insertE singletonD)
  have kh: "k \<in> set (w_handles w1)" "h \<in> set (w_handles w1)" using j(5) assms(3,4) by simp_all
  have par: "m_currentGstBinParent (the_manager w1 k) = ?p"
    using same_client_same_parent [OF inv assms(3,4,6,7)] j(4) by simp
  have gk: "getMediaPlayerClient k w1 = Some c" "getMediaPlayerClient h w1 = Some c"
    using get_client_iff [OF inv1] kh j(4) get_client_iff [OF inv] assms(3,4,6,7) by simp_all
  have no: "\<not> fst (hasControl k w1)"
    using hasControl_effect [OF inv1 kh(1) gk(1)] par j assms(5) by (metis insertE option.distinct(1) option.inject singletonD)
  have ku: "k \<in> users w1 ?p c"
    using attached_info [OF inv1 kh(1) gk(1)] par by metis
  define w2 where "w2 = releaseMediaPlayerClient e h w1"
  have r: "manager_inv w2" "the_manager w2 = (the_manager w1)(h := detached)" "w_handles w2 = w_handles w1"
    unfolding w2_def by (rule manager_inv_release [OF inv1 kh(2)])+
  have k2: "getMediaPlayerClient k w2 = Some c"
    using get_client_iff [OF r(1)] kh(1) r(2,3) assms(5) get_client_iff [OF inv1 kh(1)] gk(1) by simp
  have "find_key (m_mediaPlayerClientsInfo w2) ?p = Some (j\<lparr>mi_refCount := mi_refCount j - 1, mi_controller := None\<rparr>)"
    using inv1 kh(2) gk(2)
  proof (cases rule: release_cases [where e = e])
    case (last p i)
    then have "p = ?p" using info_okD(6) [OF inv1 last(1) j(1)] j(2) by simp
    with last(3) ku assms(5) show ?thesis by simp
  next
    case (shared p i)
    then have "p = ?p" using info_okD(6) [OF inv1 shared(1) j(1)] j(2) by simp
    with j show ?thesis unfolding w2_def shared(6) by simp
  qed
  moreover have "m_currentGstBinParent (the_manager w2 k) = ?p" using r(2) par assms(5) by simp
  moreover obtain i where "find_key (m_mediaPlayerClientsInfo w2) (m_currentGstBinParent (the_manager w2 k)) = Some i"
    "fst (hasControl k w2) \<longleftrightarrow> mi_controller i \<in> {None, Some k}"
    using hasControl_effect [OF r(1) _ k2] r(3) kh(1) by metis
  ultimately show ?thesis using no by (auto simp: w1_def w2_def)
qed

theorem control_is_exclusive_witness:
  "\<not> fst (hasControl 1 (snd (hasControl 0 demo_world))) \<and>
   fst (hasControl 1 (releaseMediaPlayerClient good_env 0 (snd (hasControl 0 demo_world))))"
proof (rule control_is_exclusive [OF empty_world_start demo_world_reachable])
  show "getMediaPlayerClient 0 demo_world = Some 0" "getMediaPlayerClient 1 demo_world = Some 0"
    by (simp_all add: demo_world_value used_world_def getMediaPlayerClient_def the_manager_def)
qed (simp_all add: demo_world_value used_world_def getMediaPlayerClient_def the_manager_def hasControl_def)

text \<open>
  C24. A session ends with its last sink and not before. When a sink releases its client and others
  are attached, the client does not change and stays registered with a count reduced by one. When
  it is the last one, the pipeline is unregistered, the server was told to stop, the queue is
  stopped and the backend is gone. In both cases the sink is detached and no other sink is.
\<close>

theorem last_sink_ends_session:
  fixes e :: env
  assumes "world_start w0" "world_step\<^sup>*\<^sup>* w0 w" "h \<in> set (w_handles w)"
    and "getMediaPlayerClient h w = Some c"
  defines "w' \<equiv> releaseMediaPlayerClient e h w" and "p \<equiv> m_currentGstBinParent (the_manager w h)"
  shows "the_manager w' = (the_manager w)(h := detached) \<and>
    (if users w p c = {h}
     then find_key (m_mediaPlayerClientsInfo w') p = None \<and>
       grown (calls (w_clients w c) @ [B_stop]) (player_of c w') \<and>
       \<not> queueRunning (w_clients w' c) \<and> \<not> m_clientBackend (w_clients w' c)
     else w_clients w' = w_clients w \<and>
       (\<exists>i j. find_key (m_mediaPlayerClientsInfo w) p = Some i \<and> find_key (m_mediaPlayerClientsInfo w') p = Some j \<and>
          mi_client j = c \<and> mi_refCount j = mi_refCount i - 1))"
proof -
  have inv: "manager_inv w" using worlds.inv_reachable [OF assms(1,2)] by simp
  have m: "the_manager w' = (the_manager w)(h := detached)"
    unfolding w'_def by (rule manager_inv_release [OF inv assms(3)])
  have at: "find_key (m_mediaPlayerClientsInfo w) q = Some i \<Longrightarrow> mi_client i = c \<Longrightarrow> q = p" for q i
    using attached_info [OF inv assms(3,4)] info_okD(6) [OF inv] unfolding p_def by metis
  from inv assms(3,4) show ?thesis
  proof (cases rule: release_cases [where e = e])
    case (last q i)
    have q: "q = p" using at last(1,2) by simp
    let ?s = "player_of c w"
    have up: "life ?s = (True, True, True, True, False)"
      using info_okD(5) [OF inv last(1)] last(2) client_up_player by simp
    then have s: "stop ?s = call B_stop ?s" by (simp add: stop_def in_loop_def life_def)
    have run: "queueRunning (stop ?s)" "\<not> m_streamingStopped (stop ?s)"
      using up life_cycle(4) [of ?s] by (auto simp: shell_def life_def)
    have g: "grown (calls ?s @ [B_stop]) (stopStreaming e (stop ?s))"
      by (rule grown_stopStreaming) (simp add: s grown_def)
    have "silent (stopStreaming e (stop ?s))" by (rule stopStreaming_silent [OF run])
    then have "\<not> queueRunning (torn_down e ?s)" "\<not> m_clientBackend (torn_down e ?s)"
      by (simp_all add: torn_down_def destroyClientBackend_def silent_def)
    moreover have "grown (calls (w_clients w c) @ [B_stop]) (torn_down e ?s)"
      using g by (simp add: torn_down_def destroyClientBackend_def player_of_def client.defs)
    ultimately show ?thesis
      using m q last(3) unfolding w'_def last(5)
      by (auto simp: put_player_def set_manager_def player_of_def client.defs grown_def)
  next
    case (shared q i)
    have "q = p" using at shared(1,2) by simp
    with shared m show ?thesis unfolding w'_def shared(6) by simp
  qed
qed

theorem last_sink_ends_session_witness:
  "let w' = releaseMediaPlayerClient good_env 1 demo_world
   in getMediaPlayerClient 1 w' = None \<and> w_clients w' = w_clients demo_world"
proof -
  have "0 \<in> users demo_world (Some 7) 0" by (simp add: users_def demo_world_simps)
  then have "users demo_world (Some 7) 0 \<noteq> {1}" by auto
  moreover have "1 \<in> set (w_handles demo_world)" by (simp add: demo_world_simps)
  ultimately show ?thesis
    using last_sink_ends_session [OF empty_world_start demo_world_reachable, of 1 0 good_env]
    by (simp add: Let_def getMediaPlayerClient_def [of _ "releaseMediaPlayerClient _ _ _"] demo_world_simps)
qed

end
