(* ===== verification/Pull_Delegate.thy ===== *)
theory Pull_Delegate
  imports Media_Player_Manager
begin

text \<open>
  \<open>PullModePlaybackDelegate.cpp\<close>: what a sink does with state changes, events, queries, buffers and
  properties, apart from what the audio, video and subtitle subclasses add.

  Every method is a function on \<open>world\<close> for the delegate with handle \<open>h\<close>. A method that waits for a
  condition variable gives \<open>Waits\<close> in a state in which it waits; the call goes on in a later state.

  The record \<open>gst_env\<close> holds, beside the answers of the backend, those of GStreamer for the sink: the
  application state of Rialto within the timeout of \<open>waitForRunning\<close>, the structure of the
  ``streams-info'' context, the properties of the outermost bin, and the segment functions.
\<close>

section \<open>Outcomes\<close>

text \<open>A call returns, waits in its present state, or ends the process: the construction of a
  \<open>std::string\<close> or a scan from a null pointer, a call through a null client, a division by zero or
  the front of an empty queue.\<close>

datatype fault = Null_String | Null_Client | Division_By_Zero | Empty_Queue

datatype 'a outcome = Returns 'a | Waits | Faults fault

section \<open>The environment of a sink\<close>

text \<open>An element with the chain of its parents.\<close>

datatype gst_node = GstNode (node_address: nat) (GST_IS_BIN: bool) (node_parent: "gst_node option")

text \<open>The arguments of a seek event.\<close>

datatype GstSeekType = GST_SEEK_TYPE_NONE | GST_SEEK_TYPE_SET | GST_SEEK_TYPE_END

record GstSeek =
  sk_rate :: real
  sk_format :: GstFormat
  sk_flags :: u32
  sk_startType :: GstSeekType
  sk_start :: int
  sk_stopType :: GstSeekType
  sk_stop :: int

definition GST_SEEK_FLAG_FLUSH :: u32 where "GST_SEEK_FLAG_FLUSH = 1"
definition GST_SEEK_FLAG_INSTANT_RATE_CHANGE :: u32 where "GST_SEEK_FLAG_INSTANT_RATE_CHANGE = 1024"

record gst_env =
  backend :: env
  control_running :: bool
  sink_node :: gst_node
  streams_info :: "GstStructure option"
  parent_n_streams :: "(int \<times> int \<times> int) option"
  parent_flags :: "u32 option"
  play_flag :: "string \<Rightarrow> u32 option"
  gst_caps_is_equal :: "GstCaps \<Rightarrow> GstCaps \<Rightarrow> bool"
  gst_segment_to_stream_time :: "GstSegment \<Rightarrow> GstFormat \<Rightarrow> u64 \<Rightarrow> u64"
  gst_segment_do_seek :: "GstSegment \<Rightarrow> GstSeek \<Rightarrow> GstSegment"
  pad_accepts_event :: bool
  pad_push_event :: bool
  sample_created :: bool

fun getOldestGstBinParent :: "gst_node \<Rightarrow> nat" where
  "getOldestGstBinParent (GstNode a b None) = a"
| "getOldestGstBinParent (GstNode a b (Some parent)) =
     (if GST_IS_BIN parent then getOldestGstBinParent parent else a)"

definition getGstPlayFlag :: "gst_env \<Rightarrow> string \<Rightarrow> u32" where
  "getGstPlayFlag g nick = (case play_flag g nick of Some v \<Rightarrow> v | None \<Rightarrow> 0)"

definition getNStreamsFromParent :: "gst_env \<Rightarrow> (int \<times> int \<times> int) option" where
  "getNStreamsFromParent g =
     (case parent_n_streams g of
        None \<Rightarrow> None
      | Some (n_video, n_audio, n_text) \<Rightarrow>
          (case parent_flags g of
             None \<Rightarrow> Some (n_video, n_audio, n_text)
           | Some flags \<Rightarrow>
               Some (if and flags (getGstPlayFlag g ''video'') \<noteq> 0 then n_video else 0,
                     if and flags (getGstPlayFlag g ''audio'') \<noteq> 0 then n_audio else 0,
                     if and flags (getGstPlayFlag g ''text'') \<noteq> 0 then n_text else 0)))"

definition upd_d :: "nat \<Rightarrow> (delegate \<Rightarrow> delegate) \<Rightarrow> world \<Rightarrow> world" where
  "upd_d h f w = w\<lparr>w_delegates := (w_delegates w)(h := f (w_delegates w h))\<rparr>"

section \<open>Attaching to the client\<close>

definition isLiveLatencyEnabled :: "gst_env \<Rightarrow> bool" where
  "isLiveLatencyEnabled g =
     (case streams_info g of
        None \<Rightarrow> False
      | Some st \<Rightarrow> (case gst_structure_get_boolean st ''enable-live-latency'' of None \<Rightarrow> False | Some b \<Rightarrow> b))"

definition uint_field :: "GstStructure \<Rightarrow> string \<Rightarrow> u32" where
  "uint_field st name = (case gst_structure_get_uint st name of None \<Rightarrow> 0 | Some v \<Rightarrow> v)"

text \<open>The numbers of video, audio and subtitle streams; \<open>None\<close> when one is too big.\<close>

definition streamsNumber :: "gst_env \<Rightarrow> delegate \<Rightarrow> (int \<times> int \<times> int) option" where
  "streamsNumber g d =
     (case streams_info g of
        Some st \<Rightarrow>
          (let n_video = uint_field st ''video-streams''; n_audio = uint_field st ''audio-streams'';
               n_text = uint_field st ''text-streams''
           in if n_video > 2147483647 \<or> n_audio > 2147483647 \<or> n_text > 2147483647 then None
              else Some (uint n_video, uint n_audio, uint n_text))
      | None \<Rightarrow>
          (case getNStreamsFromParent g of
             Some n \<Rightarrow> Some n
           | None \<Rightarrow>
               Some (if m_mediaSourceType d = MST_VIDEO
                     then (m_numOfStreams d, if m_isSinglePathStream d then 0 else -1, 0)
                     else if m_mediaSourceType d = MST_AUDIO
                     then (if m_isSinglePathStream d then 0 else -1, m_numOfStreams d, 0)
                     else if m_mediaSourceType d = MST_SUBTITLE
                     then (if m_isSinglePathStream d then 0 else -1,
                           if m_isSinglePathStream d then 0 else -1, m_numOfStreams d)
                     else (-1, -1, 0))))"

definition setStreamsNumber :: "gst_env \<Rightarrow> nat \<Rightarrow> world \<Rightarrow> bool \<times> world" where
  "setStreamsNumber g h w =
     (case streamsNumber g (w_delegates w h) of
        None \<Rightarrow> (False, w)
      | Some (videoStreams, audioStreams, subtitleStreams) \<Rightarrow>
          (case getMediaPlayerClient h w of
             None \<Rightarrow> (False, w)
           | Some c \<Rightarrow> (True, do_client c (handleStreamCollection audioStreams videoStreams subtitleStreams) w)))"

definition attachToMediaClientAndSetStreamsNumber :: "gst_env \<Rightarrow> nat \<Rightarrow> u32 \<Rightarrow> u32 \<Rightarrow> world \<Rightarrow> bool \<times> world" where
  "attachToMediaClientAndSetStreamsNumber g h maxVideoWidth maxVideoHeight w =
     (case attachMediaPlayerClient (backend g) h (Some (getOldestGstBinParent (sink_node g)))
             maxVideoWidth maxVideoHeight (isLiveLatencyEnabled g) w of
        (False, w1) \<Rightarrow> (False, w1)
      | (True, w1) \<Rightarrow> setStreamsNumber g h w1)"

section \<open>State changes\<close>

text \<open>\<open>PullModePlaybackDelegate::changeState\<close>. \<open>removeControlBackend\<close> is recorded in the delegate.\<close>

fun changeState :: "gst_env \<Rightarrow> nat \<Rightarrow> GstStateChange \<Rightarrow> world \<Rightarrow> GstStateChangeReturn \<times> world" where
  "changeState g h GST_STATE_CHANGE_NULL_TO_READY w =
     (if \<not> m_sinkPad (w_delegates w h) then (GST_STATE_CHANGE_FAILURE, w)
      else if \<not> control_running g then (GST_STATE_CHANGE_FAILURE, w)
      else (GST_STATE_CHANGE_SUCCESS, w))"
| "changeState g h GST_STATE_CHANGE_READY_TO_PAUSED w =
     (case getMediaPlayerClient h w of
        None \<Rightarrow> (GST_STATE_CHANGE_FAILURE, w)
      | Some c \<Rightarrow>
          (let w1 = upd_d h (\<lambda>d. d\<lparr>m_isSinkFlushOngoing := False\<rparr>) w
           in case on_client c (pause (m_sourceId (w_delegates w1 h))) w1 of
                (SUCCESS_SYNC, w2) \<Rightarrow> (GST_STATE_CHANGE_SUCCESS, w2)
              | (SUCCESS_ASYNC, w2) \<Rightarrow> (GST_STATE_CHANGE_ASYNC, w2)
              | (NOT_ATTACHED, w2) \<Rightarrow> (GST_STATE_CHANGE_ASYNC, upd_d h postAsyncStart w2)))"
| "changeState g h GST_STATE_CHANGE_PAUSED_TO_PLAYING w =
     (case getMediaPlayerClient h w of
        None \<Rightarrow> (GST_STATE_CHANGE_FAILURE, w)
      | Some c \<Rightarrow>
          (case on_client c (play (backend g) (m_sourceId (w_delegates w h))) w of
             (SUCCESS_SYNC, w1) \<Rightarrow> (GST_STATE_CHANGE_SUCCESS, w1)
           | (SUCCESS_ASYNC, w1) \<Rightarrow> (GST_STATE_CHANGE_ASYNC, w1)
           | (NOT_ATTACHED, w1) \<Rightarrow> (GST_STATE_CHANGE_FAILURE, w1)))"
| "changeState g h GST_STATE_CHANGE_PLAYING_TO_PAUSED w =
     (case getMediaPlayerClient h w of
        None \<Rightarrow> (GST_STATE_CHANGE_FAILURE, w)
      | Some c \<Rightarrow>
          (case on_client c (pause (m_sourceId (w_delegates w h))) w of
             (SUCCESS_SYNC, w1) \<Rightarrow> (GST_STATE_CHANGE_SUCCESS, w1)
           | (SUCCESS_ASYNC, w1) \<Rightarrow> (GST_STATE_CHANGE_ASYNC, w1)
           | (NOT_ATTACHED, w1) \<Rightarrow> (GST_STATE_CHANGE_FAILURE, w1)))"
| "changeState g h GST_STATE_CHANGE_PAUSED_TO_READY w =
     (case getMediaPlayerClient h w of
        None \<Rightarrow> (GST_STATE_CHANGE_FAILURE, w)
      | Some c \<Rightarrow>
          (let w1 = (if m_isStateCommitNeeded (w_delegates w h) then upd_d h postAsyncDone w else w);
               w2 = do_client c (Media_Player_Client.removeSource (backend g) (m_sourceId (w_delegates w1 h))) w1
           in (GST_STATE_CHANGE_SUCCESS,
               upd_d h (\<lambda>d. (clearBuffersUnlocked d)\<lparr>m_sourceAttached := False\<rparr>) w2)))"
| "changeState g h GST_STATE_CHANGE_READY_TO_NULL w =
     (GST_STATE_CHANGE_SUCCESS,
      upd_d h (\<lambda>d. d\<lparr>m_controlRemoved := True\<rparr>) (releaseMediaPlayerClient (backend g) h w))"
| "changeState g h GST_STATE_CHANGE_OTHER w = (GST_STATE_CHANGE_SUCCESS, w)"

section \<open>Flushing and segments\<close>

definition copySegment :: "nat \<Rightarrow> GstSegment \<Rightarrow> world \<Rightarrow> world" where
  "copySegment h segment w = upd_d h (\<lambda>d. d\<lparr>m_lastSegment := segment\<rparr>) w"

definition setSegment :: "gst_env \<Rightarrow> nat \<Rightarrow> world \<Rightarrow> world" where
  "setSegment g h w =
     (case getMediaPlayerClient h w of
        None \<Rightarrow> w
      | Some c \<Rightarrow>
          (let d = w_delegates w h; segment = m_lastSegment d
           in upd_d h (\<lambda>d. d\<lparr>m_segmentSet := True\<rparr>)
                (do_client c (setSourcePosition (backend g) (m_sourceId d) (sint (seg_start segment))
                   (seg_flags_reset_only segment) (seg_applied_rate segment) (seg_stop segment)) w)))"

text \<open>Setting the playback rate from an event needs control over the session.\<close>

definition controlled_rate :: "nat \<Rightarrow> real \<Rightarrow> world \<Rightarrow> bool \<times> world" where
  "controlled_rate h rate w =
     (case getMediaPlayerClient h w of
        None \<Rightarrow> (False, w)
      | Some c \<Rightarrow>
          (case hasControl h w of
             (False, w1) \<Rightarrow> (False, w1)
           | (True, w1) \<Rightarrow> (True, do_client c (setPlaybackRate rate) w1)))"

definition changePlaybackRate :: "nat \<Rightarrow> GstStructure \<Rightarrow> world \<Rightarrow> world" where
  "changePlaybackRate h structure w =
     (case gst_structure_get_double structure ''rate'' of
        None \<Rightarrow> w
      | Some playbackRate \<Rightarrow> snd (controlled_rate h playbackRate w))"

definition startFlushing_unblocked :: "nat \<Rightarrow> world \<Rightarrow> world" where
  "startFlushing_unblocked h w =
     (if \<not> m_isSinkFlushOngoing (w_delegates w h)
      then upd_d h (\<lambda>d. clearBuffersUnlocked (d\<lparr>m_isEos := False, m_isSinkFlushOngoing := True,
                          m_segmentSet := False\<rparr>)) w
      else w)"

definition startFlushing :: "nat \<Rightarrow> world \<Rightarrow> world outcome" where
  "startFlushing h w =
     (case getMediaPlayerClient h w of
        None \<Rightarrow> Returns (startFlushing_unblocked h w)
      | Some c \<Rightarrow>
          if waitIfRequired (m_sourceId (w_delegates w h)) (m_flushAndDataSynchronizer (w_clients w c))
          then Returns (startFlushing_unblocked h w) else Waits)"

definition flushServer :: "gst_env \<Rightarrow> nat \<Rightarrow> bool \<Rightarrow> world \<Rightarrow> world" where
  "flushServer g h resetTime w =
     (case getMediaPlayerClient h w of
        None \<Rightarrow> w
      | Some c \<Rightarrow>
          (let w1 = upd_d h (\<lambda>d. d\<lparr>m_isServerFlushOngoing := True, m_isTimeResetOngoing := True\<rparr>) w
           in do_client c (flush (backend g) (m_sourceId (w_delegates w1 h)) resetTime) w1))"

definition stopFlushing :: "gst_env \<Rightarrow> nat \<Rightarrow> bool \<Rightarrow> world \<Rightarrow> world" where
  "stopFlushing g h resetTime w =
     upd_d h (\<lambda>d. let d1 = d\<lparr>m_isSinkFlushOngoing := False\<rparr>
                  in if resetTime then upd_sink (gst_element_post_message MSG_RESET_TIME) d1 else d1)
       (flushServer g h resetTime w)"

section \<open>Events from upstream\<close>

text \<open>Stream types are flags.\<close>

definition GST_STREAM_TYPE_AUDIO :: u32 where "GST_STREAM_TYPE_AUDIO = 2"
definition GST_STREAM_TYPE_VIDEO :: u32 where "GST_STREAM_TYPE_VIDEO = 4"
definition GST_STREAM_TYPE_TEXT :: u32 where "GST_STREAM_TYPE_TEXT = 16"

datatype GstEvent =
    EVENT_SEGMENT GstSegment | EVENT_EOS | EVENT_CAPS GstCaps | EVENT_SINK_MESSAGE "nat option"
  | EVENT_CUSTOM_DOWNSTREAM string GstStructure "GstCaps option" | EVENT_FLUSH_START
  | EVENT_FLUSH_STOP bool | EVENT_STREAM_COLLECTION "u32 list"
  | EVENT_INSTANT_RATE_CHANGE real u32 | EVENT_OTHER

text \<open>The loop over the streams of a collection: audio, video, text.\<close>

fun count_streams :: "u32 list \<Rightarrow> int \<times> int \<times> int \<Rightarrow> int \<times> int \<times> int" where
  "count_streams [] n = n"
| "count_streams (type # types) (audioStreams, videoStreams, textStreams) =
     count_streams types
       (if and type GST_STREAM_TYPE_AUDIO \<noteq> 0 then (audioStreams + 1, videoStreams, textStreams)
        else if and type GST_STREAM_TYPE_VIDEO \<noteq> 0 then (audioStreams, videoStreams + 1, textStreams)
        else if and type GST_STREAM_TYPE_TEXT \<noteq> 0 then (audioStreams, videoStreams, textStreams + 1)
        else (audioStreams, videoStreams, textStreams))"

definition notify_data :: "nat \<Rightarrow> world \<Rightarrow> world" where
  "notify_data h w =
     (case getMediaPlayerClient h w of
        None \<Rightarrow> w
      | Some c \<Rightarrow> do_client c (edit_sync (notifyDataReceived (m_sourceId (w_delegates w h)))) w)"

definition set_caps :: "gst_env \<Rightarrow> GstCaps \<Rightarrow> delegate \<Rightarrow> delegate" where
  "set_caps g caps d =
     (case m_caps d of
        Some old \<Rightarrow> if \<not> gst_caps_is_equal g caps old then d\<lparr>m_caps := Some caps\<rparr> else d
      | None \<Rightarrow> d\<lparr>m_caps := Some caps\<rparr>)"

fun handleEvent :: "gst_env \<Rightarrow> nat \<Rightarrow> GstEvent \<Rightarrow> world \<Rightarrow> (bool \<times> world) outcome" where
  "handleEvent g h (EVENT_SEGMENT segment) w = Returns (True, setSegment g h (copySegment h segment w))"
| "handleEvent g h EVENT_EOS w = Returns (True, notify_data h (upd_d h (\<lambda>d. d\<lparr>m_isEos := True\<rparr>) w))"
| "handleEvent g h (EVENT_CAPS caps) w = Returns (True, upd_d h (set_caps g caps) w)"
| "handleEvent g h (EVENT_SINK_MESSAGE msg) w =
     Returns (True, case msg of None \<Rightarrow> w
                 | Some m \<Rightarrow> upd_d h (upd_sink (gst_element_post_message (MSG_FORWARDED m))) w)"
| "handleEvent g h (EVENT_CUSTOM_DOWNSTREAM name structure caps) w =
     Returns (True, if name = ''custom-instant-rate-change'' then changePlaybackRate h structure w else w)"
| "handleEvent g h EVENT_FLUSH_START w = map_outcome (\<lambda>w1. (True, w1)) (startFlushing h w)"
| "handleEvent g h (EVENT_FLUSH_STOP resetTime) w = Returns (True, stopFlushing g h resetTime w)"
| "handleEvent g h (EVENT_STREAM_COLLECTION types) w =
     (case getMediaPlayerClient h w of
        None \<Rightarrow> Returns (False, w)
      | Some c \<Rightarrow>
          (case count_streams types (0, 0, 0) of
             (audioStreams, videoStreams, textStreams) \<Rightarrow>
               Returns (True, do_client c sendAllSourcesAttachedIfPossible
                 (do_client c (handleStreamCollection audioStreams videoStreams textStreams) w))))"
| "handleEvent g h (EVENT_INSTANT_RATE_CHANGE rate seqnum) w =
     Returns (True,
       if m_lastInstantRateChangeSeqnum (w_delegates w h) = seqnum \<or>
          m_currentInstantRateChangeSeqnum (w_delegates w h) = seqnum
       then w
       else upd_d h (\<lambda>d. upd_sink (gst_element_post_message (MSG_INSTANT_RATE_REQUEST rate seqnum))
                           (d\<lparr>m_lastInstantRateChangeSeqnum := seqnum\<rparr>)) w)"
| "handleEvent g h EVENT_OTHER w = Returns (True, w)"

section \<open>Events sent to the sink\<close>

text \<open>Seeks and rate synchronisations travel upstream; \<open>SEND_OTHER\<close> says whether another event does.\<close>

datatype send_event = SEND_SEEK GstSeek u32 | SEND_INSTANT_RATE_SYNC_TIME real u32 | SEND_OTHER bool

text \<open>The sink pad, when it accepts an event, hands it to the delegate and returns its result.\<close>

fun handleSendEvent :: "gst_env \<Rightarrow> nat \<Rightarrow> send_event \<Rightarrow> world \<Rightarrow> bool \<times> world" where
  "handleSendEvent g h (SEND_SEEK seek seqnum) w =
     (if and (sk_flags seek) GST_SEEK_FLAG_FLUSH \<noteq> 0
      then (if sk_format seek = GST_FORMAT_TIME \<and> sk_startType seek = GST_SEEK_TYPE_END then (False, w)
            else (pad_push_event g,
                  if sk_format seek = GST_FORMAT_TIME
                  then upd_d h (\<lambda>d. d\<lparr>m_lastSegment := gst_segment_do_seek g (m_lastSegment d) seek\<rparr>) w
                  else w))
      else if and (sk_flags seek) GST_SEEK_FLAG_INSTANT_RATE_CHANGE \<noteq> 0
      then (if \<not> pad_accepts_event g then (False, w)
            else case handleEvent g h (EVENT_INSTANT_RATE_CHANGE
                        (sk_rate seek / seg_rate (m_lastSegment (w_delegates w h))) seqnum) w of
                   Returns (ok, w1) \<Rightarrow> (ok, w1)
                 | _ \<Rightarrow> (False, w))
      else (False, w))"
| "handleSendEvent g h (SEND_INSTANT_RATE_SYNC_TIME rate seqnum) w =
     (pad_push_event g,
      case getMediaPlayerClient h w of
        None \<Rightarrow> w
      | Some c \<Rightarrow>
          (case hasControl h w of
             (False, w1) \<Rightarrow> w1
           | (True, w1) \<Rightarrow> do_client c (setPlaybackRate rate)
                             (upd_d h (\<lambda>d. d\<lparr>m_currentInstantRateChangeSeqnum := seqnum\<rparr>) w1)))"
| "handleSendEvent g h (SEND_OTHER upstream) w = (if upstream then pad_push_event g else True, w)"

section \<open>Queries\<close>

datatype GstQuery = QUERY_SEEKING GstFormat | QUERY_POSITION GstFormat | QUERY_SEGMENT
  | QUERY_DURATION GstFormat | QUERY_OTHER

text \<open>What is written into the query.\<close>

datatype query_answer = NOT_SET | SET_SEEKING GstFormat bool int int | SET_POSITION GstFormat int
  | SET_SEGMENT real GstFormat int int | SET_DURATION GstFormat int

text \<open>The result is \<open>None\<close> for a query that the delegate leaves to the base class.\<close>

fun handleQuery :: "gst_env \<Rightarrow> nat \<Rightarrow> GstQuery \<Rightarrow> world \<Rightarrow> bool option \<times> query_answer" where
  "handleQuery g h (QUERY_SEEKING fmt) w = (Some True, SET_SEEKING fmt False 0 (-1))"
| "handleQuery g h (QUERY_POSITION fmt) w =
     (case getMediaPlayerClient h w of
        None \<Rightarrow> (Some False, NOT_SET)
      | Some c \<Rightarrow>
          if m_isServerFlushOngoing (w_delegates w h) \<and> m_isTimeResetOngoing (w_delegates w h)
          then (Some False, NOT_SET)
          else if fmt = GST_FORMAT_TIME
          then (let position = getPosition (player_of c w)
                in if position < 0 then (Some False, NOT_SET) else (Some True, SET_POSITION fmt position))
          else (Some True, NOT_SET))"
| "handleQuery g h QUERY_SEGMENT w =
     (let segment = m_lastSegment (w_delegates w h); format = seg_format segment;
          start = sint (gst_segment_to_stream_time g segment format (seg_start segment));
          stop = (if seg_stop segment = GST_CLOCK_TIME_NONE then sint (seg_duration segment)
                  else sint (gst_segment_to_stream_time g segment format (seg_stop segment)))
      in (Some True, SET_SEGMENT (seg_rate segment) format start stop))"
| "handleQuery g h (QUERY_DURATION fmt) w =
     (case getMediaPlayerClient h w of
        None \<Rightarrow> (Some False, NOT_SET)
      | Some c \<Rightarrow>
          if fmt \<noteq> GST_FORMAT_TIME then (Some False, NOT_SET)
          else (case fst (getDuration (backend g) (-1) (player_of c w)) of
                  (False, _) \<Rightarrow> (Some False, NOT_SET)
                | (True, duration) \<Rightarrow> (Some True, SET_DURATION fmt duration)))"
| "handleQuery g h QUERY_OTHER w = (None, NOT_SET)"

section \<open>Buffers\<close>

definition kMaxInternalBuffersQueueSize :: nat where "kMaxInternalBuffersQueueSize = 24"

definition new_sample :: "delegate \<Rightarrow> GstBuffer \<Rightarrow> GstSample" where
  "new_sample d buffer = \<lparr>sample_buffer = buffer, sample_caps = m_caps d, sample_segment = m_lastSegment d\<rparr>"

text \<open>The part of \<open>handleBuffer\<close> after the wait for space.\<close>

definition handleBuffer_woken :: "gst_env \<Rightarrow> nat \<Rightarrow> GstBuffer \<Rightarrow> world \<Rightarrow> GstFlowReturn \<times> world" where
  "handleBuffer_woken g h buffer w =
     (if m_isSinkFlushOngoing (w_delegates w h) then (GST_FLOW_FLUSHING, w)
      else (GST_FLOW_OK,
            upd_d h (setLastBuffer (Some buffer))
              (notify_data h
                (if sample_created g
                 then upd_d h (\<lambda>d. d\<lparr>m_samples := m_samples d @ [new_sample d buffer]\<rparr>) w else w))))"

definition handleBuffer :: "gst_env \<Rightarrow> nat \<Rightarrow> GstBuffer \<Rightarrow> world \<Rightarrow> (GstFlowReturn \<times> world) outcome" where
  "handleBuffer g h buffer w =
     (if length (m_samples (w_delegates w h)) \<ge> kMaxInternalBuffersQueueSize then Waits
      else Returns (handleBuffer_woken g h buffer w))"

definition getLastSample :: "delegate \<Rightarrow> GstSample option" where
  "getLastSample d =
     (if m_enableLastSample d then map_option (new_sample d) (m_lastBuffer d) else None)"

section \<open>Properties\<close>

datatype Property =
    IsSinglePathStream | NumberOfStreams | HasDrm | Stats | EnableLastSample | LastSample
  | Volume | Mute | Gap | LowLatency | Sync | SyncOff | StreamSyncMode | AudioFade | FadeVolume
  | LimitBufferingMs | UseBuffering | Async
  | WindowSet | MaxVideoWidth | MaxVideoHeight | FrameStepOnPreroll | ImmediateOutput
  | SyncmodeStreaming | ShowVideoWindow | VideoPts
  | TextTrackIdentifier | WindowId | TsOffset

definition base_setProperty :: "nat \<Rightarrow> Property \<Rightarrow> GValue \<Rightarrow> world \<Rightarrow> world" where
  "base_setProperty h type value w =
     (case type of
        IsSinglePathStream \<Rightarrow> upd_d h (\<lambda>d. d\<lparr>m_isSinglePathStream := g_value_get_boolean value\<rparr>) w
      | NumberOfStreams \<Rightarrow> upd_d h (\<lambda>d. d\<lparr>m_numOfStreams := g_value_get_int value\<rparr>) w
      | HasDrm \<Rightarrow> upd_d h (\<lambda>d. d\<lparr>m_hasDrm := g_value_get_boolean value\<rparr>) w
      | EnableLastSample \<Rightarrow>
          upd_d h (\<lambda>d. let d1 = d\<lparr>m_enableLastSample := g_value_get_boolean value\<rparr>
                       in if \<not> m_enableLastSample d1 then d1\<lparr>m_lastBuffer := None\<rparr> else d1) w
      | _ \<Rightarrow> w)"

text \<open>The value written, or \<open>None\<close> when the value is left as it was.\<close>

definition base_getProperty :: "gst_env \<Rightarrow> nat \<Rightarrow> Property \<Rightarrow> world \<Rightarrow> GValue option" where
  "base_getProperty g h type w =
     (let d = w_delegates w h
      in case type of
           IsSinglePathStream \<Rightarrow> Some (V_boolean (m_isSinglePathStream d))
         | NumberOfStreams \<Rightarrow> Some (V_int (m_numOfStreams d))
         | HasDrm \<Rightarrow> Some (V_boolean (m_hasDrm d))
         | Stats \<Rightarrow>
             (case getMediaPlayerClient h w of
                None \<Rightarrow> None
              | Some c \<Rightarrow>
                  (case fst (getStats (backend g) (m_sourceId d) (player_of c w)) of
                     (True, rendered, dropped) \<Rightarrow> Some (V_stats rendered dropped)
                   | (False, _) \<Rightarrow> None))
         | EnableLastSample \<Rightarrow> Some (V_boolean (m_enableLastSample d))
         | LastSample \<Rightarrow> Some (V_sample (getLastSample d))
         | _ \<Rightarrow> None)"

text \<open>
  The pattern of the settings of the subclasses. A setter stores the value; when the client (or,
  for some settings, the attached source) is missing it marks the value as queued, otherwise it
  sends it. \<open>send_queued\<close> sends a value that was marked and takes the mark away.
\<close>

definition set_or_queue ::
  "nat \<Rightarrow> bool \<Rightarrow> (delegate \<Rightarrow> delegate) \<Rightarrow> (delegate \<Rightarrow> delegate) \<Rightarrow> (delegate \<Rightarrow> player \<Rightarrow> player) \<Rightarrow>
   world \<Rightarrow> world" where
  "set_or_queue h needs_source store mark send w =
     (let w1 = upd_d h store w
      in case getMediaPlayerClient h w of
           None \<Rightarrow> upd_d h mark w1
         | Some c \<Rightarrow>
             if needs_source \<and> \<not> m_sourceAttached (w_delegates w h) then upd_d h mark w1
             else do_client c (send (w_delegates w1 h)) w1)"

record setting =
  queued :: "delegate \<Rightarrow> bool"
  unmark :: "delegate \<Rightarrow> delegate"
  send :: "delegate \<Rightarrow> player \<Rightarrow> player"

definition send_queued :: "nat \<Rightarrow> nat \<Rightarrow> setting \<Rightarrow> world \<Rightarrow> world" where
  "send_queued c h x w =
     (let d = w_delegates w h
      in if queued x d then upd_d h (unmark x) (do_client c (send x d) w) else w)"

definition send_all_queued :: "nat \<Rightarrow> nat \<Rightarrow> setting list \<Rightarrow> world \<Rightarrow> world" where
  "send_all_queued c h xs w = fold (send_queued c h) xs w"

text \<open>A pause that was requested before the source was attached.\<close>

definition pause_if_requested :: "nat \<Rightarrow> nat \<Rightarrow> world \<Rightarrow> world" where
  "pause_if_requested c h w =
     (if GST_STATE_NEXT (m_sink (w_delegates w h)) = GST_STATE_PAUSED
      then snd (on_client c (pause (m_sourceId (w_delegates w h))) w) else w)"

definition attached :: "nat \<Rightarrow> world \<Rightarrow> world" where
  "attached h = upd_d h (\<lambda>d. d\<lparr>m_sourceAttached := True\<rparr>)"

text \<open>The override first handles the event itself and then calls the base class.\<close>

fun and_then :: "'s outcome \<Rightarrow> ('s \<Rightarrow> 'a outcome) \<Rightarrow> 'a outcome" where
  "and_then (Returns w) k = k w"
| "and_then Waits k = Waits"
| "and_then (Faults f) k = Faults f"

end
