(* ===== verification/Audio_Delegate.thy ===== *)
theory Audio_Delegate
  imports Pull_Delegate
begin

text \<open>
  \<open>PullModeAudioPlaybackDelegate.cpp\<close>: the audio sink. Properties that are set before a client or a
  source exists are stored with a flag and sent when the client is attached (volume and fade) or
  when the source is (the others).
\<close>

fun convertCharToEaseType :: "char \<Rightarrow> EaseType" where
  "convertCharToEaseType easeTypeChar =
     (if easeTypeChar = CHR ''L'' then EASE_LINEAR
      else if easeTypeChar = CHR ''I'' then EASE_IN_CUBIC
      else if easeTypeChar = CHR ''O'' then EASE_OUT_CUBIC
      else EASE_LINEAR)"

definition upd_a :: "(audio_members \<Rightarrow> audio_members) \<Rightarrow> delegate \<Rightarrow> delegate" where
  "upd_a f d = d\<lparr>audio := f (audio d)\<rparr>"

section \<open>State changes\<close>

text \<open>The settings that are sent when the client is attached.\<close>

definition audio_client_settings :: "setting list" where
  "audio_client_settings =
     [\<lparr>queued = (\<lambda>d. a_isVolumeQueued (audio d)), unmark = upd_a (\<lambda>a. a\<lparr>a_isVolumeQueued := False\<rparr>),
       send = (\<lambda>d. setVolume (a_targetVolume (audio d)) kDefaultVolumeDuration kDefaultEaseType)\<rparr>,
      \<lparr>queued = (\<lambda>d. a_isAudioFadeQueued (audio d)), unmark = upd_a (\<lambda>a. a\<lparr>a_isAudioFadeQueued := False\<rparr>),
       send = (\<lambda>d. setVolume (fade_volume (a_audioFadeConfig (audio d))) (fade_duration (a_audioFadeConfig (audio d)))
                      (fade_easeType (a_audioFadeConfig (audio d))))\<rparr>]"

definition audio_changeState :: "gst_env \<Rightarrow> nat \<Rightarrow> GstStateChange \<Rightarrow> world \<Rightarrow> GstStateChangeReturn \<times> world" where
  "audio_changeState g h transition w =
     (if transition = GST_STATE_CHANGE_READY_TO_PAUSED
      then (case attachToMediaClientAndSetStreamsNumber g h 0 0 w of
              (False, w1) \<Rightarrow> (GST_STATE_CHANGE_FAILURE, w1)
            | (True, w1) \<Rightarrow>
                (case getMediaPlayerClient h w1 of
                   None \<Rightarrow> (GST_STATE_CHANGE_FAILURE, w1)
                 | Some c \<Rightarrow> changeState g h transition (send_all_queued c h audio_client_settings w1)))
      else changeState g h transition w)"

section \<open>Events\<close>

text \<open>The settings that are sent when the source is attached, in the order of the code.\<close>

definition audio_source_settings :: "gst_env \<Rightarrow> setting list" where
  "audio_source_settings g =
     [\<lparr>queued = (\<lambda>d. a_isMuteQueued (audio d)), unmark = upd_a (\<lambda>a. a\<lparr>a_isMuteQueued := False\<rparr>),
       send = (\<lambda>d. setMute (a_mute (audio d)) (m_sourceId d))\<rparr>,
      \<lparr>queued = (\<lambda>d. a_isLowLatencyQueued (audio d)), unmark = upd_a (\<lambda>a. a\<lparr>a_isLowLatencyQueued := False\<rparr>),
       send = (\<lambda>d s. snd (setLowLatency (backend g) (a_lowLatency (audio d)) s))\<rparr>,
      \<lparr>queued = (\<lambda>d. a_isSyncQueued (audio d)), unmark = upd_a (\<lambda>a. a\<lparr>a_isSyncQueued := False\<rparr>),
       send = (\<lambda>d s. snd (setSync (backend g) (a_sync (audio d)) s))\<rparr>,
      \<lparr>queued = (\<lambda>d. a_isSyncOffQueued (audio d)), unmark = upd_a (\<lambda>a. a\<lparr>a_isSyncOffQueued := False\<rparr>),
       send = (\<lambda>d s. snd (setSyncOff (backend g) (a_syncOff (audio d)) s))\<rparr>,
      \<lparr>queued = (\<lambda>d. a_isStreamSyncModeQueued (audio d)),
       unmark = upd_a (\<lambda>a. a\<lparr>a_isStreamSyncModeQueued := False\<rparr>),
       send = (\<lambda>d s. snd (setStreamSyncMode (backend g) (m_sourceId d) (a_streamSyncMode (audio d)) s))\<rparr>,
      \<lparr>queued = (\<lambda>d. a_isBufferingLimitQueued (audio d)),
       unmark = upd_a (\<lambda>a. a\<lparr>a_isBufferingLimitQueued := False\<rparr>),
       send = (\<lambda>d. setBufferingLimit (a_bufferingLimit (audio d)))\<rparr>,
      \<lparr>queued = (\<lambda>d. a_isUseBufferingQueued (audio d)), unmark = upd_a (\<lambda>a. a\<lparr>a_isUseBufferingQueued := False\<rparr>),
       send = (\<lambda>d. setUseBuffering (a_useBuffering (audio d)))\<rparr>]"

definition audio_caps :: "gst_env \<Rightarrow> nat \<Rightarrow> GstCaps \<Rightarrow> world \<Rightarrow> world outcome" where
  "audio_caps g h caps w =
     (let d = w_delegates w h
      in if m_sourceAttached d then Returns w
         else case createMediaSource_audio (m_hasDrm d) caps of
                Inl _ \<Rightarrow> Faults Null_String
              | Inr None \<Rightarrow> Returns w
              | Inr (Some asource) \<Rightarrow>
                  (case getMediaPlayerClient h w of
                     None \<Rightarrow> Returns w
                   | Some c \<Rightarrow>
                       (case on_client c (attachSource (backend g) asource h) w of
                          (False, w1) \<Rightarrow> Returns w1
                        | (True, w1) \<Rightarrow>
                            Returns (pause_if_requested c h
                              (send_all_queued c h (audio_source_settings g) (attached h w1))))))"

definition switch_source :: "gst_env \<Rightarrow> nat \<Rightarrow> GstCaps option \<Rightarrow> world \<Rightarrow> world outcome" where
  "switch_source g h caps w =
     (case caps of
        None \<Rightarrow> Returns w
      | Some cs \<Rightarrow>
          (case createMediaSource_audio (m_hasDrm (w_delegates w h)) cs of
             Inl _ \<Rightarrow> Faults Null_String
           | Inr None \<Rightarrow> Returns w
           | Inr (Some asource) \<Rightarrow>
               (case getMediaPlayerClient h w of
                  None \<Rightarrow> Returns w
                | Some c \<Rightarrow> Returns (snd (on_client c (switchSource (backend g) asource) w)))))"

definition audio_handleEvent :: "gst_env \<Rightarrow> nat \<Rightarrow> GstEvent \<Rightarrow> world \<Rightarrow> (bool \<times> world) outcome" where
  "audio_handleEvent g h event w =
     and_then (case event of
                 EVENT_CAPS caps \<Rightarrow> audio_caps g h caps w
               | EVENT_CUSTOM_DOWNSTREAM name structure caps \<Rightarrow>
                   if name = ''switch-source'' then switch_source g h caps w else Returns w
               | _ \<Rightarrow> Returns w)
       (handleEvent g h event)"

section \<open>Properties\<close>

text \<open>Reading the volume stores the volume of the client. \<open>percent\<close> is
  \<open>static_cast<uint32_t>(volume * 100.0)\<close>.\<close>

definition audio_getProperty ::
  "gst_env \<Rightarrow> (real \<Rightarrow> u32) \<Rightarrow> nat \<Rightarrow> Property \<Rightarrow> world \<Rightarrow> GValue option \<times> world" where
  "audio_getProperty g percent h type w =
     (let client = getMediaPlayerClient h w; d = w_delegates w h; a = audio d; e = backend g
      in case type of
           Volume \<Rightarrow>
             (case client of
                None \<Rightarrow> (Some (V_double (a_targetVolume a)), w)
              | Some c \<Rightarrow>
                  (case getCachedVolume (player_of c w) of
                     (True, volume) \<Rightarrow> (Some (V_double volume), upd_d h (upd_a (\<lambda>a. a\<lparr>a_targetVolume := volume\<rparr>)) w)
                   | (False, _) \<Rightarrow> (Some (V_double (a_targetVolume a)), w)))
         | Mute \<Rightarrow>
             (case client of
                None \<Rightarrow> (Some (V_boolean (a_mute a)), w)
              | Some c \<Rightarrow> (Some (V_boolean (fst (getMute e (m_sourceId d) (player_of c w)))), w))
         | Sync \<Rightarrow>
             (case client of
                None \<Rightarrow> (Some (V_boolean (a_sync a)), w)
              | Some c \<Rightarrow> (Some (V_boolean (snd (fst (getSync e kDefaultSync (player_of c w))))), w))
         | StreamSyncMode \<Rightarrow>
             (case client of
                None \<Rightarrow> (Some (V_int (a_streamSyncMode a)), w)
              | Some c \<Rightarrow> (Some (V_int (snd (fst (getStreamSyncMode e kDefaultStreamSyncMode (player_of c w))))), w))
         | FadeVolume \<Rightarrow>
             (case client of
                None \<Rightarrow> (Some (V_uint kDefaultFadeVolume), w)
              | Some c \<Rightarrow>
                  (case fst (getVolume e 0 (player_of c w)) of
                     (False, _) \<Rightarrow> (Some (V_uint kDefaultFadeVolume), w)
                   | (True, volume) \<Rightarrow> (Some (V_uint (percent volume)), w)))
         | LimitBufferingMs \<Rightarrow>
             (case client of
                None \<Rightarrow> (Some (V_uint (a_bufferingLimit a)), w)
              | Some c \<Rightarrow> (Some (V_uint (fst (getBufferingLimit e (player_of c w)))), w))
         | UseBuffering \<Rightarrow>
             (case client of
                None \<Rightarrow> (Some (V_boolean (a_useBuffering a)), w)
              | Some c \<Rightarrow> (Some (V_boolean (fst (getUseBuffering e (player_of c w)))), w))
         | Async \<Rightarrow> (Some (V_boolean True), w)
         | _ \<Rightarrow> (base_getProperty g h type w, w))"

text \<open>The parsed fade: volume in percent, duration and type, or \<open>None\<close> when nothing was parsed.\<close>

definition parse_fade :: "string \<Rightarrow> AudioFadeConfig option" where
  "parse_fade s =
     (case sscanf_fade s 100 kDefaultVolumeDuration (CHR ''L'') of
        (parsedItems, fadeVolume, duration, easeTypeChar) \<Rightarrow>
          if parsedItems = 0 then None
          else (let v = (if fadeVolume > 100 then 100 else fadeVolume)
                in Some \<lparr>fade_volume = real (unat v) / 100, fade_duration = duration,
                         fade_easeType = convertCharToEaseType easeTypeChar\<rparr>))"

definition gap_int64 :: "GstStructure option \<Rightarrow> string \<Rightarrow> int" where
  "gap_int64 st name = (case Option.bind st (\<lambda>s. gst_structure_get_int64 s name) of None \<Rightarrow> 0 | Some v \<Rightarrow> v)"

definition audio_setGap :: "nat \<Rightarrow> GstStructure option \<Rightarrow> world \<Rightarrow> world outcome" where
  "audio_setGap h gapData w =
     (let duration = (case gapData of None \<Rightarrow> 0 | Some st \<Rightarrow> uint_field st ''duration'');
          audioAac = (case Option.bind gapData (\<lambda>s. gst_structure_get_boolean s ''audio-aac'') of
                        None \<Rightarrow> False | Some b \<Rightarrow> b)
      in case getMediaPlayerClient h w of
           None \<Rightarrow> Faults Null_Client
         | Some c \<Rightarrow>
             Returns (do_client c (processAudioGap (gap_int64 gapData ''position'') duration
                        (gap_int64 gapData ''discontinuity-gap'') audioAac) w))"

definition audio_setProperty :: "gst_env \<Rightarrow> nat \<Rightarrow> Property \<Rightarrow> GValue \<Rightarrow> world \<Rightarrow> world outcome" where
  "audio_setProperty g h type value w =
     (case type of
        Volume \<Rightarrow>
          Returns (set_or_queue h True (upd_a (\<lambda>a. a\<lparr>a_targetVolume := g_value_get_double value\<rparr>))
            (upd_a (\<lambda>a. a\<lparr>a_isVolumeQueued := True\<rparr>))
            (\<lambda>d. setVolume (a_targetVolume (audio d)) kDefaultVolumeDuration kDefaultEaseType) w)
      | Mute \<Rightarrow>
          Returns (set_or_queue h True (upd_a (\<lambda>a. a\<lparr>a_mute := g_value_get_boolean value\<rparr>))
            (upd_a (\<lambda>a. a\<lparr>a_isMuteQueued := True\<rparr>)) (\<lambda>d. setMute (a_mute (audio d)) (m_sourceId d)) w)
      | Gap \<Rightarrow> audio_setGap h (g_value_get_boxed value) w
      | LowLatency \<Rightarrow>
          Returns (set_or_queue h False (upd_a (\<lambda>a. a\<lparr>a_lowLatency := g_value_get_boolean value\<rparr>))
            (upd_a (\<lambda>a. a\<lparr>a_isLowLatencyQueued := True\<rparr>))
            (\<lambda>d s. snd (setLowLatency (backend g) (a_lowLatency (audio d)) s)) w)
      | Sync \<Rightarrow>
          Returns (set_or_queue h False (upd_a (\<lambda>a. a\<lparr>a_sync := g_value_get_boolean value\<rparr>))
            (upd_a (\<lambda>a. a\<lparr>a_isSyncQueued := True\<rparr>)) (\<lambda>d s. snd (setSync (backend g) (a_sync (audio d)) s)) w)
      | SyncOff \<Rightarrow>
          Returns (set_or_queue h False (upd_a (\<lambda>a. a\<lparr>a_syncOff := g_value_get_boolean value\<rparr>))
            (upd_a (\<lambda>a. a\<lparr>a_isSyncOffQueued := True\<rparr>))
            (\<lambda>d s. snd (setSyncOff (backend g) (a_syncOff (audio d)) s)) w)
      | StreamSyncMode \<Rightarrow>
          Returns (set_or_queue h True (upd_a (\<lambda>a. a\<lparr>a_streamSyncMode := g_value_get_int value\<rparr>))
            (upd_a (\<lambda>a. a\<lparr>a_isStreamSyncModeQueued := True\<rparr>))
            (\<lambda>d s. snd (setStreamSyncMode (backend g) (m_sourceId d) (a_streamSyncMode (audio d)) s)) w)
      | AudioFade \<Rightarrow>
          (case g_value_get_string value of
             None \<Rightarrow> Faults Null_String
           | Some audioFadeStr \<Rightarrow>
               (case parse_fade audioFadeStr of
                  None \<Rightarrow> Returns w
                | Some cfg \<Rightarrow>
                    Returns (set_or_queue h False (upd_a (\<lambda>a. a\<lparr>a_audioFadeConfig := cfg\<rparr>))
                      (upd_a (\<lambda>a. a\<lparr>a_isAudioFadeQueued := True\<rparr>))
                      (\<lambda>d. setVolume (fade_volume (a_audioFadeConfig (audio d)))
                             (fade_duration (a_audioFadeConfig (audio d)))
                             (fade_easeType (a_audioFadeConfig (audio d)))) w)))
      | LimitBufferingMs \<Rightarrow>
          Returns (set_or_queue h False (upd_a (\<lambda>a. a\<lparr>a_bufferingLimit := g_value_get_uint value\<rparr>))
            (upd_a (\<lambda>a. a\<lparr>a_isBufferingLimitQueued := True\<rparr>))
            (\<lambda>d. setBufferingLimit (a_bufferingLimit (audio d))) w)
      | UseBuffering \<Rightarrow>
          Returns (set_or_queue h False (upd_a (\<lambda>a. a\<lparr>a_useBuffering := g_value_get_boolean value\<rparr>))
            (upd_a (\<lambda>a. a\<lparr>a_isUseBufferingQueued := True\<rparr>))
            (\<lambda>d. setUseBuffering (a_useBuffering (audio d))) w)
      | Async \<Rightarrow> Returns w
      | _ \<Rightarrow> Returns (base_setProperty h type value w))"

end
