(* ===== verification/Video_Delegate.thy ===== *)
theory Video_Delegate
  imports Pull_Delegate "HOL-Library.Signed_Division"
begin

text \<open>
  \<open>PullModeVideoPlaybackDelegate.cpp\<close>: the video sink. The rectangle is sent when the client is
  attached, the other queued settings when the source is.
\<close>

definition upd_v :: "(video_members \<Rightarrow> video_members) \<Rightarrow> delegate \<Rightarrow> delegate" where
  "upd_v f d = d\<lparr>video := f (video d)\<rparr>"

section \<open>State changes\<close>

definition video_client_settings :: "setting list" where
  "video_client_settings =
     [\<lparr>queued = (\<lambda>d. v_rectangleSettingQueued (video d)),
       unmark = upd_v (\<lambda>v. v\<lparr>v_rectangleSettingQueued := False\<rparr>),
       send = (\<lambda>d. setVideoRectangle (v_videoRectangle (video d)))\<rparr>]"

definition video_changeState :: "gst_env \<Rightarrow> nat \<Rightarrow> GstStateChange \<Rightarrow> world \<Rightarrow> GstStateChangeReturn \<times> world" where
  "video_changeState g h transition w =
     (if transition = GST_STATE_CHANGE_READY_TO_PAUSED
      then (case attachToMediaClientAndSetStreamsNumber g h (v_maxWidth (video (w_delegates w h)))
                   (v_maxHeight (video (w_delegates w h))) w of
              (False, w1) \<Rightarrow> (GST_STATE_CHANGE_FAILURE, w1)
            | (True, w1) \<Rightarrow>
                (case getMediaPlayerClient h w1 of
                   None \<Rightarrow> (GST_STATE_CHANGE_FAILURE, w1)
                 | Some c \<Rightarrow> changeState g h transition (send_all_queued c h video_client_settings w1)))
      else changeState g h transition w)"

section \<open>Events\<close>

definition video_source_settings :: "gst_env \<Rightarrow> setting list" where
  "video_source_settings g =
     [\<lparr>queued = (\<lambda>d. v_immediateOutputQueued (video d)),
       unmark = upd_v (\<lambda>v. v\<lparr>v_immediateOutputQueued := False\<rparr>),
       send = (\<lambda>d s. snd (setImmediateOutput (backend g) (m_sourceId d) (v_immediateOutput (video d)) s))\<rparr>,
      \<lparr>queued = (\<lambda>d. v_syncmodeStreamingQueued (video d)),
       unmark = upd_v (\<lambda>v. v\<lparr>v_syncmodeStreamingQueued := False\<rparr>),
       send = (\<lambda>d s. snd (setStreamSyncMode (backend g) (m_sourceId d)
                              (of_bool (v_syncmodeStreaming (video d))) s))\<rparr>,
      \<lparr>queued = (\<lambda>d. v_videoMuteQueued (video d)), unmark = upd_v (\<lambda>v. v\<lparr>v_videoMuteQueued := False\<rparr>),
       send = (\<lambda>d. setMute (v_videoMute (video d)) (m_sourceId d))\<rparr>]"

definition video_caps :: "gst_env \<Rightarrow> nat \<Rightarrow> GstCaps \<Rightarrow> world \<Rightarrow> world" where
  "video_caps g h caps w =
     (let d = w_delegates w h
      in if m_sourceAttached d then w
         else case createMediaSource_video (m_hasDrm d) caps of
                None \<Rightarrow> w
              | Some vsource \<Rightarrow>
                  (case getMediaPlayerClient h w of
                     None \<Rightarrow> w
                   | Some c \<Rightarrow>
                       (case on_client c (attachSource (backend g) vsource h) w of
                          (False, w1) \<Rightarrow> w1
                        | (True, w1) \<Rightarrow>
                            send_all_queued c h (video_source_settings g)
                              (pause_if_requested c h (attached h w1)))))"

definition video_handleEvent :: "gst_env \<Rightarrow> nat \<Rightarrow> GstEvent \<Rightarrow> world \<Rightarrow> (bool \<times> world) outcome" where
  "video_handleEvent g h event w =
     handleEvent g h event (case event of EVENT_CAPS caps \<Rightarrow> video_caps g h caps w | _ \<Rightarrow> w)"

section \<open>Properties\<close>

text \<open>Reading the rectangle or the immediate output without a client queues the stored value.\<close>

definition video_getProperty :: "gst_env \<Rightarrow> nat \<Rightarrow> Property \<Rightarrow> world \<Rightarrow> GValue option \<times> world" where
  "video_getProperty g h type w =
     (let client = getMediaPlayerClient h w; d = w_delegates w h; v = video d
      in case type of
           WindowSet \<Rightarrow>
             (case client of
                None \<Rightarrow> (Some (V_string (Some (v_videoRectangle v))),
                         upd_d h (upd_v (\<lambda>v. v\<lparr>v_rectangleSettingQueued := True\<rparr>)) w)
              | Some c \<Rightarrow> (Some (V_string (Some (fst (getVideoRectangle (player_of c w))))), w))
         | MaxVideoWidth \<Rightarrow> (Some (V_uint (v_maxWidth v)), w)
         | MaxVideoHeight \<Rightarrow> (Some (V_uint (v_maxHeight v)), w)
         | FrameStepOnPreroll \<Rightarrow> (Some (V_boolean (v_stepOnPrerollEnabled v)), w)
         | ImmediateOutput \<Rightarrow>
             (case client of
                None \<Rightarrow> (Some (V_boolean (v_immediateOutput v)),
                         upd_d h (upd_v (\<lambda>v. v\<lparr>v_immediateOutputQueued := True\<rparr>)) w)
              | Some c \<Rightarrow>
                  (Some (V_boolean (snd (fst (getImmediateOutput (backend g) (m_sourceId d) (v_immediateOutput v)
                     (player_of c w))))), w))
         | VideoPts \<Rightarrow>
             (case client of
                None \<Rightarrow> (Some (V_int64 0), w)
              | Some c \<Rightarrow> (Some (V_int64 ((getPosition (player_of c w) sdiv 100000) * 9)), w))
         | _ \<Rightarrow> (base_getProperty g h type w, w))"

definition video_setProperty :: "gst_env \<Rightarrow> nat \<Rightarrow> Property \<Rightarrow> GValue \<Rightarrow> world \<Rightarrow> world" where
  "video_setProperty g h type value w =
     (case type of
        WindowSet \<Rightarrow>
          (case g_value_get_string value of
             None \<Rightarrow> w
           | Some rectangle \<Rightarrow>
               set_or_queue h False (upd_v (\<lambda>v. v\<lparr>v_videoRectangle := rectangle\<rparr>))
                 (upd_v (\<lambda>v. v\<lparr>v_rectangleSettingQueued := True\<rparr>)) (\<lambda>d. setVideoRectangle (v_videoRectangle (video d))) w)
      | MaxVideoWidth \<Rightarrow> upd_d h (upd_v (\<lambda>v. v\<lparr>v_maxWidth := g_value_get_uint value\<rparr>)) w
      | MaxVideoHeight \<Rightarrow> upd_d h (upd_v (\<lambda>v. v\<lparr>v_maxHeight := g_value_get_uint value\<rparr>)) w
      | FrameStepOnPreroll \<Rightarrow>
          (let enabled = g_value_get_boolean value; d = w_delegates w h;
               w1 = (case getMediaPlayerClient h w of
                       None \<Rightarrow> w
                     | Some c \<Rightarrow>
                         if enabled \<and> \<not> v_stepOnPrerollEnabled (video d)
                         then snd (on_client c (renderFrame (backend g) (m_sourceId d)) w) else w)
           in upd_d h (upd_v (\<lambda>v. v\<lparr>v_stepOnPrerollEnabled := enabled\<rparr>)) w1)
      | ImmediateOutput \<Rightarrow>
          set_or_queue h False (upd_v (\<lambda>v. v\<lparr>v_immediateOutput := g_value_get_boolean value\<rparr>))
            (upd_v (\<lambda>v. v\<lparr>v_immediateOutputQueued := True\<rparr>))
            (\<lambda>d s. snd (setImmediateOutput (backend g) (m_sourceId d) (v_immediateOutput (video d)) s)) w
      | SyncmodeStreaming \<Rightarrow>
          set_or_queue h False (upd_v (\<lambda>v. v\<lparr>v_syncmodeStreaming := g_value_get_boolean value\<rparr>))
            (upd_v (\<lambda>v. v\<lparr>v_syncmodeStreamingQueued := True\<rparr>))
            (\<lambda>d s. snd (setStreamSyncMode (backend g) (m_sourceId d) (of_bool (v_syncmodeStreaming (video d))) s)) w
      | ShowVideoWindow \<Rightarrow>
          set_or_queue h True (upd_v (\<lambda>v. v\<lparr>v_videoMute := \<not> g_value_get_boolean value\<rparr>))
            (upd_v (\<lambda>v. v\<lparr>v_videoMuteQueued := True\<rparr>)) (\<lambda>d. setMute (v_videoMute (video d)) (m_sourceId d)) w
      | _ \<Rightarrow> base_setProperty h type value w)"

end
