(* ===== verification/Subtitle_Delegate.thy ===== *)
theory Subtitle_Delegate
  imports Pull_Delegate
begin

text \<open>
  \<open>PullModeSubtitlePlaybackDelegate.cpp\<close>: the subtitle sink.
\<close>

definition upd_s :: "(subtitle_members \<Rightarrow> subtitle_members) \<Rightarrow> delegate \<Rightarrow> delegate" where
  "upd_s f d = d\<lparr>subtitle := f (subtitle d)\<rparr>"

definition subtitle_changeState :: "gst_env \<Rightarrow> nat \<Rightarrow> GstStateChange \<Rightarrow> world \<Rightarrow> GstStateChangeReturn \<times> world" where
  "subtitle_changeState g h transition w =
     (if transition = GST_STATE_CHANGE_READY_TO_PAUSED
      then (case attachToMediaClientAndSetStreamsNumber g h 0 0 w of
              (False, w1) \<Rightarrow> (GST_STATE_CHANGE_FAILURE, w1)
            | (True, w1) \<Rightarrow> changeState g h transition w1)
      else changeState g h transition w)"

definition subtitle_source_settings :: "setting list" where
  "subtitle_source_settings =
     [\<lparr>queued = (\<lambda>d. s_isMuteQueued (subtitle d)), unmark = upd_s (\<lambda>x. x\<lparr>s_isMuteQueued := False\<rparr>),
       send = (\<lambda>d. setMute (s_isMuted (subtitle d)) (m_sourceId d))\<rparr>,
      \<lparr>queued = (\<lambda>d. s_isTextTrackIdentifierQueued (subtitle d)),
       unmark = upd_s (\<lambda>x. x\<lparr>s_isTextTrackIdentifierQueued := False\<rparr>),
       send = (\<lambda>d. setTextTrackIdentifier (s_textTrackIdentifier (subtitle d)))\<rparr>,
      \<lparr>queued = (\<lambda>d. s_queuedOffset (subtitle d) \<noteq> None), unmark = upd_s (\<lambda>x. x\<lparr>s_queuedOffset := None\<rparr>),
       send = (\<lambda>d. setSubtitleOffset (m_sourceId d)
                     (case s_queuedOffset (subtitle d) of None \<Rightarrow> 0 | Some offset \<Rightarrow> offset))\<rparr>]"

definition subtitle_caps :: "gst_env \<Rightarrow> nat \<Rightarrow> GstCaps \<Rightarrow> world \<Rightarrow> world" where
  "subtitle_caps g h caps w =
     (let d = w_delegates w h
      in if m_sourceAttached d then w
         else case createMediaSource_subtitle (s_textTrackIdentifier (subtitle d)) caps of
                None \<Rightarrow> w
              | Some subtitleSource \<Rightarrow>
                  (case getMediaPlayerClient h w of
                     None \<Rightarrow> w
                   | Some c \<Rightarrow>
                       (case on_client c (attachSource (backend g) subtitleSource h) w of
                          (False, w1) \<Rightarrow> w1
                        | (True, w1) \<Rightarrow>
                            pause_if_requested c h
                              (send_all_queued c h subtitle_source_settings (attached h w1)))))"

definition subtitle_set_offset :: "nat \<Rightarrow> GstStructure \<Rightarrow> world \<Rightarrow> world" where
  "subtitle_set_offset h structure w =
     (case gst_structure_get_uint64 structure ''pts-offset'' of
        None \<Rightarrow> w
      | Some ptsOffset \<Rightarrow>
          set_or_queue h True id (upd_s (\<lambda>x. x\<lparr>s_queuedOffset := Some (sint ptsOffset)\<rparr>))
            (\<lambda>d. setSubtitleOffset (m_sourceId d) (sint ptsOffset)) w)"

definition subtitle_handleEvent :: "gst_env \<Rightarrow> nat \<Rightarrow> GstEvent \<Rightarrow> world \<Rightarrow> (bool \<times> world) outcome" where
  "subtitle_handleEvent g h event w =
     handleEvent g h event
       (case event of
          EVENT_CAPS caps \<Rightarrow> subtitle_caps g h caps w
        | EVENT_CUSTOM_DOWNSTREAM name structure caps \<Rightarrow>
            if name = ''set-pts-offset'' then subtitle_set_offset h structure w else w
        | _ \<Rightarrow> w)"

definition subtitle_getProperty :: "gst_env \<Rightarrow> nat \<Rightarrow> Property \<Rightarrow> world \<Rightarrow> GValue option" where
  "subtitle_getProperty g h type w =
     (let client = getMediaPlayerClient h w; d = w_delegates w h; x = subtitle d
      in case type of
           Mute \<Rightarrow>
             (case client of
                None \<Rightarrow> Some (V_boolean (s_isMuted x))
              | Some c \<Rightarrow> Some (V_boolean (fst (getMute (backend g) (m_sourceId d) (player_of c w)))))
         | TextTrackIdentifier \<Rightarrow>
             (case client of
                None \<Rightarrow> Some (V_string (Some (s_textTrackIdentifier x)))
              | Some c \<Rightarrow> Some (V_string (Some (fst (getTextTrackIdentifier (backend g) (player_of c w))))))
         | WindowId \<Rightarrow> Some (V_uint (s_videoId x))
         | Async \<Rightarrow> Some (V_boolean (m_isAsync d))
         | _ \<Rightarrow> base_getProperty g h type w)"

definition subtitle_setProperty :: "nat \<Rightarrow> Property \<Rightarrow> GValue \<Rightarrow> world \<Rightarrow> world" where
  "subtitle_setProperty h type value w =
     (case type of
        Mute \<Rightarrow>
          set_or_queue h True (upd_s (\<lambda>x. x\<lparr>s_isMuted := g_value_get_boolean value\<rparr>))
            (upd_s (\<lambda>x. x\<lparr>s_isMuteQueued := True\<rparr>)) (\<lambda>d. setMute (s_isMuted (subtitle d)) (m_sourceId d)) w
      | TextTrackIdentifier \<Rightarrow>
          (case g_value_get_string value of
             None \<Rightarrow> w
           | Some ident \<Rightarrow>
               set_or_queue h True (upd_s (\<lambda>x. x\<lparr>s_textTrackIdentifier := ident\<rparr>))
                 (upd_s (\<lambda>x. x\<lparr>s_isTextTrackIdentifierQueued := True\<rparr>))
                 (\<lambda>d. setTextTrackIdentifier (s_textTrackIdentifier (subtitle d))) w)
      | WindowId \<Rightarrow> upd_d h (upd_s (\<lambda>x. x\<lparr>s_videoId := g_value_get_uint value\<rparr>)) w
      | Async \<Rightarrow> upd_d h (\<lambda>d. d\<lparr>m_isAsync := g_value_get_boolean value\<rparr>) w
      | _ \<Rightarrow> base_setProperty h type value w)"

end
