(* ===== verification/Sink_System.thy ===== *)
theory Sink_System
  imports Audio_Delegate Video_Delegate Subtitle_Delegate
begin

text \<open>
  All sinks of a process together. The virtual methods dispatch on the type of the delegate.
  \<open>sink_step\<close> is one call by GStreamer on a sink, one construction or destruction of a sink
  (\<open>gst_step\<close>), or one step of a client (a notification of the server, a round of a worker thread).
  Every such step is a sequence of operations of the manager and of the clients (\<open>world_step\<close>), so that the invariants of
  \<open>Media_Player_Manager\<close> hold in every state of the running system.
\<close>

section \<open>Dispatch\<close>

definition delegate_changeState :: "gst_env \<Rightarrow> nat \<Rightarrow> GstStateChange \<Rightarrow> world \<Rightarrow> GstStateChangeReturn \<times> world" where
  "delegate_changeState g h transition w =
     (case m_mediaSourceType (w_delegates w h) of
        MST_AUDIO \<Rightarrow> audio_changeState g h transition w
      | MST_VIDEO \<Rightarrow> video_changeState g h transition w
      | _ \<Rightarrow> subtitle_changeState g h transition w)"

definition delegate_handleEvent :: "gst_env \<Rightarrow> nat \<Rightarrow> GstEvent \<Rightarrow> world \<Rightarrow> (bool \<times> world) outcome" where
  "delegate_handleEvent g h event w =
     (case m_mediaSourceType (w_delegates w h) of
        MST_AUDIO \<Rightarrow> audio_handleEvent g h event w
      | MST_VIDEO \<Rightarrow> video_handleEvent g h event w
      | _ \<Rightarrow> subtitle_handleEvent g h event w)"

definition delegate_setProperty :: "gst_env \<Rightarrow> nat \<Rightarrow> Property \<Rightarrow> GValue \<Rightarrow> world \<Rightarrow> world outcome" where
  "delegate_setProperty g h type value w =
     (case m_mediaSourceType (w_delegates w h) of
        MST_AUDIO \<Rightarrow> audio_setProperty g h type value w
      | MST_VIDEO \<Rightarrow> Returns (video_setProperty g h type value w)
      | _ \<Rightarrow> Returns (subtitle_setProperty h type value w))"

definition delegate_getProperty ::
  "gst_env \<Rightarrow> (real \<Rightarrow> u32) \<Rightarrow> nat \<Rightarrow> Property \<Rightarrow> world \<Rightarrow> GValue option \<times> world" where
  "delegate_getProperty g percent h type w =
     (case m_mediaSourceType (w_delegates w h) of
        MST_AUDIO \<Rightarrow> audio_getProperty g percent h type w
      | MST_VIDEO \<Rightarrow> video_getProperty g h type w
      | _ \<Rightarrow> (subtitle_getProperty g h type w, w))"

text \<open>A call by GStreamer, and the steps of the running system: a call, or an operation of a client
  that the server or a worker thread brings about.\<close>

inductive gst_step :: "world \<Rightarrow> world \<Rightarrow> bool" where
  gst_new: "world_allowed w (W_new h d) \<Longrightarrow> gst_step w (new_delegate h d w)"
| gst_delete: "h \<in> set (w_handles w) \<Longrightarrow> gst_step w (delete_delegate e h w)"
| gst_changeState: "h \<in> set (w_handles w) \<Longrightarrow> delegate_changeState g h transition w = (r, w') \<Longrightarrow> gst_step w w'"
| gst_event: "h \<in> set (w_handles w) \<Longrightarrow> delegate_handleEvent g h event w = Returns (r, w') \<Longrightarrow> gst_step w w'"
| gst_send_event: "h \<in> set (w_handles w) \<Longrightarrow> handleSendEvent g h sent w = (r, w') \<Longrightarrow> gst_step w w'"
| gst_buffer: "h \<in> set (w_handles w) \<Longrightarrow> handleBuffer_woken g h buffer w = (r, w') \<Longrightarrow> gst_step w w'"
| gst_setProperty: "h \<in> set (w_handles w) \<Longrightarrow> delegate_setProperty g h type value w = Returns w' \<Longrightarrow> gst_step w w'"
| gst_getProperty: "h \<in> set (w_handles w) \<Longrightarrow> delegate_getProperty g percent h type w = (v, w') \<Longrightarrow> gst_step w w'"

inductive sink_step :: "world \<Rightarrow> world \<Rightarrow> bool" where
  sink_gst: "gst_step w w' \<Longrightarrow> sink_step w w'"
| sink_client: "world_allowed w (W_client c op) \<Longrightarrow> sink_step w (do_client c (client_exec op) w)"

lemmas sink_new = gst_new [THEN sink_gst]
lemmas sink_delete = gst_delete [THEN sink_gst]
lemmas sink_changeState = gst_changeState [THEN sink_gst]
lemmas sink_event = gst_event [THEN sink_gst]
lemmas sink_send_event = gst_send_event [THEN sink_gst]
lemmas sink_buffer = gst_buffer [THEN sink_gst]
lemmas sink_setProperty = gst_setProperty [THEN sink_gst]
lemmas sink_getProperty = gst_getProperty [THEN sink_gst]

section \<open>Methods as operations\<close>

text \<open>Only the server asks for data and reports the state of playback. A function that is an operation of the
  client and neither of these.\<close>

fun from_server :: "client_op \<Rightarrow> bool" where
  "from_server (Notify (O_notifyNeedMediaData k n j)) = True"
| "from_server (Notify (O_notifyPlaybackState st)) = True"
| "from_server _ = False"

lemma own_op_allowed: "\<not> from_server op \<Longrightarrow> op_allowed s op"
  by (cases "(s, op)" rule: op_allowed.cases) simp_all

definition client_method :: "(player \<Rightarrow> player) \<Rightarrow> bool" where
  "client_method f \<longleftrightarrow> (\<exists>op. ordinary op \<and> \<not> from_server op \<and> f = client_exec op)"

lemma client_methodI:
  "ordinary op \<Longrightarrow> \<not> from_server op \<Longrightarrow> (\<And>s. f s = client_exec op s) \<Longrightarrow> client_method f"
  by (auto simp: client_method_def fun_eq_iff)

lemma client_methods [simp, intro]:
  "client_method (\<lambda>s. snd (pause k s))" "client_method (\<lambda>s. snd (play e k s))"
  "client_method (Media_Player_Client.removeSource e k)" "client_method (setPlaybackRate r)"
  "client_method (setSourcePosition e k p b q x)" "client_method (flush e k b)"
  "client_method (\<lambda>s. snd (renderFrame e k s))" "client_method (setSubtitleOffset k i)"
  "client_method (processAudioGap i n j b)"
  by (rule client_methodI [of "Playback (O_pause k)"] client_methodI [of "Playback (O_play e k)"]
      client_methodI [of "Sources (O_removeSource e k)"] client_methodI [of "Playback (O_setPlaybackRate r)"]
      client_methodI [of "Playback (O_setSourcePosition e k p b q x)"] client_methodI [of "Playback (O_flush e k b)"]
      client_methodI [of "Playback (O_renderFrame e k)"] client_methodI [of "Playback (O_setSubtitleOffset k i)"]
      client_methodI [of "Playback (O_processAudioGap i n j b)"]; simp)+

lemma client_methods_sources [simp, intro]:
  "client_method (handleStreamCollection a v t)" "client_method sendAllSourcesAttachedIfPossible"
  "client_method (\<lambda>s. snd (attachSource e src h s))" "client_method (\<lambda>s. snd (switchSource e src s))"
  "client_method (edit_sync (notifyDataReceived k))"
  by (rule client_methodI [of "Sources (O_handleStreamCollection a v t)"]
      client_methodI [of "Sources O_sendAllSourcesAttached"] client_methodI [of "Sources (O_attachSource e src h)"]
      client_methodI [of "Sources (O_switchSource e src)"] client_methodI [of "Notify (O_notifyDataReceived k)"]; simp)+

lemma client_methods_properties [simp, intro]:
  "client_method (setVolume x n t)" "client_method (setMute b k)" "client_method (setTextTrackIdentifier i)"
  "client_method (setVideoRectangle r)" "client_method (\<lambda>s. snd (setImmediateOutput e k b s))"
  "client_method (\<lambda>s. snd (setLowLatency e b s))" "client_method (\<lambda>s. snd (setSync e b s))"
  "client_method (\<lambda>s. snd (setSyncOff e b s))" "client_method (\<lambda>s. snd (setStreamSyncMode e k m s))"
  "client_method (setBufferingLimit n)" "client_method (setUseBuffering b)"
  by (rule client_methodI [of "Property (O_setVolume x n t)"] client_methodI [of "Property (O_setMute b k)"]
      client_methodI [of "Property (O_setTextTrackIdentifier i)"] client_methodI [of "Property (O_setVideoRectangle r)"]
      client_methodI [of "Property (O_setImmediateOutput e k b)"] client_methodI [of "Property (O_setLowLatency e b)"]
      client_methodI [of "Property (O_setSync e b)"] client_methodI [of "Property (O_setSyncOff e b)"]
      client_methodI [of "Property (O_setStreamSyncMode e k m)"] client_methodI [of "Property (O_setBufferingLimit n)"]
      client_methodI [of "Property (O_setUseBuffering b)"]; simp)+

lemma snd_on_client [simp]: "snd (on_client c f w) = do_client c (\<lambda>s. snd (f s)) w"
  by (simp add: on_client_def do_client_def split: prod.splits)

lemma on_client_result: "on_client c f w = (r, w') \<Longrightarrow> w' = do_client c (\<lambda>s. snd (f s)) w"
  using snd_on_client [of c f w] by simp

section \<open>Every call is a sequence of operations\<close>

text \<open>An operation of the manager or a method of a client, not a request or report of the server.\<close>

definition quiet_step :: "world \<Rightarrow> world \<Rightarrow> bool" where
  "quiet_step w w' \<longleftrightarrow> (\<exists>op. world_allowed w op \<and> (\<forall>c x. op = W_client c x \<longrightarrow> \<not> from_server x) \<and>
     w' = world_exec op w)"

lemma quiet_steps_world: "quiet_step\<^sup>*\<^sup>* w w' \<Longrightarrow> world_step\<^sup>*\<^sup>* w w'"
  by (induction rule: rtranclp_induct)
    (auto simp: quiet_step_def world_step_def intro: rtranclp.rtrancl_into_rtrancl)

lemma quiet_step_orderly: "quiet_step w w' \<Longrightarrow> orderly_step w w'"
  unfolding quiet_step_def orderly_step_def orderly_def by (blast intro: own_op_allowed)

lemma quiet_steps_orderly: "quiet_step\<^sup>*\<^sup>* w w' \<Longrightarrow> orderly_step\<^sup>*\<^sup>* w w'"
  by (rule rtranclp_mono [THEN predicate2D, rotated]) (auto intro: quiet_step_orderly)

definition reaches :: "world \<Rightarrow> world \<Rightarrow> bool" where
  "reaches w w' \<longleftrightarrow> quiet_step\<^sup>*\<^sup>* w w' \<and> w_handles w' = w_handles w"

lemma reaches_refl [simp, intro]: "reaches w w"
  by (simp add: reaches_def)

lemma reaches_trans: "reaches w w1 \<Longrightarrow> reaches w1 w2 \<Longrightarrow> reaches w w2"
  by (auto simp: reaches_def)

lemma reaches_do_client: "client_method f \<Longrightarrow> reaches w w1 \<Longrightarrow> reaches w (do_client c f w1)"
proof -
  assume f: "client_method f" and r: "reaches w w1"
  obtain op where "ordinary op" "\<not> from_server op" "f = client_exec op" using f by (auto simp: client_method_def)
  then have "quiet_step w1 (do_client c f w1)"
    unfolding quiet_step_def by (intro exI [of _ "W_client c op"]) simp
  then show ?thesis using r by (auto simp: reaches_def do_client_def)
qed

lemma truncate_extend: "client.truncate (client.extend (c :: client) m) = c"
  by (cases c) (simp add: client.defs)

lemma truncate_delegates: "client.truncate (s\<lparr>delegates := x\<rparr>) = client.truncate s"
  by (simp add: client.defs)

lemma upd_d_client: "upd_d h f w = do_client 0 (client_exec (Thread (O_delegate h f))) w"
proof -
  have "client.truncate (upd_delegate h f (player_of 0 w)) = w_clients w 0"
    by (simp only: upd_delegate_def truncate_delegates player_of_def truncate_extend)
  then show ?thesis
    unfolding upd_d_def do_client_def put_player_def client_exec.simps thread_exec.simps by simp
qed

lemma reaches_upd_d: "keeps_manager f \<Longrightarrow> reaches w w1 \<Longrightarrow> reaches w (upd_d h f w1)"
proof -
  assume "keeps_manager f" and r: "reaches w w1"
  then have "quiet_step w1 (upd_d h f w1)"
    unfolding quiet_step_def upd_d_client by (intro exI [of _ "W_client 0 (Thread (O_delegate h f))"]) simp
  then show ?thesis using r by (auto simp: reaches_def upd_d_def)
qed

lemmas reaches_intros = reaches_do_client reaches_upd_d

lemma reaches_release: "h \<in> set (w_handles w) \<Longrightarrow> manager_inv w \<Longrightarrow> reaches w (releaseMediaPlayerClient e h w)"
  unfolding reaches_def
  by (auto simp: quiet_step_def manager_inv_release intro!: r_into_rtranclp exI [of _ "W_release e h"])

lemma handles_create [simp]: "w_handles (createMediaPlayerClient e h p mw mh lv w) = w_handles w"
  by (auto simp: createMediaPlayerClient_def Let_def on_client_def do_client_def split: option.splits prod.splits)

lemma handles_attach:
  "manager_inv w \<Longrightarrow> h \<in> set (w_handles w) \<Longrightarrow>
   w_handles (snd (attachMediaPlayerClient e h p mw mh lv w)) = w_handles w"
  by (simp add: attachMediaPlayerClient_def Let_def manager_inv_release split: option.splits)

lemma reaches_attach:
  "manager_inv w \<Longrightarrow> h \<in> set (w_handles w) \<Longrightarrow>
   reaches w (snd (attachMediaPlayerClient e h p mw mh lv w))"
  unfolding reaches_def
  by (auto simp: quiet_step_def handles_attach intro!: r_into_rtranclp exI [of _ "W_attach e h p mw mh lv"])

lemma handles_hasControl [simp]: "w_handles (snd (hasControl h w)) = w_handles w"
  by (simp add: hasControl_def Let_def split: option.splits)

lemma reaches_hasControl: "h \<in> set (w_handles w) \<Longrightarrow> reaches w (snd (hasControl h w))"
  unfolding reaches_def
  by (auto simp: quiet_step_def intro!: r_into_rtranclp exI [of _ "W_hasControl h"])

text \<open>The changes of the delegates themselves keep their managers.\<close>

lemma keeps_manager_updates [simp]:
  "keeps_manager (upd_a f)" "keeps_manager (upd_v f')" "keeps_manager (upd_s f'')" "keeps_manager id"
  "keeps_manager (set_caps g caps)" "keeps_manager (setLastBuffer b)" "keeps_manager clearBuffersUnlocked"
  by (auto simp: keeps_manager_def upd_a_def upd_v_def upd_s_def set_caps_def setLastBuffer_def
      clearBuffersUnlocked_def split: option.splits)

lemma keeps_managerI: "(\<And>d. m_mediaPlayerManager (f d) = m_mediaPlayerManager d) \<Longrightarrow> keeps_manager f"
  by (simp add: keeps_manager_def)

lemma manager_unchanged [simp]:
  "m_mediaPlayerManager (clearBuffersUnlocked d) = m_mediaPlayerManager d"
  "m_mediaPlayerManager (setLastBuffer b d) = m_mediaPlayerManager d"
  "m_mediaPlayerManager (set_caps g caps d) = m_mediaPlayerManager d"
  "m_mediaPlayerManager (upd_sink u d) = m_mediaPlayerManager d"
  "m_mediaPlayerManager (postAsyncStart d) = m_mediaPlayerManager d"
  "m_mediaPlayerManager (postAsyncDone d) = m_mediaPlayerManager d"
  "m_mediaPlayerManager (upd_a f d) = m_mediaPlayerManager d"
  "m_mediaPlayerManager (upd_v f' d) = m_mediaPlayerManager d"
  "m_mediaPlayerManager (upd_s f'' d) = m_mediaPlayerManager d"
  by (auto simp: set_caps_def setLastBuffer_def clearBuffersUnlocked_def upd_sink_def postAsyncStart_def
      postAsyncDone_def upd_a_def upd_v_def upd_s_def split: option.splits)

subsection \<open>The base class\<close>

lemma reaches_changeState:
  assumes "manager_inv w" "h \<in> set (w_handles w)" "reaches w0 w"
  shows "reaches w0 (snd (changeState g h transition w))"
  using assms
  by (cases transition)
    (auto simp: Let_def reaches_trans [OF assms(3) reaches_release] dest!: on_client_result
      intro!: reaches_intros keeps_managerI split: option.splits StateChangeResult.splits prod.splits)

lemma reaches_setSegment: "reaches w0 w \<Longrightarrow> reaches w0 (setSegment g h w)"
  by (auto simp: setSegment_def Let_def intro!: reaches_intros keeps_managerI split: option.splits)

lemma reaches_stopFlushing: "reaches w0 w \<Longrightarrow> reaches w0 (stopFlushing g h b w)"
  by (auto simp: stopFlushing_def flushServer_def Let_def intro!: reaches_intros keeps_managerI
      split: option.splits)

lemma reaches_notify_data: "reaches w0 w \<Longrightarrow> reaches w0 (notify_data h w)"
  by (auto simp: notify_data_def reaches_intros split: option.splits)

lemma reaches_rate:
  assumes "reaches w0 w" "h \<in> set (w_handles w)"
  shows "reaches w0 (snd (controlled_rate h r w))"
  using assms reaches_trans [OF assms(1) reaches_hasControl [OF assms(2)]]
  by (auto simp: controlled_rate_def reaches_intros split: option.splits prod.splits bool.splits)

lemma reaches_handleEvent:
  assumes "handleEvent g h event w = Returns (r, w')" "reaches w0 w" "h \<in> set (w_handles w)"
  shows "reaches w0 w'"
  using assms
  by (cases event)
    (auto simp: copySegment_def changePlaybackRate_def startFlushing_def startFlushing_unblocked_def
      intro!: reaches_setSegment reaches_stopFlushing reaches_notify_data reaches_rate reaches_intros keeps_managerI
      split: option.splits prod.splits if_splits)

lemma reaches_handleSendEvent:
  assumes "handleSendEvent g h ev w = (r, w')" "h \<in> set (w_handles w)"
  shows "reaches w w'"
proof (cases ev)
  case (SEND_SEEK seek n)
  with assms show ?thesis
    by (auto split: if_splits outcome.splits simp del: handleEvent.simps
        intro: reaches_handleEvent intro!: reaches_upd_d keeps_managerI)
next
  case (SEND_INSTANT_RATE_SYNC_TIME rate n)
  have "reaches w (snd (hasControl h w))" using reaches_hasControl assms(2) .
  with SEND_INSTANT_RATE_SYNC_TIME assms(1) show ?thesis
    by (auto split: option.splits prod.splits bool.splits intro!: reaches_intros keeps_managerI)
qed (use assms in auto)

lemma reaches_handleBuffer: "reaches w0 w \<Longrightarrow> reaches w0 (snd (handleBuffer_woken g h b w))"
  by (auto simp: handleBuffer_woken_def intro!: reaches_intros keeps_managerI reaches_notify_data)

subsection \<open>Settings\<close>

lemma reaches_base_setProperty: "reaches w0 w \<Longrightarrow> reaches w0 (base_setProperty h type v w)"
  by (cases type) (auto simp: base_setProperty_def Let_def intro!: reaches_intros keeps_managerI)

lemma reaches_set_or_queue:
  "keeps_manager store \<Longrightarrow> keeps_manager mark \<Longrightarrow> (\<And>d. client_method (act d)) \<Longrightarrow> reaches w0 w \<Longrightarrow>
   reaches w0 (set_or_queue h b store mark act w)"
  by (auto simp: set_or_queue_def Let_def reaches_intros split: option.splits)

definition setting_ok :: "setting \<Rightarrow> bool" where
  "setting_ok x \<longleftrightarrow> keeps_manager (unmark x) \<and> (\<forall>d. client_method (send x d))"

lemma reaches_send_all:
  "list_all setting_ok xs \<Longrightarrow> reaches w0 w \<Longrightarrow> reaches w0 (send_all_queued c h xs w)"
  unfolding send_all_queued_def
  by (induction xs arbitrary: w) (auto simp: send_queued_def Let_def setting_ok_def reaches_intros)

lemma settings_ok [simp]:
  "list_all setting_ok audio_client_settings" "list_all setting_ok (audio_source_settings g)"
  "list_all setting_ok video_client_settings" "list_all setting_ok (video_source_settings g)"
  "list_all setting_ok subtitle_source_settings"
  by (simp_all add: setting_ok_def audio_client_settings_def audio_source_settings_def
      video_client_settings_def video_source_settings_def subtitle_source_settings_def)

lemma reaches_pause_if_requested: "reaches w0 w \<Longrightarrow> reaches w0 (pause_if_requested c h w)"
  by (auto simp: pause_if_requested_def intro!: reaches_do_client)

lemma reaches_attached: "reaches w0 w \<Longrightarrow> reaches w0 (attached h w)"
  by (auto simp: attached_def intro!: reaches_upd_d keeps_managerI)

lemmas reaches_attach_source = reaches_pause_if_requested reaches_attached reaches_send_all

lemma reaches_setStreamsNumber: "reaches w0 w \<Longrightarrow> reaches w0 (snd (setStreamsNumber g h w))"
  by (auto simp: setStreamsNumber_def intro!: reaches_do_client split: option.splits)

lemma reaches_to_client:
  assumes "manager_inv w" "h \<in> set (w_handles w)"
  shows "reaches w (snd (attachToMediaClientAndSetStreamsNumber g h mw mh w))"
proof -
  obtain ok w1 where a: "attachMediaPlayerClient (backend g) h (Some (getOldestGstBinParent (sink_node g))) mw mh
      (isLiveLatencyEnabled g) w = (ok, w1)"
    by fastforce
  have "reaches w w1" using reaches_attach [OF assms] a by (metis snd_conv)
  with a show ?thesis
    by (cases ok) (simp_all add: attachToMediaClientAndSetStreamsNumber_def reaches_setStreamsNumber)
qed

lemma reaches_inv: "reaches w w' \<Longrightarrow> manager_inv w \<Longrightarrow> manager_inv w' \<and> w_handles w' = w_handles w"
proof -
  assume r: "reaches w w'" and "manager_inv w"
  have "world_step\<^sup>*\<^sup>* w w'" using r by (simp add: reaches_def quiet_steps_world)
  then have "manager_inv w'"
    using \<open>manager_inv w\<close> by induction (auto simp: world_step_def manager_inv_exec)
  with r show ?thesis by (simp add: reaches_def)
qed

subsection \<open>The subclasses\<close>

lemma reaches_attached_changeState:
  assumes "manager_inv w" "h \<in> set (w_handles w)" "reaches w w1"
  shows "reaches w (snd (changeState g h transition w1))"
  using reaches_inv [OF assms(3,1)] assms(2,3) by (auto intro: reaches_changeState)

lemma reaches_delegate_changeState:
  assumes "manager_inv w" "h \<in> set (w_handles w)"
  shows "reaches w (snd (delegate_changeState g h transition w))"
proof -
  have to: "reaches w w1" if "attachToMediaClientAndSetStreamsNumber g h mw mh w = (ok, w1)" for mw mh ok w1
    using reaches_to_client [OF assms, of g mw mh] that by simp
  note c = reaches_attached_changeState [OF assms]
  have "reaches w (snd (audio_changeState g h transition w))"
    using to by (auto simp: audio_changeState_def simp del: changeState.simps intro!: c reaches_send_all split: prod.splits bool.splits option.splits)
  moreover have "reaches w (snd (video_changeState g h transition w))"
    using to by (auto simp: video_changeState_def simp del: changeState.simps intro!: c reaches_send_all split: prod.splits bool.splits option.splits)
  moreover have "reaches w (snd (subtitle_changeState g h transition w))"
    using to by (auto simp: subtitle_changeState_def simp del: changeState.simps intro!: c split: prod.splits bool.splits)
  ultimately show ?thesis
    by (simp add: delegate_changeState_def split: MediaSourceType.splits)
qed

lemma reaches_caps:
  "audio_caps g h caps w = Returns w' \<Longrightarrow> reaches w w'" "reaches w (video_caps g h caps w)"
  "reaches w (subtitle_caps g h caps w)" "switch_source g h x w = Returns w' \<Longrightarrow> reaches w w'"
  by (auto simp: audio_caps_def video_caps_def subtitle_caps_def switch_source_def Let_def dest!: on_client_result
      intro!: reaches_attach_source reaches_do_client
      split: if_splits option.splits sum.splits prod.splits bool.splits)

lemma reaches_subtitle_offset: "reaches w (subtitle_set_offset h st w)"
  by (auto simp: subtitle_set_offset_def intro!: reaches_set_or_queue split: option.splits)

lemma reaches_delegate_event:
  assumes "delegate_handleEvent g h event w = Returns (r, w')" "h \<in> set (w_handles w)"
  shows "reaches w w'"
proof -
  have base: "reaches w w'" if "handleEvent g h event w1 = Returns (r, w')" "reaches w w1" for w1
    using reaches_handleEvent [OF that] assms(2) that(2) by (simp add: reaches_def)
  have "reaches w w'" if "audio_handleEvent g h event w = Returns (r, w')"
    using that base
    by (cases "case event of EVENT_CAPS caps \<Rightarrow> audio_caps g h caps w
               | EVENT_CUSTOM_DOWNSTREAM name structure caps \<Rightarrow>
                   if name = ''switch-source'' then switch_source g h caps w else Returns w
               | _ \<Rightarrow> Returns w")
      (auto simp: audio_handleEvent_def intro: reaches_caps split: GstEvent.splits if_splits simp del: handleEvent.simps)
  moreover have "reaches w w'" if "video_handleEvent g h event w = Returns (r, w')"
    using that base [of "case event of EVENT_CAPS caps \<Rightarrow> video_caps g h caps w | _ \<Rightarrow> w"]
    by (auto simp: video_handleEvent_def intro: reaches_caps split: GstEvent.splits simp del: handleEvent.simps)
  moreover have "reaches w w'" if "subtitle_handleEvent g h event w = Returns (r, w')"
    using that base [of "case event of EVENT_CAPS caps \<Rightarrow> subtitle_caps g h caps w
        | EVENT_CUSTOM_DOWNSTREAM name structure caps \<Rightarrow>
            if name = ''set-pts-offset'' then subtitle_set_offset h structure w else w | _ \<Rightarrow> w"]
    by (auto simp: subtitle_handleEvent_def intro: reaches_caps reaches_subtitle_offset split: GstEvent.splits if_splits
        simp del: handleEvent.simps)
  ultimately show ?thesis
    using assms(1) by (simp add: delegate_handleEvent_def split: MediaSourceType.splits)
qed

lemma reaches_setProperty:
  assumes "delegate_setProperty g h type v w = Returns w'"
  shows "reaches w w'"
proof -
  have "reaches w w'" if "audio_setProperty g h type v w = Returns w'"
    using that
    by (cases type) (auto simp: audio_setProperty_def audio_setGap_def Let_def
        intro!: reaches_set_or_queue reaches_base_setProperty reaches_do_client split: option.splits)
  moreover have "reaches w (video_setProperty g h type v w)"
    by (cases type) (auto simp: video_setProperty_def Let_def
        intro!: reaches_set_or_queue reaches_base_setProperty reaches_intros split: option.splits)
  moreover have "reaches w (subtitle_setProperty h type v w)"
    by (cases type) (auto simp: subtitle_setProperty_def
        intro!: reaches_set_or_queue reaches_base_setProperty reaches_upd_d keeps_managerI split: option.splits)
  ultimately show ?thesis
    using assms by (simp add: delegate_setProperty_def split: MediaSourceType.splits)
qed

lemma reaches_getProperty: "reaches w (snd (delegate_getProperty g percent h type w))"
  by (cases "m_mediaSourceType (w_delegates w h)"; cases type)
    (auto simp: delegate_getProperty_def audio_getProperty_def video_getProperty_def Let_def
      intro!: reaches_upd_d split: option.splits prod.splits bool.splits)

lemma gst_step_sequence:
  assumes "gst_step w w'" "manager_inv w"
  shows "quiet_step\<^sup>*\<^sup>* w w'"
  using assms
proof cases
  case (gst_new h d)
  then show ?thesis by (auto simp: quiet_step_def intro!: r_into_rtranclp exI [of _ "W_new h d"])
next
  case (gst_delete h e)
  then show ?thesis by (auto simp: quiet_step_def intro!: r_into_rtranclp exI [of _ "W_delete e h"])
next
  case (gst_changeState h g transition r)
  with reaches_delegate_changeState [OF assms(2), of h g transition] show ?thesis by (simp add: reaches_def)
next
  case (gst_event h g event r)
  with reaches_delegate_event show ?thesis by (auto simp: reaches_def)
next
  case (gst_send_event h g sent r)
  with reaches_handleSendEvent show ?thesis by (auto simp: reaches_def)
next
  case (gst_buffer h g buffer r)
  with reaches_handleBuffer [of w w g h buffer] show ?thesis by (simp add: reaches_def)
next
  case (gst_setProperty h g type v)
  with reaches_setProperty show ?thesis by (auto simp: reaches_def)
next
  case (gst_getProperty h g percent type v)
  with reaches_getProperty [of w g percent h type] show ?thesis by (simp add: reaches_def)
qed

lemma sink_step_sequence:
  assumes "sink_step w w'" "manager_inv w"
  shows "world_step\<^sup>*\<^sup>* w w'"
  using assms
proof cases
  case sink_gst
  with assms(2) show ?thesis by (auto intro: quiet_steps_world gst_step_sequence)
next
  case (sink_client c op)
  then show ?thesis by (auto simp: world_step_def intro!: r_into_rtranclp exI [of _ "W_client c op"])
qed

interpretation sinks: invariant_system world_start sink_step "\<lambda>w. manager_inv w \<and> sessions_ok w"
  by unfold_locales (auto simp: world_start_inv dest: sink_step_sequence worlds.inv_steps)

text \<open>The running system with an orderly server: it reports PAUSED, PLAYING or END\_OF\_STREAM only for a
  session that has announced its sources; everything else is as in \<open>sink_step\<close>.\<close>

inductive orderly_sink_step :: "world \<Rightarrow> world \<Rightarrow> bool" where
  orderly_gst: "gst_step w w' \<Longrightarrow> orderly_sink_step w w'"
| orderly_client: "world_allowed w (W_client c op) \<Longrightarrow> op_allowed (player_of c w) op \<Longrightarrow>
     orderly_sink_step w (do_client c (client_exec op) w)"

lemma orderly_sink_step_sequence:
  assumes "orderly_sink_step w w'" "manager_inv w"
  shows "orderly_step\<^sup>*\<^sup>* w w'"
  using assms
proof cases
  case orderly_gst
  with assms(2) show ?thesis by (auto intro: quiet_steps_orderly gst_step_sequence)
next
  case (orderly_client c op)
  then show ?thesis
    by (auto simp: orderly_step_def orderly_def intro!: r_into_rtranclp exI [of _ "W_client c op"])
qed

lemma orderly_sink_steps: "orderly_sink_step\<^sup>*\<^sup>* w w' \<Longrightarrow> sink_step\<^sup>*\<^sup>* w w'"
  by (induction rule: rtranclp_induct)
    (auto elim!: orderly_sink_step.cases intro: sink_gst sink_client rtranclp.rtrancl_into_rtrancl)

interpretation orderly_sinks: invariant_system world_start orderly_sink_step
  "\<lambda>w. manager_inv w \<and> all_sessions (\<lambda>c. proto_inv) w"
  by unfold_locales (auto simp: world_start_inv dest: orderly_sink_step_sequence orderly_worlds.inv_steps)

end
