(* ===== verification/Sink_Properties.thy ===== *)
theory Sink_Properties
  imports Sink_System
begin

text \<open>
  What the calls of GStreamer on a sink do: the order of the commands in the running system, leaving
  a session, errors, flushing, queries, stream numbers and queued settings.
\<close>

section \<open>Helpers\<close>

lemma w_delegates_upd_d [simp]: "w_delegates (upd_d h f w) = (w_delegates w)(h := f (w_delegates w h))"
  by (simp add: upd_d_def)

lemma upd_d_frame [simp]:
  "m_mediaPlayerClientsInfo (upd_d h f w) = m_mediaPlayerClientsInfo w" "w_clients (upd_d h f w) = w_clients w"
  "w_handles (upd_d h f w) = w_handles w"
  by (simp_all add: upd_d_def)

lemma the_manager_upd_d: "keeps_manager f \<Longrightarrow> the_manager (upd_d h f w) = the_manager w"
  by (simp add: the_manager_def fun_eq_iff keeps_manager_def)

lemma get_client_cong:
  "the_manager w' h = the_manager w h \<Longrightarrow> m_mediaPlayerClientsInfo w' = m_mediaPlayerClientsInfo w \<Longrightarrow>
   getMediaPlayerClient h w' = getMediaPlayerClient h w"
  unfolding getMediaPlayerClient_def by (simp split: option.splits)

lemma get_client_upd_d [simp]: "keeps_manager f \<Longrightarrow> getMediaPlayerClient j (upd_d h f w) = getMediaPlayerClient j w"
  by (rule get_client_cong) (simp_all add: the_manager_upd_d)

lemma do_client_frame [simp]:
  "m_mediaPlayerClientsInfo (do_client c f w) = m_mediaPlayerClientsInfo w"
  "w_handles (do_client c f w) = w_handles w"
  "w_clients (do_client c f w) c = client.truncate (f (player_of c w))"
  "w_delegates (do_client c f w) = delegates (f (player_of c w))"
  by (simp_all add: do_client_def put_player_def)

lemma truncate_select [simp]:
  "calls (client.truncate s) = calls s" "m_attachedSources (client.truncate s) = m_attachedSources s"
  "m_flushAndDataSynchronizer (client.truncate s) = m_flushAndDataSynchronizer s"
  "m_playbackInfo (client.truncate s) = m_playbackInfo s"
  "queueRunning (client.truncate s) = queueRunning s" "queueAccepting (client.truncate s) = queueAccepting s"
  "m_clientBackend (client.truncate s) = m_clientBackend s"
  "m_backendCreated (client.truncate s) = m_backendCreated s"
  by (simp_all add: client.defs)

lemma player_of_select [simp]:
  "calls (player_of c w) = calls (w_clients w c)" "m_attachedSources (player_of c w) = m_attachedSources (w_clients w c)"
  "m_flushAndDataSynchronizer (player_of c w) = m_flushAndDataSynchronizer (w_clients w c)"
  "m_playbackInfo (player_of c w) = m_playbackInfo (w_clients w c)"
  "queueRunning (player_of c w) = queueRunning (w_clients w c)"
  "queueAccepting (player_of c w) = queueAccepting (w_clients w c)"
  "m_clientBackend (player_of c w) = m_clientBackend (w_clients w c)"
  "m_backendCreated (player_of c w) = m_backendCreated (w_clients w c)"
  by (simp_all add: player_of_def client.defs)

lemma client_up_in_loop: "client_up (w_clients w c) \<Longrightarrow> in_loop r f (player_of c w) = f (player_of c w)"
  by (simp add: in_loop_def client_up_def)

section \<open>Leaving a session\<close>

lemma drain_keeps_sources: "m_attachedSources (drain_puller e parser h msgs s) = m_attachedSources s"
proof -
  have "pull_prop (\<lambda>t. m_attachedSources t = m_attachedSources s) (\<lambda>_. True)"
    by unfold_locales simp_all
  then show ?thesis by (rule pull_prop.p_drain_puller) simp
qed

lemma removeSource_sources:
  assumes "queueRunning s" "queueAccepting s"
  shows "m_attachedSources (Media_Player_Client.removeSource e k s) = erase_key k (m_attachedSources s)"
  using assms
  by (simp add: Media_Player_Client.removeSource_def in_loop_def removeSource_in_loop_def Let_def drain_keeps_sources
      split: option.splits)

definition demo_gst :: gst_env where
  "demo_gst = \<lparr>backend = good_env, control_running = True,
     sink_node = GstNode 3 False (Some (GstNode 7 True None)), streams_info = None,
     parent_n_streams = Some (1, 1, 0), parent_flags = None, play_flag = (\<lambda>_. None),
     gst_caps_is_equal = (\<lambda>_ _. True), gst_segment_to_stream_time = (\<lambda>_ _ t. t),
     gst_segment_do_seek = (\<lambda>s _. s), pad_accepts_event = True, pad_push_event = True,
     sample_created = True\<rparr>"

text \<open>The subclasses add something only to READY to PAUSED.\<close>

lemma delegate_changeState_base:
  "transition \<noteq> GST_STATE_CHANGE_READY_TO_PAUSED \<Longrightarrow> delegate_changeState g h transition w = changeState g h transition w"
  by (simp add: delegate_changeState_def audio_changeState_def video_changeState_def subtitle_changeState_def
      del: changeState.simps split: MediaSourceType.splits)

lemma reachable_inv:
  assumes "world_start w0" "sink_step\<^sup>*\<^sup>* w0 w"
  shows "manager_inv w" "sessions_ok w"
  using sinks.inv_reachable [OF assms] by simp_all

lemma reachable_client_up:
  assumes "manager_inv w" "h \<in> set (w_handles w)" "getMediaPlayerClient h w = Some c"
  shows "client_up (w_clients w c)"
  using attached_info [OF assms] info_okD(5) [OF assms(1)] by metis

lemma leave_paused:
  fixes g :: gst_env
  assumes "manager_inv w" "h \<in> set (w_handles w)" "getMediaPlayerClient h w = Some c"
  defines "w' \<equiv> snd (changeState g h GST_STATE_CHANGE_PAUSED_TO_READY w)"
  shows "fst (changeState g h GST_STATE_CHANGE_PAUSED_TO_READY w) = GST_STATE_CHANGE_SUCCESS"
    "find_key (m_attachedSources (w_clients w' c)) (m_sourceId (w_delegates w h)) = None"
    "m_samples (w_delegates w' h) = []" "\<not> m_sourceAttached (w_delegates w' h)"
    "reaches w w'"
proof -
  have up: "client_up (w_clients w c)" by (rule reachable_client_up [OF assms(1-3)])
  let ?w1 = "if m_isStateCommitNeeded (w_delegates w h) then upd_d h postAsyncDone w else w"
  have id: "m_sourceId (w_delegates ?w1 h) = m_sourceId (w_delegates w h)"
    by (simp add: postAsyncDone_def upd_sink_def)
  have cl: "w_clients ?w1 = w_clients w" by simp
  show "fst (changeState g h GST_STATE_CHANGE_PAUSED_TO_READY w) = GST_STATE_CHANGE_SUCCESS"
    using assms(3) by (simp add: Let_def)
  have w': "w' = upd_d h (\<lambda>d. (clearBuffersUnlocked d)\<lparr>m_sourceAttached := False\<rparr>)
      (do_client c (Media_Player_Client.removeSource (backend g) (m_sourceId (w_delegates w h))) ?w1)"
    unfolding w'_def using assms(3) id by (simp add: Let_def)
  show "find_key (m_attachedSources (w_clients w' c)) (m_sourceId (w_delegates w h)) = None"
    unfolding w' using up cl by (simp add: removeSource_sources client_up_def)
  show "m_samples (w_delegates w' h) = []" "\<not> m_sourceAttached (w_delegates w' h)"
    unfolding w' by (simp_all add: clearBuffersUnlocked_def setLastBuffer_def)
  show "reaches w w'"
    unfolding w'_def by (rule reaches_changeState [OF assms(1,2) reaches_refl])
qed

text \<open>A process with one audio sink that goes to PAUSED.\<close>

definition one_sink :: world where
  "one_sink = new_delegate 0 (demo_sinks {} 0) (empty_world\<lparr>w_delegates := demo_sinks {}\<rparr>)"

definition paused_sink :: world where
  "paused_sink = snd (delegate_changeState demo_gst 0 GST_STATE_CHANGE_READY_TO_PAUSED one_sink)"

lemma one_sink_steps:
  "sink_step\<^sup>*\<^sup>* empty_world paused_sink" "0 \<in> set (w_handles one_sink)"
  "gst_step empty_world one_sink" "gst_step one_sink paused_sink"
proof -
  have "empty_world\<lparr>w_delegates := demo_sinks {}\<rparr> = empty_world" by (simp add: empty_world_def demo_sinks_none)
  then show new: "gst_step empty_world one_sink"
    unfolding one_sink_def
    by (simp only:) (rule gst_new, simp_all add: empty_world_def demo_sinks_def demo_delegates_def
        PullModePlaybackDelegate_def)
  show h: "0 \<in> set (w_handles one_sink)" by (simp add: one_sink_def new_delegate_def)
  obtain r w' where "delegate_changeState demo_gst 0 GST_STATE_CHANGE_READY_TO_PAUSED one_sink = (r, w')" by fastforce
  with h show paused: "gst_step one_sink paused_sink" by (auto simp: paused_sink_def intro: gst_changeState)
  show "sink_step\<^sup>*\<^sup>* empty_world paused_sink"
    using sink_gst [OF new] sink_gst [OF paused] by auto
qed

lemma one_sink_attach:
  "attachMediaPlayerClient good_env 0 (Some 7) 0 0 False one_sink =
     (True, (used_world {0} 1)\<lparr>w_handles := [0]\<rparr>)"
  by (simp add: attachMediaPlayerClient_def getMediaPlayerClient_def the_manager_def createMediaPlayerClient_def
      empty_world_def on_client_def player_of_def demo_create Let_def put_player_def set_manager_def
      used_world_def one_sink_def new_delegate_def,
      simp add: demo_sinks_set client.defs demo_client_def GStreamerMSEMediaPlayerClient_def)

lemma demo_sink_fields [simp]:
  "m_mediaSourceType (demo_sinks A h) = (if h = 0 then MST_AUDIO else MST_VIDEO)"
  "audio (demo_sinks A h) = new_audio_members" "m_sourceId (demo_sinks A h) = -1"
  "m_sourceAttached (demo_sinks A h) = False" "GST_STATE_NEXT (m_sink (demo_sinks A h)) = GST_STATE_PAUSED"
  "m_hasDrm (demo_sinks A h)"
  by (simp_all add: demo_sinks_def demo_delegates_def PullModePlaybackDelegate_def changing_sink_def)

lemma put_player_of [simp]: "put_player c (player_of c w) w = w"
  by (simp add: put_player_def) (simp add: player_of_def truncate_extend)

lemma on_client_same: "f (player_of c w) = (r, player_of c w) \<Longrightarrow> on_client c f w = (r, w)"
  by (simp add: on_client_def)

lemma handleStreamCollection_delegates [simp]: "delegates (handleStreamCollection a v t s) = delegates s"
  by (simp add: handleStreamCollection_def in_loop_def)

lemma used_world_sinks [simp]: "w_delegates (used_world A n) = demo_sinks A"
  by (simp add: used_world_def)

lemma paused_sink_value:
  "paused_sink = upd_d 0 postAsyncStart (upd_d 0 (\<lambda>d. d\<lparr>m_isSinkFlushOngoing := False\<rparr>)
     (do_client 0 (handleStreamCollection 1 1 0) ((used_world {0} 1)\<lparr>w_handles := [0]\<rparr>)))"
proof -
  let ?w = "(used_world {0} 1)\<lparr>w_handles := [0]\<rparr>"
  let ?w1 = "do_client 0 (handleStreamCollection 1 1 0) ?w"
  have d: "w_delegates one_sink 0 = demo_sinks {} 0" by (simp add: one_sink_def new_delegate_def)
  have d1: "w_delegates ?w1 = demo_sinks {0}" by simp
  have c: "getMediaPlayerClient 0 ?w = Some 0" "getMediaPlayerClient 0 ?w1 = Some 0"
    subgoal by (simp add: getMediaPlayerClient_def the_manager_def used_world_def)
    subgoal unfolding getMediaPlayerClient_def the_manager_def d1 by (simp add: used_world_def)
    done
  have a: "attachToMediaClientAndSetStreamsNumber demo_gst 0 0 0 one_sink = (True, ?w1)"
    using c one_sink_attach
    by (simp add: attachToMediaClientAndSetStreamsNumber_def setStreamsNumber_def streamsNumber_def
        demo_gst_def getNStreamsFromParent_def isLiveLatencyEnabled_def)
  have s: "send_all_queued 0 0 audio_client_settings ?w1 = ?w1"
    by (simp add: send_all_queued_def audio_client_settings_def send_queued_def new_audio_members_def Let_def)
  let ?w2 = "upd_d 0 (\<lambda>d. d\<lparr>m_isSinkFlushOngoing := False\<rparr>) ?w1"
  have p: "on_client 0 (pause (-1)) ?w2 = (NOT_ATTACHED, ?w2)"
  proof -
    have "pause (-1) (player_of 0 ?w2) = (NOT_ATTACHED, player_of 0 ?w2)"
      by (simp add: pause_def in_loop_def pause_in_loop_def)
        (simp add: handleStreamCollection_def in_loop_def used_world_def demo_client_def GStreamerMSEMediaPlayerClient_def)
    then show ?thesis by (rule on_client_same)
  qed
  show ?thesis
    unfolding paused_sink_def delegate_changeState_def d
    by (simp add: audio_changeState_def a c s d1 p)
qed

lemma paused_sink_simps:
  "getMediaPlayerClient 0 paused_sink = Some 0" "0 \<in> set (w_handles paused_sink)"
  "find_key (m_mediaPlayerClientsInfo paused_sink) (Some 7) = Some \<lparr>mi_client = 0, mi_controller = Some 0, mi_refCount = 1\<rparr>"
  "calls (w_clients paused_sink 0) = [B_create 3840 2160, B_load False]"
proof -
  let ?w1 = "do_client 0 (handleStreamCollection 1 1 0) ((used_world {0} 1)\<lparr>w_handles := [0]\<rparr>)"
  have "w_delegates ?w1 = demo_sinks {0}"
    by (simp add: handleStreamCollection_def in_loop_def used_world_def)
  then have "getMediaPlayerClient 0 ?w1 = Some 0"
    unfolding getMediaPlayerClient_def the_manager_def by (simp only:) (simp add: used_world_def)
  then show "getMediaPlayerClient 0 paused_sink = Some 0"
    unfolding paused_sink_value by (simp add: keeps_manager_def)
  show "0 \<in> set (w_handles paused_sink)"
    "find_key (m_mediaPlayerClientsInfo paused_sink) (Some 7) = Some \<lparr>mi_client = 0, mi_controller = Some 0, mi_refCount = 1\<rparr>"
    "calls (w_clients paused_sink 0) = [B_create 3840 2160, B_load False]"
    unfolding paused_sink_value
    by (simp_all add: used_world_def handleStreamCollection_def in_loop_def demo_client_def)
qed

section \<open>A session on the paused sink\<close>

definition demo_video :: MediaSource where
  "demo_video = MediaSourceVideo ''video/h264'' True 640 480 SA_UNDEFINED SF_RAW None"

abbreviation session_run :: "client_op list \<Rightarrow> world \<Rightarrow> world" where
  "session_run xs w \<equiv> fold (\<lambda>op. do_client 0 (client_exec op)) xs w"

lemma extend_truncate: "client.extend (client.truncate s) \<lparr>delegates = delegates s\<rparr> = (s :: player)"
  by (simp add: client.defs)

lemma player_of_session_run: "player_of 0 (session_run xs w) = fold client_exec xs (player_of 0 w)"
proof (induction xs arbitrary: w)
  case (Cons x xs)
  have "player_of 0 (do_client 0 (client_exec x) w) = client_exec x (player_of 0 w)"
    by (simp add: player_of_def [of 0 "do_client _ _ _"] extend_truncate)
  with Cons show ?case by simp
qed simp

text \<open>Both sources are attached, which announces them; the server reports PAUSED; both sinks ask for
  PAUSED, which is there already, then for PLAYING, and one goes back to PAUSED.\<close>

definition announcing_ops :: "client_op list" where
  "announcing_ops = [Sources (O_attachSource good_env demo_audio 0), Sources (O_attachSource good_env demo_video 1)]"

definition commanding_ops :: "client_op list" where
  "commanding_ops = [Thread (O_loop_round good_env), Playback (O_pause 1), Playback (O_pause 2),
     Playback (O_play good_env 1), Playback (O_play good_env 2), Playback (O_pause 1)]"

lemmas run_defs = demo_audio_def demo_video_def demo_client_def client.defs GStreamerMSEMediaPlayerClient_def
  good_env_def in_loop_def call_def attachSource_def attachSource_in_loop_def edit_sync_def upd_delegate_def
  type_id_def sendAllSourcesAttachedIfPossibleInternal_def areAllStreamsAttached_def new_source_def
  checkIfAllAttachedSourcesInStates_def pause_def pause_in_loop_def play_def play_in_loop_def
  set_source_state_def edit_source_def notifyPlaybackState_def loop_round_def post_def
  handlePlaybackStateChange_def handleStateChanged_def

lemma paused_player:
  obtains ds where "player_of 0 paused_sink =
      client.extend (demo_client\<lparr>m_audioStreams := 1, m_videoStreams := 1, m_subtitleStreams := 0\<rparr>) \<lparr>delegates = ds\<rparr>"
    "m_isStateCommitNeeded (ds 0)" "GST_STATE_NEXT (m_sink (ds 0)) = GST_STATE_PAUSED" "\<not> m_isStateCommitNeeded (ds 1)"
proof (rule that [of "w_delegates paused_sink"])
  have "w_clients paused_sink 0 = demo_client\<lparr>m_audioStreams := 1, m_videoStreams := 1, m_subtitleStreams := 0\<rparr>"
    unfolding paused_sink_value
    by (simp add: handleStreamCollection_def in_loop_def used_world_def demo_client_def
        GStreamerMSEMediaPlayerClient_def UNKNOWN_STREAMS_NUMBER_def player_of_def client.defs)
  then show "player_of 0 paused_sink =
      client.extend (demo_client\<lparr>m_audioStreams := 1, m_videoStreams := 1, m_subtitleStreams := 0\<rparr>)
        \<lparr>delegates = w_delegates paused_sink\<rparr>" by (simp add: player_of_def)
  show "m_isStateCommitNeeded (w_delegates paused_sink 0)" "GST_STATE_NEXT (m_sink (w_delegates paused_sink 0)) = GST_STATE_PAUSED"
    "\<not> m_isStateCommitNeeded (w_delegates paused_sink 1)"
    unfolding paused_sink_value
    by (simp_all add: postAsyncStart_def upd_sink_def gst_element_post_message_def)
      (simp add: demo_sinks_def demo_delegates_def PullModePlaybackDelegate_def)
qed

lemma setSourceId_simps [simp]:
  "m_isStateCommitNeeded (setSourceId k d) = m_isStateCommitNeeded d" "m_sink (setSourceId k d) = m_sink d"
  by (simp_all add: setSourceId_def)

lemma announced:
  "m_wasAllSourcesAttachedSent (fold client_exec announcing_ops (player_of 0 paused_sink))"
  by (rule paused_player) (simp add: announcing_ops_def run_defs)

lemma commanded:
  "calls (fold client_exec (announcing_ops @ Notify (O_notifyPlaybackState PS_PAUSED) # commanding_ops) (player_of 0 paused_sink)) =
     [B_create 3840 2160, B_load False, B_attachSource demo_audio, B_attachSource demo_video, B_allSourcesAttached, B_play, B_pause]"
  by (rule paused_player) (simp add: announcing_ops_def commanding_ops_def run_defs)

text \<open>The server reports PLAYING before the sources are announced.\<close>

definition early_ops :: "client_op list" where
  "early_ops = [Sources (O_attachSource good_env demo_audio 0), Notify (O_notifyPlaybackState PS_PLAYING),
     Thread (O_loop_round good_env), Playback (O_play good_env 1), Playback (O_pause 1)]"

lemma early_report:
  "calls (fold client_exec early_ops (player_of 0 paused_sink)) =
     [B_create 3840 2160, B_load False, B_attachSource demo_audio, B_pause]"
  by (rule paused_player) (simp add: early_ops_def run_defs)

lemma session_run_steps:
  "\<forall>x \<in> set xs. ordinary x \<Longrightarrow> sink_step\<^sup>*\<^sup>* w (session_run xs w)"
proof (induction xs arbitrary: w)
  case (Cons x xs)
  then have "sink_step w (do_client 0 (client_exec x) w)" by (intro sink_client) simp
  with Cons show ?case by (auto intro: converse_rtranclp_into_rtranclp)
qed simp

lemma session_run_orderly:
  "\<forall>x \<in> set xs. ordinary x \<and> \<not> from_server x \<Longrightarrow> orderly_sink_step\<^sup>*\<^sup>* w (session_run xs w)"
proof (induction xs arbitrary: w)
  case (Cons x xs)
  then have "orderly_sink_step w (do_client 0 (client_exec x) w)" by (intro orderly_client own_op_allowed) simp_all
  with Cons show ?case by (auto intro: converse_rtranclp_into_rtranclp)
qed simp

lemma session_run_infos: "m_mediaPlayerClientsInfo (session_run xs w) = m_mediaPlayerClientsInfo w"
  by (induction xs arbitrary: w) simp_all

definition commanded_sink :: world where
  "commanded_sink =
     session_run (announcing_ops @ Notify (O_notifyPlaybackState PS_PAUSED) # commanding_ops) paused_sink"

lemma commanded_sink_orderly: "orderly_sink_step\<^sup>*\<^sup>* empty_world commanded_sink"
proof -
  let ?w1 = "session_run announcing_ops paused_sink"
  let ?report = "Notify (O_notifyPlaybackState PS_PAUSED)"
  have "orderly_sink_step\<^sup>*\<^sup>* empty_world paused_sink"
    using orderly_gst [OF one_sink_steps(3)] orderly_gst [OF one_sink_steps(4)] by auto
  also have "orderly_sink_step\<^sup>*\<^sup>* paused_sink ?w1"
    by (rule session_run_orderly) (simp add: announcing_ops_def)
  also have "orderly_sink_step ?w1 (do_client 0 (client_exec ?report) ?w1)"
    by (rule orderly_client) (simp_all add: player_of_session_run announced)
  also have "orderly_sink_step\<^sup>*\<^sup>* (do_client 0 (client_exec ?report) ?w1) commanded_sink"
    unfolding commanded_sink_def fold_append comp_def fold_Cons
    by (rule session_run_orderly) (simp add: commanding_ops_def)
  finally show ?thesis .
qed

lemma commanded_sink_calls:
  "calls (w_clients commanded_sink 0) =
     [B_create 3840 2160, B_load False, B_attachSource demo_audio, B_attachSource demo_video, B_allSourcesAttached, B_play, B_pause]"
  using commanded player_of_select(1) [of 0 commanded_sink] unfolding commanded_sink_def player_of_session_run by simp

lemma order_needs_orderly_server:
  "\<exists>w. sink_step\<^sup>*\<^sup>* empty_world w \<and> B_pause \<in> set (calls (w_clients w 0)) \<and>
     B_allSourcesAttached \<notin> set (calls (w_clients w 0))"
proof (intro exI conjI)
  let ?w = "session_run early_ops paused_sink"
  show "sink_step\<^sup>*\<^sup>* empty_world ?w"
    by (rule rtranclp_trans [OF one_sink_steps(1) session_run_steps]) (simp add: early_ops_def)
  have "calls (w_clients ?w 0) = [B_create 3840 2160, B_load False, B_attachSource demo_audio, B_pause]"
    using early_report player_of_select(1) [of 0 ?w] unfolding player_of_session_run by simp
  then show "B_pause \<in> set (calls (w_clients ?w 0))" "B_allSourcesAttached \<notin> set (calls (w_clients ?w 0))" by simp_all
qed

section \<open>Properties\<close>

text \<open>
  C1. The order of the commands in the running system. Whatever GStreamer calls on the sinks of a process
  (state changes, events, buffers, properties, construction and destruction), interleaved with the server's
  notifications and the worker threads of the clients, the session of every pipeline receives
  \<open>allSourcesAttached\<close> at most once. If moreover the server is orderly (it reports PAUSED, PLAYING or
  END\_OF\_STREAM only for a session that has received \<open>allSourcesAttached\<close>), then the session receives
  no play or pause command before it. The client does not check the reports itself, and the second part
  needs the hypothesis: \<open>order_needs_orderly_server\<close> is a run in which the server reports PLAYING too
  early and a pause command goes out for a session that was never announced.
\<close>

theorem sessions_keep_command_order:
  assumes "world_start w0" "sink_step\<^sup>*\<^sup>* w0 w" "find_key (m_mediaPlayerClientsInfo w) p = Some i"
  defines "cs \<equiv> calls (w_clients w (mi_client i))"
  shows "count_list cs B_allSourcesAttached \<le> 1 \<and>
    (orderly_sink_step\<^sup>*\<^sup>* w0 w \<longrightarrow>
      (\<forall>pre b rest. cs = pre @ b # rest \<and> (b = B_play \<or> b = B_pause) \<longrightarrow> B_allSourcesAttached \<in> set pre))"
proof -
  have "sent_once (player_of (mi_client i) w)"
    using reachable_inv(2) [OF assms(1,2)] assms(3) by (simp add: all_sessions_def session_ok_def)
  then have "count_list cs B_allSourcesAttached \<le> 1"
    by (auto simp: sent_once_def cs_def split: if_splits)
  moreover have "no_early cs" if "orderly_sink_step\<^sup>*\<^sup>* w0 w"
  proof -
    have "proto_inv (player_of (mi_client i) w)"
      using orderly_sinks.inv_reachable [OF assms(1) that] assms(3) by (simp add: all_sessions_def)
    then show ?thesis by (simp add: proto_inv_def cs_def)
  qed
  ultimately show ?thesis by (auto dest: no_early_before)
qed

theorem sessions_keep_command_order_witness:
  "calls (w_clients commanded_sink 0) =
     [B_create 3840 2160, B_load False, B_attachSource demo_audio, B_attachSource demo_video] @
       B_allSourcesAttached # [B_play, B_pause] \<and>
   count_list (calls (w_clients commanded_sink 0)) B_allSourcesAttached \<le> 1 \<and>
   B_allSourcesAttached \<in> set (take 5 (calls (w_clients commanded_sink 0)))"
proof -
  have p: "find_key (m_mediaPlayerClientsInfo commanded_sink) (Some 7) =
      Some \<lparr>mi_client = 0, mi_controller = Some 0, mi_refCount = 1\<rparr>"
    unfolding commanded_sink_def by (simp add: session_run_infos paused_sink_simps(3) del: fold_append fold_Cons)
  note order = sessions_keep_command_order [OF empty_world_start
      orderly_sink_steps [OF commanded_sink_orderly] p, THEN conjunct2, rule_format, OF commanded_sink_orderly,
      of "take 5 (calls (w_clients commanded_sink 0))" B_play "[B_pause]"]
  have "calls (w_clients commanded_sink 0) = take 5 (calls (w_clients commanded_sink 0)) @ B_play # [B_pause]"
    by (simp add: commanded_sink_calls)
  with order have "B_allSourcesAttached \<in> set (take 5 (calls (w_clients commanded_sink 0)))" by simp
  then show ?thesis by (simp add: commanded_sink_calls)
qed

text \<open>
  C27. Leaving a session. In every reachable state of the system a sink with a client can go from
  PAUSED to READY and on to NULL; both changes succeed. After the first its source is no longer
  attached to the client, its queue is empty and it accepts a new source; after the second the sink
  has no client.
\<close>

theorem sink_leaves_session:
  assumes "world_start w0" "sink_step\<^sup>*\<^sup>* w0 w" "h \<in> set (w_handles w)" "getMediaPlayerClient h w = Some c"
  shows "\<exists>w1 w2. delegate_changeState g h GST_STATE_CHANGE_PAUSED_TO_READY w = (GST_STATE_CHANGE_SUCCESS, w1) \<and>
    delegate_changeState g h GST_STATE_CHANGE_READY_TO_NULL w1 = (GST_STATE_CHANGE_SUCCESS, w2) \<and>
    find_key (m_attachedSources (w_clients w1 c)) (m_sourceId (w_delegates w h)) = None \<and>
    m_samples (w_delegates w1 h) = [] \<and> \<not> m_sourceAttached (w_delegates w1 h) \<and>
    getMediaPlayerClient h w2 = None"
proof -
  have inv: "manager_inv w" by (rule reachable_inv [OF assms(1,2)])
  define w1 where "w1 = snd (changeState g h GST_STATE_CHANGE_PAUSED_TO_READY w)"
  define w2 where "w2 = snd (changeState g h GST_STATE_CHANGE_READY_TO_NULL w1)"
  note l = leave_paused [OF inv assms(3,4), of g, folded w1_def]
  have inv1: "manager_inv w1" "h \<in> set (w_handles w1)" using reaches_inv [OF l(5) inv] assms(3) by simp_all
  have "the_manager w2 h = detached"
    using manager_inv_release(2) [OF inv1, of "backend g"]
    by (simp add: w2_def the_manager_upd_d keeps_manager_def)
  then have "getMediaPlayerClient h w2 = None" by (simp add: getMediaPlayerClient_def)
  moreover have "changeState g h GST_STATE_CHANGE_PAUSED_TO_READY w = (GST_STATE_CHANGE_SUCCESS, w1)"
    using l(1) w1_def by (metis prod.collapse)
  moreover have "changeState g h GST_STATE_CHANGE_READY_TO_NULL w1 = (GST_STATE_CHANGE_SUCCESS, w2)"
    by (simp add: w2_def)
  ultimately show ?thesis
    using l(2-4) by (intro exI [of _ w1] exI [of _ w2]) (simp add: delegate_changeState_base del: changeState.simps)
qed

theorem sink_leaves_session_witness:
  "\<exists>w1 w2. delegate_changeState demo_gst 0 GST_STATE_CHANGE_PAUSED_TO_READY paused_sink = (GST_STATE_CHANGE_SUCCESS, w1) \<and>
     delegate_changeState demo_gst 0 GST_STATE_CHANGE_READY_TO_NULL w1 = (GST_STATE_CHANGE_SUCCESS, w2) \<and>
     getMediaPlayerClient 0 w2 = None"
  using sink_leaves_session [OF empty_world_start one_sink_steps(1) paused_sink_simps(2,1)] by metis

end
