(* ===== verification/Sink_Settings.thy ===== *)
theory Sink_Settings
  imports Sink_Properties
begin

text \<open>
  Settings made before the session can take them. A setter that comes too early marks the stored value
  (\<open>set_or_queue\<close>); the marked values are sent when the source is attached (\<open>send_all_queued\<close>).

  The locale \<open>setting_queue\<close> states what a table of settings promises: a setting sends one command,
  takes its own mark away and touches neither the mark nor the value of another. Inside it, the marked
  settings are shown to be sent once and in order. It is interpreted for the tables of the audio, the
  video and the subtitle sink.
\<close>

section \<open>The contract of a table of settings\<close>

locale setting_queue =
  fixes ps :: "(setting \<times> (delegate \<Rightarrow> backend_call)) list" and ready :: "delegate \<Rightarrow> player \<Rightarrow> bool"
  assumes sends: "(x, b) \<in> set ps \<Longrightarrow> ready d s \<Longrightarrow>
      calls (send x d s) = calls s @ [b d] \<and> delegates (send x d s) = delegates s \<and> ready d (send x d s)"
    and clears: "(x, b) \<in> set ps \<Longrightarrow> \<not> queued x (unmark x d)"
    and separate: "sorted_wrt (\<lambda>(x, b) (y, b'). \<forall>d. queued y (unmark x d) = queued y d \<and>
      b' (unmark x d) = b' d \<and> queued x (unmark y d) = queued x d) ps"
    and stays_ready: "(x, b) \<in> set ps \<Longrightarrow> ready (unmark x d) s = ready d s"
    and ready_delegates: "ready d (s\<lparr>delegates := D\<rparr>) = ready d s"
begin

definition marked :: "delegate \<Rightarrow> backend_call list" where
  "marked d = map (\<lambda>(x, b). b d) (filter (\<lambda>(x, b). queued x d) ps)"

lemma send_one:
  assumes "(x, b) \<in> set ps" "ready (w_delegates w h) (player_of c w)"
  defines "w' \<equiv> send_queued c h x w"
  shows "calls (w_clients w' c) = calls (w_clients w c) @ (if queued x (w_delegates w h) then [b (w_delegates w h)] else [])"
    "w_delegates w' h = (if queued x (w_delegates w h) then unmark x (w_delegates w h) else w_delegates w h)"
    "ready (w_delegates w' h) (player_of c w')"
proof -
  let ?d = "w_delegates w h"
  note s = sends [OF assms(1,2)]
  show "calls (w_clients w' c) = calls (w_clients w c) @ (if queued x ?d then [b ?d] else [])"
    "w_delegates w' h = (if queued x ?d then unmark x ?d else ?d)"
    using s by (simp_all add: w'_def send_queued_def Let_def)
  have p: "player_of c (upd_d h f (do_client c g w)) =
      (g (player_of c w))\<lparr>delegates := w_delegates (upd_d h f (do_client c g w))\<rparr>" for f g
    by (simp add: player_of_def client.defs do_client_def put_player_def)
  show "ready (w_delegates w' h) (player_of c w')"
    using s assms(1,2) by (simp add: w'_def send_queued_def Let_def p ready_delegates stays_ready)
qed

lemma send_cons: "send_all_queued c h (map fst ((x, b) # qs)) w = send_all_queued c h (map fst qs) (send_queued c h x w)"
  by (simp add: send_all_queued_def)

lemma send_keeps:
  assumes "set qs \<subseteq> set ps" "ready (w_delegates w h) (player_of c w)"
    "\<And>x b d. (x, b) \<in> set qs \<Longrightarrow> f (unmark x d) = f d"
  shows "f (w_delegates (send_all_queued c h (map fst qs) w) h) = f (w_delegates w h) \<and>
    ready (w_delegates (send_all_queued c h (map fst qs) w) h) (player_of c (send_all_queued c h (map fst qs) w))"
  using assms
proof (induction qs arbitrary: w)
  case Nil
  then show ?case by (simp add: send_all_queued_def)
next
  case (Cons p qs)
  obtain x b where p: "p = (x, b)" by fastforce
  have xb: "(x, b) \<in> set ps" using Cons.prems(1) by (simp add: p)
  note o = send_one [OF xb Cons.prems(2)]
  have "f (w_delegates (send_queued c h x w) h) = f (w_delegates w h)"
    using o(2) Cons.prems(3) [of x b] by (simp add: p)
  then show ?case unfolding p send_cons using Cons.IH [OF _ o(3)] Cons.prems(1,3) by (auto simp: p)
qed

lemma send_list:
  assumes "set qs \<subseteq> set ps" "ready (w_delegates w h) (player_of c w)"
    "sorted_wrt (\<lambda>(x, b) (y, b'). \<forall>d. queued y (unmark x d) = queued y d \<and>
       b' (unmark x d) = b' d \<and> queued x (unmark y d) = queued x d) qs"
  shows "calls (w_clients (send_all_queued c h (map fst qs) w) c) = calls (w_clients w c) @
      map (\<lambda>(x, b). b (w_delegates w h)) (filter (\<lambda>(x, b). queued x (w_delegates w h)) qs) \<and>
    (\<forall>x b. (x, b) \<in> set qs \<longrightarrow> \<not> queued x (w_delegates (send_all_queued c h (map fst qs) w) h))"
  using assms
proof (induction qs arbitrary: w)
  case Nil
  then show ?case by (simp add: send_all_queued_def)
next
  case (Cons p qs)
  obtain x b where p: "p = (x, b)" by fastforce
  let ?d = "w_delegates w h" and ?w = "send_queued c h x w"
  let ?v = "send_all_queued c h (map fst qs) ?w"
  have xb: "(x, b) \<in> set ps" and qs: "set qs \<subseteq> set ps" using Cons.prems(1) by (auto simp: p)
  note o = send_one [OF xb Cons.prems(2)]
  have sep: "queued y (unmark x d) = queued y d" "b' (unmark x d) = b' d" "queued x (unmark y d) = queued x d"
    if "(y, b') \<in> set qs" for y b' d
    using Cons.prems(3) that by (auto simp: p)
  have rest: "map (\<lambda>(y, b). b (w_delegates ?w h)) (filter (\<lambda>(y, b). queued y (w_delegates ?w h)) qs) =
      map (\<lambda>(y, b). b ?d) (filter (\<lambda>(y, b). queued y ?d) qs)"
    using o(2) sep by (auto intro!: map_cong filter_cong)
  have ih: "calls (w_clients ?v c) = calls (w_clients ?w c) @ map (\<lambda>(y, b). b ?d) (filter (\<lambda>(y, b). queued y ?d) qs)"
    "\<And>y b'. (y, b') \<in> set qs \<Longrightarrow> \<not> queued y (w_delegates ?v h)"
    using Cons.IH [OF qs o(3)] Cons.prems(3) unfolding rest by (auto simp: p)
  have "queued x (w_delegates ?v h) = queued x (w_delegates ?w h)"
    using send_keeps [OF qs o(3), of "queued x"] sep(3) by blast
  then have "\<not> queued x (w_delegates ?v h)" using o(2) clears [OF xb] by simp
  then show ?case unfolding p send_cons using ih o(1) by auto
qed

text \<open>\<open>q\<close> describes the commands as long as \<open>f\<close>, which no setting changes, has its value.\<close>

lemma send_all:
  assumes "ready (w_delegates w h) (player_of c w)" "\<And>x d. x \<in> set (map fst ps) \<Longrightarrow> f (unmark x d) = f d"
    "\<And>d. f d = f (w_delegates w h) \<Longrightarrow> marked d = q d"
  defines "w' \<equiv> send_all_queued c h (map fst ps) w"
  shows "calls (w_clients w' c) = calls (w_clients w c) @ q (w_delegates w h) \<and> q (w_delegates w' h) = [] \<and>
    f (w_delegates w' h) = f (w_delegates w h) \<and> ready (w_delegates w' h) (player_of c w')"
proof -
  have k: "f (w_delegates w' h) = f (w_delegates w h) \<and> ready (w_delegates w' h) (player_of c w')"
    unfolding w'_def by (rule send_keeps [OF subset_refl assms(1)]) (use assms(2) in force)
  have l: "calls (w_clients w' c) = calls (w_clients w c) @ marked (w_delegates w h)"
    "\<And>x b. (x, b) \<in> set ps \<Longrightarrow> \<not> queued x (w_delegates w' h)"
    using send_list [OF subset_refl assms(1) separate] by (auto simp: w'_def marked_def)
  then have "marked (w_delegates w' h) = []" by (auto simp: marked_def filter_empty_conv)
  with k l(1) show ?thesis using assms(3) by simp
qed

end

section \<open>The tables of the sinks\<close>

text \<open>The commands that the marks of a delegate for its source stand for, in the order of the code. (The
  marks for the client are \<open>client_marks\<close> below.)\<close>

definition audio_marks :: "delegate \<Rightarrow> (bool \<times> backend_call) list" where
  "audio_marks d = (let a = audio d in
     [(a_isMuteQueued a, B_setMute (a_mute a) (m_sourceId d)), (a_isLowLatencyQueued a, B_setLowLatency (a_lowLatency a)),
      (a_isSyncQueued a, B_setSync (a_sync a)), (a_isSyncOffQueued a, B_setSyncOff (a_syncOff a)),
      (a_isStreamSyncModeQueued a, B_setStreamSyncMode (m_sourceId d) (a_streamSyncMode a)),
      (a_isBufferingLimitQueued a, B_setBufferingLimit (a_bufferingLimit a)),
      (a_isUseBufferingQueued a, B_setUseBuffering (a_useBuffering a))])"

definition video_marks :: "delegate \<Rightarrow> (bool \<times> backend_call) list" where
  "video_marks d = (let v = video d in
     [(v_immediateOutputQueued v, B_setImmediateOutput (m_sourceId d) (v_immediateOutput v)),
      (v_syncmodeStreamingQueued v, B_setStreamSyncMode (m_sourceId d) (of_bool (v_syncmodeStreaming v))),
      (v_videoMuteQueued v, B_setMute (v_videoMute v) (m_sourceId d))])"

definition subtitle_marks :: "delegate \<Rightarrow> (bool \<times> backend_call) list" where
  "subtitle_marks d = (let x = subtitle d in
     [(s_isMuteQueued x, B_setMute (s_isMuted x) (m_sourceId d)),
      (s_isTextTrackIdentifierQueued x, B_setTextTrackIdentifier (s_textTrackIdentifier x)),
      (s_queuedOffset x \<noteq> None,
       B_setSubtitleOffset (m_sourceId d) (case s_queuedOffset x of None \<Rightarrow> 0 | Some offset \<Rightarrow> offset))])"

definition source_commands :: "delegate \<Rightarrow> backend_call list" where
  "source_commands d = map snd (filter fst
     (case m_mediaSourceType d of MST_AUDIO \<Rightarrow> audio_marks d | MST_VIDEO \<Rightarrow> video_marks d
      | MST_SUBTITLE \<Rightarrow> subtitle_marks d | _ \<Rightarrow> []))"

definition takes_calls :: "player \<Rightarrow> bool" where
  "takes_calls s \<longleftrightarrow> queueRunning s \<and> queueAccepting s \<and> m_clientBackend s"

definition holds_source :: "delegate \<Rightarrow> player \<Rightarrow> bool" where
  "holds_source d s \<longleftrightarrow> takes_calls s \<and> find_key (m_attachedSources s) (m_sourceId d) \<noteq> None"

abbreviation command :: "(delegate \<Rightarrow> (bool \<times> backend_call) list) \<Rightarrow> nat \<Rightarrow> delegate \<Rightarrow> backend_call" where
  "command marks i d \<equiv> snd (marks d ! i)"

lemmas setters = setMute_def setLowLatency_def setSync_def setSyncOff_def setStreamSyncMode_def setBufferingLimit_def
  setUseBuffering_def setImmediateOutput_def setTextTrackIdentifier_def setSubtitleOffset_def backend_set_def
  in_loop_def call_def

interpretation audio_queue: setting_queue
  "zip (audio_source_settings g) (map (command audio_marks) [0..<7])" holds_source for g
  by unfold_locales (auto simp: audio_source_settings_def audio_marks_def upt_rec upd_a_def
      holds_source_def takes_calls_def setters Let_def)

interpretation video_queue: setting_queue
  "zip (video_source_settings g) (map (command video_marks) [0..<3])" holds_source for g
  by unfold_locales (auto simp: video_source_settings_def video_marks_def upt_rec upd_v_def
      holds_source_def takes_calls_def setters Let_def)

interpretation subtitle_queue: setting_queue
  "zip subtitle_source_settings (map (command subtitle_marks) [0..<3])" holds_source
  by unfold_locales (auto simp: subtitle_source_settings_def subtitle_marks_def upt_rec upd_s_def
      holds_source_def takes_calls_def setters Let_def split: option.splits)

section \<open>Attaching a source\<close>

definition session_command :: "backend_call \<Rightarrow> bool" where
  "session_command b \<longleftrightarrow> b = B_allSourcesAttached \<or> b = B_pause \<or> (\<exists>src. b = B_attachSource src)"

lemma sent_if_possible:
  "\<exists>cs. calls (sendAllSourcesAttachedIfPossibleInternal s) = calls s @ cs \<and> list_all session_command cs"
  "delegates (sendAllSourcesAttachedIfPossibleInternal s) = delegates s"
  "m_attachedSources (sendAllSourcesAttachedIfPossibleInternal s) = m_attachedSources s"
  "takes_calls (sendAllSourcesAttachedIfPossibleInternal s) = takes_calls s"
  by (auto simp: sendAllSourcesAttachedIfPossibleInternal_def Let_def call_def session_command_def takes_calls_def)

lemma attachSource_effect:
  assumes "takes_calls s" "attachSource e src h s = (True, s')"
    "\<And>sid. be_attachSource e src = Some sid \<Longrightarrow> find_key (m_attachedSources s) sid = None"
  obtains sid cs where "calls s' = calls s @ cs" "list_all session_command cs"
    "delegates s' = (delegates s)(h := setSourceId sid (delegates s h))"
    "find_key (m_attachedSources s') sid \<noteq> None" "takes_calls s'"
proof -
  have "attachSource_in_loop e src h s = (True, s')"
    using assms(1,2) by (auto simp: attachSource_def in_loop_def takes_calls_def split: if_splits)
  then obtain sid where sid: "be_attachSource e src = Some sid"
    and s': "s' = sendAllSourcesAttachedIfPossibleInternal (edit_sync (addSource sid) (upd_delegate h (setSourceId sid)
      ((call (B_attachSource src) s)\<lparr>m_attachedSources := m_attachedSources s @ [(sid, new_source (getType src) h)]\<rparr>)))"
    (is "_ = sendAllSourcesAttachedIfPossibleInternal ?s")
    using assms(3) by (auto simp: attachSource_in_loop_def Let_def call_def split: option.splits)
  obtain cs where cs: "calls s' = calls ?s @ cs" "list_all session_command cs"
    using sent_if_possible(1) [of ?s] by (auto simp: s')
  show thesis
  proof (rule that)
    show "calls s' = calls s @ (B_attachSource src # cs)" "list_all session_command (B_attachSource src # cs)"
      using cs by (simp_all add: edit_sync_def upd_delegate_def call_def session_command_def)
    show "delegates s' = (delegates s)(h := setSourceId sid (delegates s h))"
      "find_key (m_attachedSources s') sid \<noteq> None" "takes_calls s'"
      using assms(1)
      by (simp_all add: s' sent_if_possible(2-) edit_sync_def upd_delegate_def call_def map_add_def split: option.splits)
        (simp add: takes_calls_def)
  qed
qed

text \<open>What the commands of a delegate depend on.\<close>

definition config :: "delegate \<Rightarrow> audio_members \<times> video_members \<times> subtitle_members \<times> int \<times> MediaSourceType \<times> bool" where
  "config d = (audio d, video d, subtitle d, m_sourceId d, m_mediaSourceType d, m_sourceAttached d)"

lemma config_commands: "config d = config d' \<Longrightarrow> source_commands d = source_commands d'"
  by (simp add: config_def source_commands_def audio_marks_def video_marks_def subtitle_marks_def
      split: MediaSourceType.splits)

lemma pause_effect:
  assumes "takes_calls s"
  shows "\<exists>cs. calls (snd (pause k s)) = calls s @ cs \<and> list_all session_command cs"
    "config (delegates (snd (pause k s)) h) = config (delegates s h)"
    "(find_key (m_attachedSources (snd (pause k s))) j = None) = (find_key (m_attachedSources s) j = None)"
    "takes_calls (snd (pause k s))"
  using assms
  by (auto simp: pause_def in_loop_def pause_in_loop_def takes_calls_def Let_def call_def session_command_def
      set_source_state_def edit_source_def upd_delegate_def postAsyncStart_def upd_sink_def config_def split: option.splits)

lemma pause_if_requested_effect:
  assumes "holds_source (w_delegates w h) (player_of c w)"
  defines "w' \<equiv> pause_if_requested c h w"
  obtains cs where "calls (w_clients w' c) = calls (w_clients w c) @ cs" "list_all session_command cs"
    "config (w_delegates w' h) = config (w_delegates w h)" "holds_source (w_delegates w' h) (player_of c w')"
proof (cases "GST_STATE_NEXT (m_sink (w_delegates w h)) = GST_STATE_PAUSED")
  case True
  let ?k = "m_sourceId (w_delegates w h)"
  have t: "takes_calls (player_of c w)" using assms(1) by (simp add: holds_source_def)
  have w': "w' = do_client c (\<lambda>s. snd (pause ?k s)) w" using True by (simp add: w'_def pause_if_requested_def)
  obtain cs where cs: "calls (snd (pause ?k (player_of c w))) = calls (player_of c w) @ cs" "list_all session_command cs"
    using pause_effect(1) [OF t] by blast
  have c: "config (w_delegates w' h) = config (w_delegates w h)" using pause_effect(2) [OF t, of ?k h] by (simp add: w')
  then have k: "m_sourceId (w_delegates w' h) = ?k" by (simp add: config_def)
  have p: "player_of c w' = snd (pause ?k (player_of c w))" by (simp add: w' do_client_def)
  show thesis
  proof (rule that [OF _ cs(2) c])
    show "calls (w_clients w' c) = calls (w_clients w c) @ cs" using cs(1) by (simp add: w')
    show "holds_source (w_delegates w' h) (player_of c w')"
      using assms(1) pause_effect(3,4) [OF t, of ?k] by (simp add: holds_source_def k p)
  qed
next
  case False
  then show thesis using that [of "[]"] assms(1) by (simp add: w'_def pause_if_requested_def)
qed

section \<open>Sending the marked settings\<close>

definition source_settings :: "gst_env \<Rightarrow> MediaSourceType \<Rightarrow> setting list" where
  "source_settings g t = (case t of MST_AUDIO \<Rightarrow> audio_source_settings g | MST_VIDEO \<Rightarrow> video_source_settings g
     | MST_SUBTITLE \<Rightarrow> subtitle_source_settings | _ \<Rightarrow> [])"

lemma table_lengths [simp]:
  "length (audio_source_settings g) = 7" "length (video_source_settings g) = 3" "length subtitle_source_settings = 3"
  by (simp_all add: audio_source_settings_def video_source_settings_def subtitle_source_settings_def)

lemma table_marked:
  "m_mediaSourceType d = MST_AUDIO \<Longrightarrow> audio_queue.marked g d = source_commands d"
  "m_mediaSourceType d = MST_VIDEO \<Longrightarrow> video_queue.marked g d = source_commands d"
  "m_mediaSourceType d = MST_SUBTITLE \<Longrightarrow> subtitle_queue.marked d = source_commands d"
  unfolding audio_queue.marked_def video_queue.marked_def subtitle_queue.marked_def
  by (simp_all add: source_commands_def audio_source_settings_def video_source_settings_def subtitle_source_settings_def
      audio_marks_def video_marks_def subtitle_marks_def upt_rec Let_def)

text \<open>The settings that are sent when the client is attached, with their marks: the volume and the fade of
  an audio sink, the rectangle of a video sink. None that is sent with the source touches them.\<close>

definition client_marks :: "delegate \<Rightarrow> (bool \<times> real) \<times> (bool \<times> AudioFadeConfig) \<times> (bool \<times> string)" where
  "client_marks d =
     ((a_isVolumeQueued (audio d), a_targetVolume (audio d)),
      (a_isAudioFadeQueued (audio d), a_audioFadeConfig (audio d)),
      (v_rectangleSettingQueued (video d), v_videoRectangle (video d)))"

definition untouched :: "delegate \<Rightarrow> int \<times> MediaSourceType \<times> bool \<times>
    (bool \<times> real) \<times> (bool \<times> AudioFadeConfig) \<times> (bool \<times> string)" where
  "untouched d = (m_sourceId d, m_mediaSourceType d, m_sourceAttached d, client_marks d)"

lemma config_untouched: "config d = config d' \<Longrightarrow> untouched d = untouched d'"
  by (simp add: config_def untouched_def client_marks_def)

lemma table_frame: "x \<in> set (source_settings g t) \<Longrightarrow> untouched (unmark x d) = untouched d"
  by (auto simp: untouched_def client_marks_def source_settings_def audio_source_settings_def video_source_settings_def subtitle_source_settings_def
      upd_a_def upd_v_def upd_s_def split: MediaSourceType.splits)

lemma marked_sent:
  fixes g :: gst_env
  assumes "holds_source (w_delegates w h) (player_of c w)" "m_mediaSourceType (w_delegates w h) = t"
  defines "w' \<equiv> send_all_queued c h (source_settings g t) w"
  shows "calls (w_clients w' c) = calls (w_clients w c) @ source_commands (w_delegates w h) \<and>
    source_commands (w_delegates w' h) = [] \<and> untouched (w_delegates w' h) = untouched (w_delegates w h) \<and>
    holds_source (w_delegates w' h) (player_of c w')"
proof -
  have type: "m_mediaSourceType d = t" if "untouched d = untouched (w_delegates w h)" for d
    using that assms(2) by (simp add: untouched_def)
  show ?thesis
  proof (cases t)
    case MST_AUDIO
    then show ?thesis
      using audio_queue.send_all [where g = g and f = untouched and q = source_commands, OF assms(1)]
        table_frame [of _ g t] table_marked(1) type
      by (simp add: w'_def source_settings_def)
  next
    case MST_VIDEO
    then show ?thesis
      using video_queue.send_all [where g = g and f = untouched and q = source_commands, OF assms(1)]
        table_frame [of _ g t] table_marked(2) type
      by (simp add: w'_def source_settings_def)
  next
    case MST_SUBTITLE
    then show ?thesis
      using subtitle_queue.send_all [where f = untouched and q = source_commands, OF assms(1)]
        table_frame [of _ g t] table_marked(3) type
      by (simp add: w'_def source_settings_def)
  next
    case MST_UNKNOWN
    then show ?thesis using assms by (simp add: w'_def source_settings_def send_all_queued_def source_commands_def)
  qed
qed

text \<open>
  The two orders of the code: the audio and the subtitle sink send the settings and then pause, the
  video sink pauses first.
\<close>

definition sent_around :: "nat \<Rightarrow> nat \<Rightarrow> world \<Rightarrow> world \<Rightarrow> bool" where
  "sent_around c h w w' \<longleftrightarrow>
     (\<exists>pre post. calls (w_clients w' c) = calls (w_clients w c) @ pre @ source_commands (w_delegates w h) @ post \<and>
        list_all session_command pre \<and> list_all session_command post) \<and>
     source_commands (w_delegates w' h) = [] \<and> untouched (w_delegates w' h) = untouched (w_delegates w h)"

lemma sent_aroundI:
  "calls (w_clients w' c) = calls (w_clients w c) @ pre1 @ source_commands (w_delegates w h) @ post1 \<Longrightarrow>
   list_all session_command pre1 \<Longrightarrow> list_all session_command post1 \<Longrightarrow> source_commands (w_delegates w' h) = [] \<Longrightarrow>
   untouched (w_delegates w' h) = untouched (w_delegates w h) \<Longrightarrow> sent_around c h w w'"
  unfolding sent_around_def by blast

lemma settings_then_pause:
  assumes "holds_source (w_delegates w h) (player_of c w)" "m_mediaSourceType (w_delegates w h) = t"
  shows "sent_around c h w (pause_if_requested c h (send_all_queued c h (source_settings g t) w))"
proof -
  note m = marked_sent [OF assms, of g]
  have hs: "holds_source (w_delegates (send_all_queued c h (source_settings g t) w) h)
      (player_of c (send_all_queued c h (source_settings g t) w))" using m by blast
  show ?thesis
  proof (rule pause_if_requested_effect [OF hs])
    fix cs
    let ?w1 = "send_all_queued c h (source_settings g t) w"
    let ?w2 = "pause_if_requested c h ?w1"
    assume p: "calls (w_clients ?w2 c) = calls (w_clients ?w1 c) @ cs" "list_all session_command cs"
      "config (w_delegates ?w2 h) = config (w_delegates ?w1 h)"
    have "calls (w_clients ?w2 c) = calls (w_clients w c) @ [] @ source_commands (w_delegates w h) @ cs"
      using p(1) m by simp
    then show ?thesis
      by (rule sent_aroundI) (use p(2) m config_commands [OF p(3)] config_untouched [OF p(3)] in simp_all)
  qed
qed

lemma pause_then_settings:
  assumes "holds_source (w_delegates w h) (player_of c w)" "m_mediaSourceType (w_delegates w h) = t"
  shows "sent_around c h w (send_all_queued c h (source_settings g t) (pause_if_requested c h w))"
proof (rule pause_if_requested_effect [OF assms(1)])
  fix cs
  let ?w1 = "pause_if_requested c h w"
  assume p: "calls (w_clients ?w1 c) = calls (w_clients w c) @ cs" "list_all session_command cs"
    "config (w_delegates ?w1 h) = config (w_delegates w h)" "holds_source (w_delegates ?w1 h) (player_of c ?w1)"
  have t: "m_mediaSourceType (w_delegates ?w1 h) = t" using p(3) assms(2) by (simp add: config_def)
  note m = marked_sent [OF p(4) t, of g]
  have "calls (w_clients (send_all_queued c h (source_settings g t) ?w1) c) =
      calls (w_clients w c) @ cs @ source_commands (w_delegates w h) @ []"
    using p(1) m config_commands [OF p(3)] by simp
  then show ?thesis
    by (rule sent_aroundI) (use p(2) m config_untouched [OF p(3)] in simp_all)
qed

lemma source_commands_attached: "source_commands (d\<lparr>m_sourceId := k, m_sourceAttached := b\<rparr>) = source_commands (d\<lparr>m_sourceId := k\<rparr>)"
  by (simp add: source_commands_def audio_marks_def video_marks_def subtitle_marks_def split: MediaSourceType.splits)

lemma attached_announces:
  assumes "client_up (w_clients w c)" "on_client c (attachSource e src h) w = (True, w1)"
    "\<And>sid. be_attachSource e src = Some sid \<Longrightarrow> find_key (m_attachedSources (w_clients w c)) sid = None"
    "m_mediaSourceType (w_delegates w h) = t"
    "w2 = pause_if_requested c h (send_all_queued c h (source_settings g t) (attached h w1)) \<or>
     w2 = send_all_queued c h (source_settings g t) (pause_if_requested c h (attached h w1))"
  shows "(\<exists>pre post. calls (w_clients w2 c) = calls (w_clients w c) @ pre @
        source_commands ((w_delegates w h)\<lparr>m_sourceId := m_sourceId (w_delegates w2 h)\<rparr>) @ post \<and>
        list_all session_command pre \<and> list_all session_command post) \<and>
      source_commands (w_delegates w2 h) = [] \<and> m_sourceAttached (w_delegates w2 h) \<and>
      client_marks (w_delegates w2 h) = client_marks (w_delegates w h)"
proof -
  have t: "takes_calls (player_of c w)" using assms(1) by (simp add: takes_calls_def client_up_def)
  obtain s1 where s1: "attachSource e src h (player_of c w) = (True, s1)" "w1 = put_player c s1 w"
    using assms(2) by (auto simp: on_client_def split: prod.splits)
  have fr: "\<And>sid. be_attachSource e src = Some sid \<Longrightarrow> find_key (m_attachedSources (player_of c w)) sid = None"
    using assms(3) by simp
  show ?thesis
  proof (rule attachSource_effect [OF t s1(1) fr])
    fix sid cs
    assume a: "calls s1 = calls (player_of c w) @ cs" "list_all session_command cs"
      "delegates s1 = (delegates (player_of c w))(h := setSourceId sid (delegates (player_of c w) h))"
      "find_key (m_attachedSources s1) sid \<noteq> None" "takes_calls s1"
    let ?w = "attached h w1"
    have d: "w_delegates ?w h = (w_delegates w h)\<lparr>m_sourceId := sid, m_sourceAttached := True\<rparr>"
      by (simp add: attached_def s1(2) put_player_def a(3) setSourceId_def)
    have "m_mediaSourceType (w_delegates ?w h) = t" using d assms(4) by simp
    moreover have "holds_source (w_delegates ?w h) (player_of c ?w)"
      using a(4,5) d
      by (simp add: holds_source_def takes_calls_def) (simp add: attached_def s1(2) put_player_def)
    ultimately have r: "sent_around c h ?w w2"
      using assms(5) settings_then_pause pause_then_settings by blast
    have q: "source_commands (w_delegates ?w h) =
        source_commands ((w_delegates w h)\<lparr>m_sourceId := m_sourceId (w_delegates w2 h)\<rparr>)"
      using r by (simp add: sent_around_def untouched_def d source_commands_attached)
    obtain pre post where "calls (w_clients w2 c) = calls (w_clients ?w c) @ pre @ source_commands (w_delegates ?w h) @ post"
      "list_all session_command pre" "list_all session_command post"
      using r by (auto simp: sent_around_def)
    moreover have "calls (w_clients ?w c) = calls (w_clients w c) @ cs"
      using a(1) by (simp add: attached_def s1(2) put_player_def)
    ultimately have "calls (w_clients w2 c) = calls (w_clients w c) @ (cs @ pre) @
        source_commands ((w_delegates w h)\<lparr>m_sourceId := m_sourceId (w_delegates w2 h)\<rparr>) @ post \<and>
        list_all session_command (cs @ pre) \<and> list_all session_command post"
      using a(2) q by simp
    moreover have "source_commands (w_delegates w2 h) = [] \<and> m_sourceAttached (w_delegates w2 h) \<and>
        client_marks (w_delegates w2 h) = client_marks (w_delegates w h)"
      using r d by (simp add: sent_around_def untouched_def) (simp add: client_marks_def)
    ultimately show ?thesis
      by blast
  qed
qed

lemma attachSource_refused: "attachSource e src h s = (False, s') \<Longrightarrow> delegates s' = delegates s"
  by (auto simp: attachSource_def in_loop_def attachSource_in_loop_def Let_def sent_if_possible call_def
      split: if_splits option.splits)

lemma caps_attaches:
  assumes "getMediaPlayerClient h w = Some c" "\<not> m_sourceAttached (w_delegates w h)"
    "m_mediaSourceType (w_delegates w h) = t" "t \<noteq> MST_UNKNOWN"
    "delegate_handleEvent g h (EVENT_CAPS caps) w = Returns (r, w')" "m_sourceAttached (w_delegates w' h)"
  obtains w1 w2 src where "on_client c (attachSource (backend g) src h) w = (True, w1)"
    "w2 = pause_if_requested c h (send_all_queued c h (source_settings g t) (attached h w1)) \<or>
     w2 = send_all_queued c h (source_settings g t) (pause_if_requested c h (attached h w1))"
    "w' = upd_d h (set_caps g caps) w2"
proof -
  have sc: "m_sourceAttached (set_caps g caps d) = m_sourceAttached d" for d
    by (simp add: set_caps_def split: option.splits)
  have fl: "\<not> m_sourceAttached (w_delegates w1 h)" if "on_client c (attachSource e src h) w = (False, w1)" for e src w1
    using that assms(2) attachSource_refused
    by (fastforce simp: on_client_def put_player_def split: prod.splits)
  show thesis
  proof (cases t)
    case MST_AUDIO
    then show thesis
      using assms that fl
      by (auto simp: delegate_handleEvent_def audio_handleEvent_def audio_caps_def Let_def sc source_settings_def
          split: sum.splits option.splits prod.splits bool.splits)
  next
    case MST_VIDEO
    then show thesis
      using assms that fl
      by (auto simp: delegate_handleEvent_def video_handleEvent_def video_caps_def Let_def sc source_settings_def
          split: option.splits prod.splits bool.splits)
  next
    case MST_SUBTITLE
    then show thesis
      using assms that fl
      by (auto simp: delegate_handleEvent_def subtitle_handleEvent_def subtitle_caps_def Let_def sc source_settings_def
          split: option.splits prod.splits bool.splits)
  qed (use assms(4) in simp)
qed

lemma caps_effect:
  assumes "manager_inv w" "h \<in> set (w_handles w)" "getMediaPlayerClient h w = Some c"
    "\<not> m_sourceAttached (w_delegates w h)" "m_mediaSourceType (w_delegates w h) \<noteq> MST_UNKNOWN"
    "\<forall>src sid. be_attachSource (backend g) src = Some sid \<longrightarrow> find_key (m_attachedSources (w_clients w c)) sid = None"
    "delegate_handleEvent g h (EVENT_CAPS caps) w = Returns (r, w')" "m_sourceAttached (w_delegates w' h)"
  obtains pre1 post1 where "calls (w_clients w' c) = calls (w_clients w c) @ pre1 @
      source_commands ((w_delegates w h)\<lparr>m_sourceId := m_sourceId (w_delegates w' h)\<rparr>) @ post1"
    "list_all session_command pre1" "list_all session_command post1" "source_commands (w_delegates w' h) = []"
    "client_marks (w_delegates w' h) = client_marks (w_delegates w h)"
proof -
  have up: "client_up (w_clients w c)" by (rule reachable_client_up [OF assms(1-3)])
  obtain w1 w2 src where a: "on_client c (attachSource (backend g) src h) w = (True, w1)"
    "w2 = pause_if_requested c h (send_all_queued c h (source_settings g (m_mediaSourceType (w_delegates w h))) (attached h w1)) \<or>
     w2 = send_all_queued c h (source_settings g (m_mediaSourceType (w_delegates w h))) (pause_if_requested c h (attached h w1))"
    "w' = upd_d h (set_caps g caps) w2"
    by (rule caps_attaches [OF assms(3,4) refl assms(5,7,8)])
  have "find_key (m_attachedSources (w_clients w c)) sid = None" if "be_attachSource (backend g) src = Some sid" for sid
    using assms(6) that by blast
  note r = attached_announces [OF up a(1) this refl a(2)]
  have "config (set_caps g caps d) = config d" for d by (simp add: config_def set_caps_def split: option.splits)
  then have cfg: "config (w_delegates w' h) = config (w_delegates w2 h)" by (simp add: a(3))
  have q: "source_commands (w_delegates w' h) = source_commands (w_delegates w2 h)" by (rule config_commands [OF cfg])
  have cl: "calls (w_clients w' c) = calls (w_clients w2 c)" by (simp add: a(3))
  have f: "m_sourceId (w_delegates w' h) = m_sourceId (w_delegates w2 h)"
    "client_marks (w_delegates w' h) = client_marks (w_delegates w2 h)" using cfg by (simp_all add: config_def client_marks_def)
  obtain pre1 post1 where "calls (w_clients w2 c) = calls (w_clients w c) @ pre1 @
      source_commands ((w_delegates w h)\<lparr>m_sourceId := m_sourceId (w_delegates w2 h)\<rparr>) @ post1"
    "list_all session_command pre1" "list_all session_command post1"
    using r by blast
  then show thesis using that [of pre1 post1] r q cl f by simp
qed

lemma source_commands_no_volume: "B_setVolume x n t \<notin> set (source_commands d)"
  by (auto simp: source_commands_def audio_marks_def video_marks_def subtitle_marks_def Let_def split: MediaSourceType.splits)

lemma session_no_volume: "list_all session_command cs \<Longrightarrow> B_setVolume x n t \<notin> set cs"
  by (auto simp: list_all_iff session_command_def)

text \<open>A mute set while the sink is PAUSED without a source.\<close>

definition muted_sink :: world where
  "muted_sink = upd_d 0 (upd_a (\<lambda>a. a\<lparr>a_isMuteQueued := True\<rparr>)) (upd_d 0 (upd_a (\<lambda>a. a\<lparr>a_mute := True\<rparr>)) paused_sink)"

definition opus_caps :: GstCaps where
  "opus_caps = \<lparr>caps_structure = named_structure (Some ''audio/x-opus''), opus_parse_caps = Some (48000, 2), opus_header = None\<rparr>"

lemma paused_sink_delegate:
  "m_mediaSourceType (w_delegates paused_sink 0) = MST_AUDIO" "\<not> m_sourceAttached (w_delegates paused_sink 0)"
  "m_attachedSources (w_clients paused_sink 0) = []"
  unfolding paused_sink_value
  by (simp_all add: postAsyncStart_def upd_sink_def)
    (simp add: handleStreamCollection_def in_loop_def used_world_def demo_client_def GStreamerMSEMediaPlayerClient_def)

lemma muted_sink_step: "sink_step paused_sink muted_sink"
proof -
  have "delegate_setProperty demo_gst 0 Mute (V_boolean True) paused_sink = Returns muted_sink"
    using paused_sink_simps(1) paused_sink_delegate
    by (simp add: delegate_setProperty_def audio_setProperty_def set_or_queue_def muted_sink_def)
  then show ?thesis using sink_setProperty [OF paused_sink_simps(2)] by blast
qed

lemma opus_caps_source: "\<exists>src. createMediaSource_audio b opus_caps = Inr (Some src) \<and> getType src = MST_AUDIO"
  by (simp add: createMediaSource_audio_def opus_caps_def named_structure_def opus_source_def Let_def)

lemma opus_attached:
  assumes "getMediaPlayerClient h w = Some c" "client_up (w_clients w c)" "\<not> m_sourceAttached (w_delegates w h)"
    "m_mediaSourceType (w_delegates w h) = MST_AUDIO" "m_attachedSources (w_clients w c) = []"
    "\<And>src. be_attachSource (backend g) src \<noteq> None"
  shows "\<exists>w'. delegate_handleEvent g h (EVENT_CAPS opus_caps) w = Returns (True, w') \<and> m_sourceAttached (w_delegates w' h)"
proof -
  obtain src where src: "createMediaSource_audio (m_hasDrm (w_delegates w h)) opus_caps = Inr (Some src)" "getType src = MST_AUDIO"
    using opus_caps_source by blast
  have "fst (attachSource (backend g) src h (player_of c w))"
    using assms(2,6) src(2) by (auto simp: attachSource_def in_loop_def client_up_def attachSource_in_loop_def Let_def split: option.splits)
  then obtain w1 where w1: "on_client c (attachSource (backend g) src h) w = (True, w1)"
    by (cases "attachSource (backend g) src h (player_of c w)") (simp add: on_client_def)
  let ?w2 = "pause_if_requested c h (send_all_queued c h (source_settings g MST_AUDIO) (attached h w1))"
  have "m_sourceAttached (w_delegates ?w2 h)"
    using attached_announces [OF assms(2) w1 _ assms(4), of ?w2 g] assms(5) by simp
  then show ?thesis
    using assms src w1
    by (simp add: delegate_handleEvent_def audio_handleEvent_def audio_caps_def Let_def source_settings_def set_caps_def
        split: option.splits)
qed

lemma muted_sink_simps:
  "sink_step\<^sup>*\<^sup>* empty_world muted_sink" "0 \<in> set (w_handles muted_sink)" "getMediaPlayerClient 0 muted_sink = Some 0"
  "\<not> m_sourceAttached (w_delegates muted_sink 0)" "m_mediaSourceType (w_delegates muted_sink 0) = MST_AUDIO"
  "m_attachedSources (w_clients muted_sink 0) = []" "B_setMute True k \<in> set (source_commands ((w_delegates muted_sink 0)\<lparr>m_sourceId := k\<rparr>))"
proof -
  show "sink_step\<^sup>*\<^sup>* empty_world muted_sink" using one_sink_steps(1) muted_sink_step by (rule rtranclp.rtrancl_into_rtrancl)
  have km: "keeps_manager (upd_a f)" for f by (simp add: keeps_manager_def upd_a_def)
  show "0 \<in> set (w_handles muted_sink)" "getMediaPlayerClient 0 muted_sink = Some 0"
    "\<not> m_sourceAttached (w_delegates muted_sink 0)" "m_mediaSourceType (w_delegates muted_sink 0) = MST_AUDIO"
    "m_attachedSources (w_clients muted_sink 0) = []" "B_setMute True k \<in> set (source_commands ((w_delegates muted_sink 0)\<lparr>m_sourceId := k\<rparr>))"
    using paused_sink_simps paused_sink_delegate km
    by (simp_all add: muted_sink_def upd_a_def source_commands_def audio_marks_def Let_def)
qed

section \<open>Properties\<close>

text \<open>
  C28. The settings that wait for the source are sent with it. These are, for an audio sink, mute, low
  latency, sync, sync-off, the stream sync mode, the buffering limit and use-buffering; for a video sink
  immediate output, the stream sync mode and mute; for a subtitle sink mute, the text track and the offset.
  In every reachable state, when the CAPS event attaches the source of a sink, and the server gives source
  ids that the client does not have yet, the client sends exactly those of these settings that were marked,
  each once, with the stored values and the new source id, in the order of the code, next to the commands
  that attach and pause the session; none of them is marked afterwards. The settings that wait for the
  client instead (volume and fade of an audio sink, rectangle of a video sink) are not sent: their marks and
  values are what they were.
\<close>

theorem early_settings_are_sent:
  assumes "world_start w0" "sink_step\<^sup>*\<^sup>* w0 w" "h \<in> set (w_handles w)" "getMediaPlayerClient h w = Some c"
    "\<not> m_sourceAttached (w_delegates w h)" "m_mediaSourceType (w_delegates w h) \<noteq> MST_UNKNOWN"
    "\<forall>src sid. be_attachSource (backend g) src = Some sid \<longrightarrow> find_key (m_attachedSources (w_clients w c)) sid = None"
    "delegate_handleEvent g h (EVENT_CAPS caps) w = Returns (r, w')" "m_sourceAttached (w_delegates w' h)"
  shows "\<exists>pre post. calls (w_clients w' c) = calls (w_clients w c) @ pre @
      source_commands ((w_delegates w h)\<lparr>m_sourceId := m_sourceId (w_delegates w' h)\<rparr>) @ post \<and>
    list_all session_command pre \<and> list_all session_command post \<and> source_commands (w_delegates w' h) = [] \<and>
    client_marks (w_delegates w' h) = client_marks (w_delegates w h)"
  by (rule caps_effect [OF reachable_inv(1) [OF assms(1,2)] assms(3-9)]) (intro exI conjI; assumption)

theorem early_settings_are_sent_witness:
  "\<exists>w' k. delegate_handleEvent demo_gst 0 (EVENT_CAPS opus_caps) muted_sink = Returns (True, w') \<and>
     B_setMute True k \<in> set (calls (w_clients w' 0))"
proof -
  note inv = reachable_inv(1) [OF empty_world_start muted_sink_simps(1)]
  have e: "be_attachSource (backend demo_gst) src \<noteq> None" for src by (simp add: demo_gst_def good_env_def)
  obtain w' where w': "delegate_handleEvent demo_gst 0 (EVENT_CAPS opus_caps) muted_sink = Returns (True, w')"
    "m_sourceAttached (w_delegates w' 0)"
    using opus_attached [OF muted_sink_simps(3) reachable_client_up [OF inv muted_sink_simps(2,3)] muted_sink_simps(4-6) e]
    by blast
  show ?thesis
    using early_settings_are_sent [OF empty_world_start muted_sink_simps(1-4) _ _ w'] muted_sink_simps(5,6) w'(1)
      muted_sink_simps(7) [of "m_sourceId (w_delegates w' 0)"]
    by fastforce
qed

text \<open>
  C29. A volume that is set while a client but no source is attached stays behind. The value is marked,
  but the marks for the volume are looked at only on the way from READY to PAUSED: attaching the source
  sends every other marked setting and no volume, and the mark is still there afterwards.
\<close>

theorem volume_before_source_is_held:
  assumes "world_start w0" "sink_step\<^sup>*\<^sup>* w0 w" "h \<in> set (w_handles w)" "getMediaPlayerClient h w = Some c"
    "\<not> m_sourceAttached (w_delegates w h)" "m_mediaSourceType (w_delegates w h) = MST_AUDIO"
    "\<forall>src sid. be_attachSource (backend g) src = Some sid \<longrightarrow> find_key (m_attachedSources (w_clients w c)) sid = None"
    "delegate_setProperty g h Volume (V_double v) w = Returns w1"
    "delegate_handleEvent g h (EVENT_CAPS caps) w1 = Returns (r, w2)" "m_sourceAttached (w_delegates w2 h)"
  shows "\<exists>cs. calls (w_clients w2 c) = calls (w_clients w c) @ cs \<and> (\<forall>x n t. B_setVolume x n t \<notin> set cs) \<and>
    a_isVolumeQueued (audio (w_delegates w2 h)) \<and> a_targetVolume (audio (w_delegates w2 h)) = v"
proof -
  have w1: "w1 = upd_d h (upd_a (\<lambda>a. a\<lparr>a_isVolumeQueued := True\<rparr>)) (upd_d h (upd_a (\<lambda>a. a\<lparr>a_targetVolume := v\<rparr>)) w)"
    using assms(4-6,8) by (simp add: delegate_setProperty_def audio_setProperty_def set_or_queue_def)
  have "sink_step\<^sup>*\<^sup>* w0 w1"
    using assms(2) sink_setProperty [OF assms(3,8)] by (rule rtranclp.rtrancl_into_rtrancl)
  then have inv: "manager_inv w1" by (rule reachable_inv(1) [OF assms(1)])
  have km: "keeps_manager (upd_a f)" for f by (simp add: keeps_manager_def upd_a_def)
  show ?thesis
  proof (rule caps_effect [OF inv, of h c g caps r w2])
    fix pre1 post1
    let ?q = "source_commands ((w_delegates w1 h)\<lparr>m_sourceId := m_sourceId (w_delegates w2 h)\<rparr>)"
    assume a: "calls (w_clients w2 c) = calls (w_clients w1 c) @ pre1 @ ?q @ post1"
      "list_all session_command pre1" "list_all session_command post1"
      "client_marks (w_delegates w2 h) = client_marks (w_delegates w1 h)"
    show ?thesis
      using a session_no_volume [OF a(2)] session_no_volume [OF a(3)] source_commands_no_volume
      by (intro exI [of _ "pre1 @ ?q @ post1"]) (simp add: w1 upd_a_def client_marks_def)
  qed (use assms km in \<open>simp_all add: w1 upd_a_def\<close>)
qed

theorem volume_before_source_is_held_witness:
  "\<exists>w1 w2. delegate_setProperty demo_gst 0 Volume (V_double (1 / 2)) paused_sink = Returns w1 \<and>
     delegate_handleEvent demo_gst 0 (EVENT_CAPS opus_caps) w1 = Returns (True, w2) \<and>
     m_sourceAttached (w_delegates w2 0) \<and> a_isVolumeQueued (audio (w_delegates w2 0)) \<and>
     a_targetVolume (audio (w_delegates w2 0)) = 1 / 2"
proof -
  define w1 where "w1 = upd_d 0 (upd_a (\<lambda>a. a\<lparr>a_isVolumeQueued := True\<rparr>))
    (upd_d 0 (upd_a (\<lambda>a. a\<lparr>a_targetVolume := 1 / 2\<rparr>)) paused_sink)"
  have s: "delegate_setProperty demo_gst 0 Volume (V_double (1 / 2)) paused_sink = Returns w1"
    using paused_sink_simps(1) paused_sink_delegate
    by (simp add: delegate_setProperty_def audio_setProperty_def set_or_queue_def w1_def)
  have km: "keeps_manager (upd_a f)" for f by (simp add: keeps_manager_def upd_a_def)
  have e: "be_attachSource (backend demo_gst) src \<noteq> None" for src by (simp add: demo_gst_def good_env_def)
  have up: "client_up (w_clients w1 0)"
    using reachable_client_up [OF reachable_inv(1) [OF empty_world_start one_sink_steps(1)] paused_sink_simps(2,1)]
    by (simp add: w1_def)
  obtain w2 where w2: "delegate_handleEvent demo_gst 0 (EVENT_CAPS opus_caps) w1 = Returns (True, w2)"
    "m_sourceAttached (w_delegates w2 0)"
    using opus_attached [of 0 w1 0, OF _ up _ _ _ e] paused_sink_simps(1) paused_sink_delegate km
    by (auto simp: w1_def upd_a_def)
  show ?thesis
    using volume_before_source_is_held [OF empty_world_start one_sink_steps(1) paused_sink_simps(2,1)
        paused_sink_delegate(2,1) _ s w2] paused_sink_delegate(3) s w2
    by auto
qed

end
