(* ===== verification/Sink_Queue.thy ===== *)
theory Sink_Queue
  imports Sink_Properties
begin

text \<open>
  The queue of samples between the streaming thread of a sink and the pull requests of the server:
  its bound, the waiting of the streaming thread, and what a flush does to both.

  \<open>stream_step\<close> interleaves one streaming thread, which is inside \<open>handleBuffer\<close> at most once at a time
  because GStreamer holds the stream lock of the pad, with pops, clears and everything else that other
  threads do. \<open>popSample\<close> and \<open>clearBuffersUnlocked\<close> notify \<open>m_needDataCondVariable\<close>; a thread that was
  notified runs again some time later. A condition variable may also wake up by itself; the state counts
  how often that happened.
\<close>

section \<open>The streaming thread\<close>

datatype stream = Idle | Waiting GstBuffer | Woken GstBuffer

fun notify_all :: "stream \<Rightarrow> stream" where
  "notify_all (Waiting b) = Woken b"
| "notify_all t = t"

inductive stream_step :: "nat \<Rightarrow> stream \<times> nat \<times> world \<Rightarrow> stream \<times> nat \<times> world \<Rightarrow> bool" for h where
  push: "handleBuffer g h b w = Returns (r, w') \<Longrightarrow> stream_step h (Idle, k, w) (Idle, k, w')"
| wait: "handleBuffer g h b w = Waits \<Longrightarrow> stream_step h (Idle, k, w) (Waiting b, k, w)"
| spurious: "stream_step h (Waiting b, k, w) (Woken b, Suc k, w)"
| resume: "handleBuffer_woken g h b w = (r, w') \<Longrightarrow> stream_step h (Woken b, k, w) (Idle, k, w')"
| pop: "stream_step h (t, k, w) (notify_all t, k, upd_d h popSample w)"
| clear: "stream_step h (t, k, w) (notify_all t, k, upd_d h clearBuffersUnlocked w)"
| other: "m_samples (w_delegates w' h) = m_samples (w_delegates w h) \<Longrightarrow> stream_step h (t, k, w) (t, k, w')"

definition stream_start :: "nat \<Rightarrow> stream \<times> nat \<times> world \<Rightarrow> bool" where
  "stream_start h p \<longleftrightarrow> (case p of (t, k, w) \<Rightarrow> t = Idle \<and> k = 0 \<and> m_samples (w_delegates w h) = [])"

fun stream_inv :: "nat \<Rightarrow> stream \<times> nat \<times> world \<Rightarrow> bool" where
  "stream_inv h (t, k, w) \<longleftrightarrow>
     (let n = length (m_samples (w_delegates w h))
      in n \<le> kMaxInternalBuffersQueueSize + k \<and>
         (case t of Idle \<Rightarrow> True | Waiting _ \<Rightarrow> kMaxInternalBuffersQueueSize \<le> n
          | Woken _ \<Rightarrow> n < kMaxInternalBuffersQueueSize + k))"

section \<open>The length of the queue\<close>

lemma queue_ops [simp]:
  "m_samples (clearBuffersUnlocked d) = []" "m_samples (setLastBuffer b d) = m_samples d"
  "m_samples (popSample d) = tl (m_samples d)"
  by (simp_all add: clearBuffersUnlocked_def setLastBuffer_def popSample_def split: list.splits)

lemma notify_data_delegates [simp]: "w_delegates (notify_data h w) = w_delegates w"
  by (simp add: notify_data_def edit_sync_def split: option.splits)

lemma notify_data_client [simp]: "getMediaPlayerClient j (notify_data h w) = getMediaPlayerClient j w"
  by (rule get_client_cong) (simp_all add: the_manager_def, simp add: notify_data_def split: option.splits)

lemma handleBuffer_woken_client [simp]:
  "getMediaPlayerClient j (snd (handleBuffer_woken g h b w)) = getMediaPlayerClient j w"
  by (simp add: handleBuffer_woken_def keeps_manager_def setLastBuffer_def)

lemma handleBuffer_woken_samples:
  "m_samples (w_delegates (snd (handleBuffer_woken g h b w)) h) =
     (if m_isSinkFlushOngoing (w_delegates w h) \<or> \<not> sample_created g then m_samples (w_delegates w h)
      else m_samples (w_delegates w h) @ [new_sample (w_delegates w h) b])"
  by (simp add: handleBuffer_woken_def)

interpretation stream: invariant_system "stream_start h" "stream_step h" "stream_inv h" for h
proof
  show "stream_inv h p" if "stream_start h p" for p
    using that by (cases p) (simp add: stream_start_def)
  show "stream_inv h q" if "stream_step h p q" "stream_inv h p" for p q
    using that
  proof (cases rule: stream_step.cases)
    case (push g b w r w' k)
    then have "m_samples (w_delegates w' h) = m_samples (w_delegates (snd (handleBuffer_woken g h b w)) h)"
      "length (m_samples (w_delegates w h)) < kMaxInternalBuffersQueueSize"
      by (auto simp: handleBuffer_def split: if_splits)
    then show ?thesis using push by (auto simp: handleBuffer_woken_samples)
  next
    case (resume g b w r w' k)
    then show ?thesis
      using handleBuffer_woken_samples [of g h b w] that(2) by (auto simp: Let_def split: if_splits)
  next
    case (pop t k w)
    then show ?thesis
      using that(2) by (cases t) (auto simp: Let_def kMaxInternalBuffersQueueSize_def)
  next
    case (clear t k w)
    then show ?thesis by (cases t) (auto simp: kMaxInternalBuffersQueueSize_def)
  qed (auto simp: Let_def handleBuffer_def split: if_splits stream.splits)
qed

section \<open>Properties\<close>

text \<open>
  C30. The queue of a sink is bounded and the streaming thread cannot be forgotten. However pushes, pops,
  clears and the other threads are interleaved, the queue never holds more than 24 samples, unless the
  condition variable wakes up by itself: each time that happens allows one sample more, since the code
  does not test the length again, and a waiting thread that is woken like that does overfill the queue.
  The streaming thread waits only while the queue is full, so that the next pop finds a sample to take
  and wakes it, and there is room when it runs again.
\<close>

theorem sample_queue_is_bounded:
  fixes g :: gst_env
  assumes "stream_start h (t0, k0, w0)" "(stream_step h)\<^sup>*\<^sup>* (t0, k0, w0) (t, k, w)"
  shows "length (m_samples (w_delegates w h)) \<le> 24 + k \<and>
    (\<forall>b. t = Waiting b \<longrightarrow> 24 \<le> length (m_samples (w_delegates w h)) \<and>
       stream_step h (t, k, w) (Woken b, k, upd_d h popSample w) \<and>
       (\<not> m_isSinkFlushOngoing (w_delegates w h) \<and> sample_created g \<longrightarrow>
         (\<exists>w'. (stream_step h)\<^sup>*\<^sup>* (t, k, w) (Idle, Suc k, w') \<and>
            length (m_samples (w_delegates w' h)) = Suc (length (m_samples (w_delegates w h)))))) \<and>
    (\<forall>b. t = Woken b \<longrightarrow> length (m_samples (w_delegates w h)) < 24 + k)"
proof -
  have "stream_inv h (t, k, w)" by (rule stream.inv_reachable [OF assms])
  moreover have "(stream_step h)\<^sup>*\<^sup>* (Waiting b, k, w) (Idle, Suc k, snd (handleBuffer_woken g h b w))" for b
    using stream_step.spurious [of h b k w] stream_step.resume [of g h b w _ _ "Suc k", OF prod.collapse [symmetric]]
    by (meson r_into_rtranclp rtranclp.rtrancl_into_rtrancl)
  moreover have "length (m_samples (w_delegates (snd (handleBuffer_woken g h b w)) h)) =
      Suc (length (m_samples (w_delegates w h)))" if "\<not> m_isSinkFlushOngoing (w_delegates w h)" "sample_created g" for b
    using that by (simp add: handleBuffer_woken_samples)
  ultimately show ?thesis
    using stream_step.pop [of h t k w]
    by (auto simp: Let_def kMaxInternalBuffersQueueSize_def split: stream.splits)
qed

theorem sample_queue_is_bounded_witness:
  "length (m_samples (w_delegates (snd (handleBuffer_woken demo_gst 0 (demo_buffer None []) one_sink)) 0)) \<le> 24"
proof -
  let ?w = "snd (handleBuffer_woken demo_gst 0 (demo_buffer None []) one_sink)"
  have d: "m_samples (w_delegates one_sink 0) = []"
    by (simp add: one_sink_def new_delegate_def demo_sinks_def demo_delegates_def PullModePlaybackDelegate_def)
  then have "stream_step 0 (Idle, 0, one_sink) (Idle, 0, ?w)"
    using stream_step.push [of demo_gst 0 "demo_buffer None []" one_sink _ _ 0]
    by (simp add: handleBuffer_def kMaxInternalBuffersQueueSize_def prod_eq_iff split: prod.splits)
  moreover have "stream_start 0 (Idle, 0, one_sink)" using d by (simp add: stream_start_def)
  ultimately show ?thesis using sample_queue_is_bounded [of 0 Idle 0 one_sink Idle 0 ?w] by auto
qed

section \<open>Flushing\<close>

lemma flush_delegate: "delegates (flush e k r s) h \<in> {delegates s h, lostState e (delegates s h)}"
  by (auto simp: flush_def in_loop_def flush_in_loop_def Let_def edit_sync_def call_def edit_source_def
      set_source_state_def upd_delegate_def split: option.splits prod.splits)

lemma lostState_frame [simp]:
  "m_samples (lostState e d) = m_samples d" "m_isSinkFlushOngoing (lostState e d) = m_isSinkFlushOngoing d"
  "m_isServerFlushOngoing (lostState e d) = m_isServerFlushOngoing d" "m_isTimeResetOngoing (lostState e d) = m_isTimeResetOngoing d"
  "m_mediaPlayerManager (lostState e d) = m_mediaPlayerManager d" "m_isEos (lostState e d) = m_isEos d"
  by (simp_all add: lostState_def upd_sink_def)

lemma stopFlushing_delegate:
  fixes g :: gst_env and r :: bool
  assumes "getMediaPlayerClient h w = Some c"
  defines "d \<equiv> w_delegates (stopFlushing g h r w) h"
  shows "m_samples d = m_samples (w_delegates w h)" "\<not> m_isSinkFlushOngoing d" "m_isServerFlushOngoing d"
    "m_isTimeResetOngoing d" "m_mediaPlayerManager d = m_mediaPlayerManager (w_delegates w h)"
  using assms(1) flush_delegate [of "backend g" "m_sourceId (w_delegates w h)" r
      "player_of c (upd_d h (\<lambda>d. d\<lparr>m_isServerFlushOngoing := True, m_isTimeResetOngoing := True\<rparr>) w)" h]
  by (auto simp: d_def stopFlushing_def flushServer_def Let_def upd_sink_def)

lemma stopFlushing_client:
  assumes "getMediaPlayerClient h w = Some c"
  shows "getMediaPlayerClient h (stopFlushing g h r w) = Some c"
proof -
  have "m_mediaPlayerClientsInfo (stopFlushing g h r w) = m_mediaPlayerClientsInfo w"
    using assms by (simp add: stopFlushing_def flushServer_def Let_def)
  then show ?thesis
    using get_client_cong [of "stopFlushing g h r w" h w] stopFlushing_delegate(5) [OF assms] assms
    by (simp add: the_manager_def)
qed

text \<open>
  C31. A flush at the sink. When FLUSH\_START returns for a sink that was not flushing, its queue is empty,
  its end of stream is forgotten and every buffer is refused with \<open>GST_FLOW_FLUSHING\<close>. After FLUSH\_STOP
  buffers are taken again, but until the server has finished its own flush no sample is handed out and
  the position query fails; then both work again, and the samples come out in the order in which they
  were queued.
\<close>

theorem sink_flush_cycle:
  assumes "startFlushing h w = Returns w1" "\<not> m_isSinkFlushOngoing (w_delegates w h)"
    "getMediaPlayerClient h w = Some c" "sample_created g"
  shows "m_samples (w_delegates w1 h) = [] \<and> \<not> m_isEos (w_delegates w1 h) \<and>
    handleBuffer g h b w1 = Returns (GST_FLOW_FLUSHING, w1) \<and>
    (let w2 = stopFlushing g h r w1; w3 = snd (handleBuffer_woken g h b w2); w4 = upd_d h handleFlushCompleted w3
     in handleBuffer g h b w2 = Returns (GST_FLOW_OK, w3) \<and>
        getFrontSample (w_delegates w3 h) = None \<and> handleQuery g h (QUERY_POSITION fmt) w3 = (Some False, NOT_SET) \<and>
        map_option sample_buffer (getFrontSample (w_delegates w4 h)) = Some b \<and>
        fst (handleQuery g h (QUERY_POSITION GST_FORMAT_TIME) w4) = Some (getPosition (player_of c w4) \<ge> 0))"
proof -
  define w2 where "w2 = stopFlushing g h r w1"
  define w3 where "w3 = snd (handleBuffer_woken g h b w2)"
  define w4 where "w4 = upd_d h handleFlushCompleted w3"
  have w1: "w1 = upd_d h (\<lambda>d. clearBuffersUnlocked (d\<lparr>m_isEos := False, m_isSinkFlushOngoing := True, m_segmentSet := False\<rparr>)) w"
    using assms(1-3) by (auto simp: startFlushing_def startFlushing_unblocked_def split: if_splits)
  have d1: "m_samples (w_delegates w1 h) = []" "\<not> m_isEos (w_delegates w1 h)" "m_isSinkFlushOngoing (w_delegates w1 h)"
    by (simp_all add: w1 clearBuffersUnlocked_def setLastBuffer_def)
  have c1: "getMediaPlayerClient h w1 = Some c"
    using assms(3) by (simp add: w1 keeps_manager_def clearBuffersUnlocked_def setLastBuffer_def)
  have d2: "m_samples (w_delegates w2 h) = []" "\<not> m_isSinkFlushOngoing (w_delegates w2 h)"
    "m_isServerFlushOngoing (w_delegates w2 h)" "m_isTimeResetOngoing (w_delegates w2 h)"
    using stopFlushing_delegate [OF c1, of g r] d1 by (simp_all add: w2_def)
  have c2: "getMediaPlayerClient h w2 = Some c" unfolding w2_def by (rule stopFlushing_client [OF c1])
  have d3: "m_samples (w_delegates w3 h) = [new_sample (w_delegates w2 h) b]"
    "m_isServerFlushOngoing (w_delegates w3 h)" "m_isTimeResetOngoing (w_delegates w3 h)"
    using d2 assms(4) by (simp_all add: w3_def handleBuffer_woken_def setLastBuffer_def)
  have c3: "getMediaPlayerClient h w3 = Some c" using c2 by (simp add: w3_def)
  have c4: "getMediaPlayerClient h w4 = Some c" using c3 by (simp add: w4_def)
  have b: "handleBuffer g h b w1 = Returns (GST_FLOW_FLUSHING, w1)" "handleBuffer g h b w2 = Returns (GST_FLOW_OK, w3)"
    using d1 d2 by (simp_all add: w3_def handleBuffer_def handleBuffer_woken_def kMaxInternalBuffersQueueSize_def)
  have q: "getFrontSample (w_delegates w3 h) = None" "handleQuery g h (QUERY_POSITION fmt) w3 = (Some False, NOT_SET)"
    using d3 c3 by (simp_all add: getFrontSample_def)
  have r: "map_option sample_buffer (getFrontSample (w_delegates w4 h)) = Some b"
    "fst (handleQuery g h (QUERY_POSITION GST_FORMAT_TIME) w4) = Some (getPosition (player_of c w4) \<ge> 0)"
    using d3(1) c4 by (simp_all add: w4_def getFrontSample_def handleFlushCompleted_def new_sample_def Let_def)
  show ?thesis
    unfolding Let_def w2_def [symmetric] w3_def [symmetric] w4_def [symmetric] using d1 b q r by simp
qed

theorem sink_flush_cycle_witness:
  "\<exists>w1. startFlushing 0 paused_sink = Returns w1 \<and> m_samples (w_delegates w1 0) = [] \<and>
     handleBuffer demo_gst 0 (demo_buffer None []) w1 = Returns (GST_FLOW_FLUSHING, w1)"
proof -
  have f: "\<not> m_isSinkFlushOngoing (w_delegates paused_sink 0)"
    by (simp add: paused_sink_value postAsyncStart_def upd_sink_def)
  have "waitIfRequired (m_sourceId (w_delegates paused_sink 0)) (m_flushAndDataSynchronizer (w_clients paused_sink 0))"
    unfolding paused_sink_value
    by (simp add: handleStreamCollection_def in_loop_def used_world_def demo_client_def GStreamerMSEMediaPlayerClient_def
        waitIfRequired_def source_state_def default_state_def)
  then obtain w1 where "startFlushing 0 paused_sink = Returns w1"
    using paused_sink_simps(1) by (simp add: startFlushing_def)
  then show ?thesis
    using sink_flush_cycle [OF _ f paused_sink_simps(1), of w1 demo_gst "demo_buffer None []" False GST_FORMAT_TIME]
    by (simp add: demo_gst_def)
qed

end
