(* ===== verification/Sink_Backend.thy ===== *)
theory Sink_Backend
  imports Sink_Properties
begin

text \<open>
  The record of the calls of a client is refined by the class \<open>MediaPlayerClientBackend\<close>: the calls that
  the model records, played on an object of the class, reach one live media pipeline.
\<close>

section \<open>The calls reach the pipeline\<close>

text \<open>
  C26. The calls of every session reach a live pipeline. In every reachable state of the system, the calls
  that the client of a pipeline has made on its backend can be executed on a new object of the class
  \<open>MediaPlayerClientBackend\<close>, for every behaviour of the media pipeline: none goes through the null pointer
  that the class starts with, the pipeline is created once,
  loaded before everything else, and receives exactly the calls of the client, in their order, with the
  arguments in the order of \<open>IMediaPipeline\<close>; and every further call finds the pipeline.
\<close>

theorem session_reaches_pipeline:
  fixes pipe :: "('p, 'r) pipeline"
  assumes "world_start w0" "sink_step\<^sup>*\<^sup>* w0 w" "find_key (m_mediaPlayerClientsInfo w) p = Some i"
  defines "c \<equiv> w_clients w (mi_client i)"
  shows "m_clientBackend c \<and> m_backendCreated c \<and>
    (\<exists>width height live more. calls c = B_create width height # B_load live # more \<and>
      (\<forall>b \<in> set more. \<not> creates b) \<and>
      (\<forall>create pipeline. create width height = Some pipeline \<longrightarrow>
        (\<exists>b. backend_replay pipe create (calls c) MediaPlayerClientBackend = Some b \<and>
           m_mediaPlayerBackend b = Some (serve pipe
             (P_load MSE '''' ''mse://1'' live # List.map_filter pipeline_view more) pipeline) \<and>
           isMediaPlayerBackendCreated b \<and> (\<forall>call. forward pipe call b \<noteq> None))))"
proof -
  have "info_ok w p i" using reachable_inv(1) [OF assms(1,2)] assms(3) by (auto simp: manager_inv_def infos_ok_def)
  then have up: "m_clientBackend c" "m_backendCreated c" by (simp_all add: info_ok_def client_up_def c_def)
  have "session_calls (calls c)"
    using reachable_inv(2) [OF assms(1,2)] assms(3) by (simp add: all_sessions_def session_ok_def c_def)
  then obtain width height live more
    where cs: "calls c = B_create width height # B_load live # more" "\<forall>b \<in> set more. \<not> creates b"
    by (auto simp: session_calls_def)
  note replay = session_replay [OF cs(2), where pipe = pipe and is_live = live, folded cs(1)]
  show ?thesis
    using up cs replay by (auto simp: isMediaPlayerBackendCreated_def forward_def simp del: backend_replay.simps split: prod.splits)
qed

text \<open>A pipeline that records its calls.\<close>

definition recording_pipeline :: "(pipeline_call list, unit) pipeline" where
  "recording_pipeline c served = ((), served @ [c])"

theorem session_reaches_pipeline_witness:
  "map_option m_mediaPlayerBackend
     (backend_replay recording_pipeline (\<lambda>_ _. Some []) (calls (w_clients paused_sink 0)) MediaPlayerClientBackend) =
   Some (Some [P_load MSE '''' ''mse://1'' False])"
proof -
  from session_reaches_pipeline [OF empty_world_start one_sink_steps(1) paused_sink_simps(3), of recording_pipeline]
  have "\<forall>create pipeline. create 3840 2160 = Some pipeline \<longrightarrow>
      (\<exists>b. backend_replay recording_pipeline create (calls (w_clients paused_sink 0)) MediaPlayerClientBackend = Some b \<and>
         m_mediaPlayerBackend b = Some (serve recording_pipeline [P_load MSE '''' ''mse://1'' False] pipeline))"
    by (auto simp: paused_sink_simps(4) List.map_filter_def simp del: backend_replay.simps serve_Cons) blast
  from this [rule_format, of "\<lambda>_ _. Some []" "[]"] show ?thesis
    by (auto simp: recording_pipeline_def serve_def simp del: backend_replay.simps)
qed

end
