(* ===== verification/Client_Requests.thy ===== *)
theory Client_Requests
  imports Client_Data Client_Frame
begin

text \<open>
  The requests for data. The server numbers its requests; a request travels as a \<open>NeedDataMessage\<close>
  through the event loop into the queue of a puller and its answer as a \<open>HaveDataMessage\<close> back to the
  server. \<open>traffic\<close> is where a request is: the calls made for it, the messages about it and the
  pullers that still hold it. No operation multiplies a request.
\<close>

section \<open>Where a request is\<close>

text \<open>The calls made for the request: a segment is \<open>False\<close>, the answer \<open>True\<close>.\<close>

fun data_calls :: "u32 \<Rightarrow> backend_call list \<Rightarrow> bool list" where
  "data_calls i [] = []"
| "data_calls i (B_addSegment j seg st # cs) = (if j = i then [False] else []) @ data_calls i cs"
| "data_calls i (B_haveData st j # cs) = (if j = i then [True] else []) @ data_calls i cs"
| "data_calls i (_ # cs) = data_calls i cs"

fun about :: "u32 \<Rightarrow> client_message \<Rightarrow> bool" where
  "about i (NeedDataMessage k n j) = (j = i)"
| "about i (HaveDataMessage st k j) = (j = i)"
| "about i _ = False"

definition held :: "u32 \<Rightarrow> PullBufferMessage list \<Rightarrow> nat" where
  "held i msgs = length (filter (\<lambda>m. pb_needDataRequestId m = i) msgs)"

definition held_by :: "u32 \<Rightarrow> (int \<times> AttachedSource) list \<Rightarrow> nat" where
  "held_by i srcs = (\<Sum>(k, a) \<leftarrow> srcs. held i (p_queue (m_bufferPuller a)))"

definition queued :: "u32 \<Rightarrow> client_message list \<Rightarrow> nat" where
  "queued i q = length (filter (about i) q)"

definition traffic :: "u32 \<Rightarrow> player \<Rightarrow> bool list \<times> nat \<times> nat" where
  "traffic i s = (data_calls i (calls s), queued i (queueMessages s), held_by i (m_attachedSources s))"

lemma data_calls_append [simp]: "data_calls i (xs @ ys) = data_calls i xs @ data_calls i ys"
  by (induction xs rule: data_calls.induct [of _ i]) simp_all

lemma held_simps [simp]:
  "held i [] = 0" "held i (m # ms) = (if pb_needDataRequestId m = i then 1 else 0) + held i ms"
  "held i (xs @ ys) = held i xs + held i ys"
  by (simp_all add: held_def)

lemma held_by_simps [simp]:
  "held_by i [] = 0" "held_by i ((k, a) # xs) = held i (p_queue (m_bufferPuller a)) + held_by i xs"
  "held_by i (xs @ ys) = held_by i xs + held_by i ys"
  by (simp_all add: held_by_def)

lemma queued_simps [simp]:
  "queued i [] = 0" "queued i (m # ms) = (if about i m then 1 else 0) + queued i ms"
  "queued i (xs @ ys) = queued i xs + queued i ys"
  by (simp_all add: queued_def)

lemma held_by_edit [simp]:
  "(\<And>a. p_queue (m_bufferPuller (g a)) = p_queue (m_bufferPuller a)) \<Longrightarrow>
   held_by i (edit_key k g xs) = held_by i xs"
  by (induction xs) auto

lemma held_by_map [simp]:
  "(\<And>a. p_queue (m_bufferPuller (g a)) = p_queue (m_bufferPuller a)) \<Longrightarrow>
   held_by i (map (\<lambda>(k, a). (k, g a)) xs) = held_by i xs"
  by (induction xs) auto

text \<open>Changing the queue of one puller, and erasing it.\<close>

lemma held_by_change:
  "find_key xs k = Some a \<Longrightarrow>
   held_by i (edit_key k g xs) + held i (p_queue (m_bufferPuller a)) =
   held_by i xs + held i (p_queue (m_bufferPuller (g a)))"
  by (induction xs) (auto split: if_splits)

lemma held_by_erase: "held_by i (erase_key k xs) \<le> held_by i xs"
  by (induction xs) auto

lemma held_by_erase_source:
  "find_key xs k = Some a \<Longrightarrow> held_by i (erase_key k xs) + held i (p_queue (m_bufferPuller a)) \<le> held_by i xs"
  by (induction xs) (auto split: if_splits simp: held_by_erase intro: add_mono)

section \<open>Operations that have nothing to do with data\<close>

fun data_call :: "backend_call \<Rightarrow> bool" where
  "data_call (B_addSegment j seg st) = True"
| "data_call (B_haveData st j) = True"
| "data_call _ = False"

fun data_message :: "client_message \<Rightarrow> bool" where
  "data_message (NeedDataMessage k n j) = True"
| "data_message (HaveDataMessage st k j) = True"
| "data_message _ = False"

lemma data_calls_other [simp]: "\<not> data_call b \<Longrightarrow> data_calls i [b] = []"
  by (cases b) simp_all

lemma about_other [simp]: "\<not> data_message m \<Longrightarrow> \<not> about i m"
  by (cases m) simp_all

lemma traffic_primitives [simp]:
  "\<not> data_call b \<Longrightarrow> traffic i (call b s) = traffic i s"
  "\<not> data_message m \<Longrightarrow> traffic i (post m s) = traffic i s"
  "traffic i (upd_delegate h f s) = traffic i s" "traffic i (edit_sync v s) = traffic i s"
  "(\<And>a. p_queue (m_bufferPuller (g a)) = p_queue (m_bufferPuller a)) \<Longrightarrow>
     traffic i (edit_source k g s) = traffic i s"
  "traffic i (set_source_state k st s) = traffic i s"
  by (simp_all add: traffic_def post_def set_source_state_def)

lemma traffic_updates [simp]:
  "traffic i (s\<lparr>m_clientState := c\<rparr>) = traffic i s" "traffic i (s\<lparr>m_serverPlaybackState := p\<rparr>) = traffic i s"
  "traffic i (s\<lparr>wasPlayingBeforeEos := b\<rparr>) = traffic i s" "traffic i (s\<lparr>m_duration := d\<rparr>) = traffic i s"
  "traffic i (s\<lparr>m_playbackInfo := info\<rparr>) = traffic i s" "traffic i (s\<lparr>m_videoRectangle := r\<rparr>) = traffic i s"
  "traffic i (s\<lparr>m_wasAllSourcesAttachedSent := b\<rparr>) = traffic i s"
  "traffic i (s\<lparr>m_audioStreams := n\<rparr>) = traffic i s" "traffic i (s\<lparr>m_videoStreams := n\<rparr>) = traffic i s"
  "traffic i (s\<lparr>m_subtitleStreams := n\<rparr>) = traffic i s" "traffic i (s\<lparr>m_backendCreated := b\<rparr>) = traffic i s"
  "traffic i (s\<lparr>queueAccepting := b\<rparr>) = traffic i s" "traffic i (s\<lparr>queueRunning := b\<rparr>) = traffic i s"
  "traffic i (s\<lparr>m_streamingStopped := b\<rparr>) = traffic i s"
  by (simp_all add: traffic_def)

lemma traffic_sources_changed [simp]:
  "held_by i xs = held_by i (m_attachedSources s) \<Longrightarrow>
   traffic i (s\<lparr>m_attachedSources := xs\<rparr>) = traffic i s"
  by (simp add: traffic_def)

lemma traffic_for_delegates [simp]: "traffic i (for_delegates f s) = traffic i s"
  by (rule for_delegates_cases) simp_all

lemma traffic_play_pause [simp]:
  "traffic i (snd (play_in_loop e k s)) = traffic i s" "traffic i (snd (pause_in_loop k s)) = traffic i s"
  by (simp_all add: play_in_loop_def pause_in_loop_def Let_def split: option.splits)

lemma traffic_notify_sources [simp]: "traffic i (notify_sources e st ks s) = traffic i s"
  by (induction ks arbitrary: s) (simp_all add: Let_def handleStateChanged_def split: option.splits)

lemma traffic_state_change [simp]: "traffic i (handlePlaybackStateChange e st s) = traffic i s"
  by (simp add: handlePlaybackStateChange_def Let_def)

lemma traffic_sources [simp]:
  "traffic i (sendAllSourcesAttachedIfPossibleInternal s) = traffic i s"
  "traffic i (snd (attachSource_in_loop e src h s)) = traffic i s"
  "traffic i (flush_in_loop e k r s) = traffic i s" "traffic i (handleSourceFlushed k s) = traffic i s"
  by (simp_all add: sendAllSourcesAttachedIfPossibleInternal_def attachSource_in_loop_def
      flush_in_loop_def handleSourceFlushed_def Let_def new_source_def split: option.splits prod.splits)

lemma traffic_events [simp]:
  "traffic i (snd (client_handleQos k a b s)) = traffic i s"
  "traffic i (snd (handleBufferUnderflow k s)) = traffic i s"
  "traffic i (snd (handleFirstFrameReceived k s)) = traffic i s"
  "traffic i (snd (handlePlaybackError e k err s)) = traffic i s"
  by (simp_all add: client_handleQos_def handleBufferUnderflow_def handleFirstFrameReceived_def
      handlePlaybackError_def split: option.splits)

lemma traffic_playback [simp]: "traffic i (playback_exec op s) = traffic i s"
  by (cases op) (simp_all add: client_op_defs in_loop_def Let_def split: option.splits)

lemma traffic_property [simp]: "traffic i (property_exec op s) = traffic i s"
  by (cases op) (simp_all add: client_op_defs in_loop_def split: option.splits)

section \<open>Operations that move a request\<close>

text \<open>
  At most \<open>n\<close> requests with the id \<open>i\<close> were made; \<open>c\<close> of them are neither answered nor in the event
  loop. If there was only one, no segment follows its answer; if there was none, nothing was called
  for it.
\<close>

definition at_most :: "nat \<Rightarrow> nat \<Rightarrow> u32 \<Rightarrow> player \<Rightarrow> bool" where
  "at_most n c i s \<longleftrightarrow>
     count_list (data_calls i (calls s)) True + queued i (queueMessages s) + c \<le> n \<and>
     (n \<le> 1 \<longrightarrow> True \<notin> set (butlast (data_calls i (calls s)))) \<and>
     (n = 0 \<longrightarrow> data_calls i (calls s) = [])"

text \<open>The pullers hold some of them, and \<open>c\<close> are in the hands of the operation that runs.\<close>

definition requests_inv :: "nat \<Rightarrow> nat \<Rightarrow> u32 \<Rightarrow> player \<Rightarrow> bool" where
  "requests_inv n c i s \<longleftrightarrow> at_most n (held_by i (m_attachedSources s) + c) i s"

lemma at_most_mono: "at_most n c i s \<Longrightarrow> d \<le> c \<Longrightarrow> at_most n d i s"
  by (auto simp: at_most_def)

lemma at_most_cong: "traffic i t = traffic i s \<Longrightarrow> at_most n c i t = at_most n c i s"
  by (simp add: at_most_def traffic_def)

lemma at_most_frame [simp]:
  "at_most n c i (upd_delegate h f s) = at_most n c i s" "at_most n c i (edit_sync v s) = at_most n c i s"
  "at_most n c i (s\<lparr>m_attachedSources := xs\<rparr>) = at_most n c i s"
  "at_most n c i (edit_source k g s) = at_most n c i s"
  by (simp_all add: at_most_def traffic_def)

lemma requests_traffic: "requests_inv n c i s \<longleftrightarrow> (case traffic i s of (cs, q, p) \<Rightarrow>
    count_list cs True + q + (p + c) \<le> n \<and> (n \<le> 1 \<longrightarrow> True \<notin> set (butlast cs)) \<and> (n = 0 \<longrightarrow> cs = []))"
  by (simp add: requests_inv_def at_most_def traffic_def)

lemma at_most_add_segment:
  assumes "at_most n c i s" "j = i \<Longrightarrow> 0 < c"
  shows "at_most n c i (call (B_addSegment j seg st) s)"
proof -
  have "True \<notin> set (data_calls i (calls s))" if "j = i" "n \<le> 1"
    using assms that by (auto simp: at_most_def traffic_def count_list_0_iff [symmetric])
  with assms show ?thesis by (auto simp: at_most_def traffic_def dest: in_set_butlastD)
qed

lemma at_most_answer:
  assumes "at_most n (if j = i then Suc c else c) i s"
  shows "at_most n c i (call (B_haveData st j) s)"
proof -
  have "True \<notin> set (data_calls i (calls s))" if "j = i" "n \<le> 1"
    using assms that by (auto simp: at_most_def traffic_def count_list_0_iff [symmetric])
  with assms show ?thesis by (auto simp: at_most_def traffic_def dest: in_set_butlastD split: if_splits)
qed

lemma at_most_post: "at_most n (if about i m then Suc c else c) i s \<Longrightarrow> at_most n c i (post m s)"
  by (auto simp: at_most_def traffic_def post_def split: if_splits)

subsection \<open>The pullers\<close>

lemma at_most_pull_loop:
  "pull_loop e parser msg h n k added s = Some (r, a, t) \<Longrightarrow> at_most m (held i [msg] + c) i s \<Longrightarrow>
   at_most m (held i [msg] + c) i t"
proof (induction e parser msg h n k added s rule: pull_loop.induct)
  case (2 e parser msg h n k added s)
  have "at_most m (held i [msg] + c) i (call (B_addSegment (pb_needDataRequestId msg) seg st) s)" for seg st
    by (rule at_most_add_segment [OF "2.prems"(2)]) simp
  with 2 show ?case
    by (auto simp: Let_def simp del: held_simps split: if_splits option.splits sum.splits)
qed simp

lemma at_most_pull:
  assumes "handle_PullBufferMessage e parser h msg s = Some t" "at_most m (held i [msg] + c) i s"
  shows "at_most m c i t"
  using assms at_most_pull_loop [OF _ assms(2)]
  by (auto simp: handle_PullBufferMessage_def Let_def intro!: at_most_post split: option.splits if_splits)

lemma at_most_drain_puller:
  "at_most n (held i msgs + c) i s \<Longrightarrow> at_most n c i (drain_puller e parser h msgs s)"
proof (induction msgs arbitrary: s)
  case (Cons msg msgs)
  then have "at_most n (held i [msg] + (held i msgs + c)) i s" by (simp add: add_ac)
  with Cons show ?case by (auto split: option.splits dest: at_most_pull intro: at_most_mono)
qed simp

lemma pull_sources:
  "handle_PullBufferMessage e parser h msg s = Some t \<Longrightarrow> m_attachedSources t = m_attachedSources s"
  "m_attachedSources (drain_puller e parser h msgs s) = m_attachedSources s"
proof -
  have *: "pull_prop (\<lambda>t. m_attachedSources t = m_attachedSources s) (\<lambda>_. True)"
    by unfold_locales simp_all
  show "handle_PullBufferMessage e parser h msg s = Some t \<Longrightarrow> m_attachedSources t = m_attachedSources s"
    by (rule pull_prop.p_pull [OF *]) simp_all
  show "m_attachedSources (drain_puller e parser h msgs s) = m_attachedSources s"
    by (rule pull_prop.p_drain_puller [OF *]) simp
qed

lemma requests_puller_step:
  assumes "requests_inv n c i s"
  shows "requests_inv n c i (puller_step e k s)"
proof (cases "\<exists>src msg rest. find_key (m_attachedSources s) k = Some src \<and> p_queue (m_bufferPuller src) = msg # rest")
  case True
  then obtain src msg rest where src: "find_key (m_attachedSources s) k = Some src"
    and q: "p_queue (m_bufferPuller src) = msg # rest" by blast
  let ?t = "edit_source k (\<lambda>a. a\<lparr>m_bufferPuller := (m_bufferPuller a)\<lparr>p_queue := rest\<rparr>\<rparr>) s"
  have "held_by i (m_attachedSources ?t) + held i [msg] = held_by i (m_attachedSources s)"
    using held_by_change [OF src, of i "\<lambda>a. a\<lparr>m_bufferPuller := (m_bufferPuller a)\<lparr>p_queue := rest\<rparr>\<rparr>"] q by simp
  with assms have t: "at_most n (held i [msg] + (held_by i (m_attachedSources ?t) + c)) i ?t"
    by (simp add: requests_inv_def add_ac del: held_simps)
  show ?thesis
  proof (cases "handle_PullBufferMessage e (p_parser (m_bufferPuller src)) (m_delegate src) msg ?t")
    case None
    with t src q show ?thesis by (auto simp: puller_step_def requests_inv_def Let_def intro: at_most_mono)
  next
    case (Some u)
    with at_most_pull [OF Some t] pull_sources(1) [OF Some] src q show ?thesis
      by (simp add: puller_step_def requests_inv_def Let_def)
  qed
qed (use assms in \<open>auto simp: puller_step_def split: option.splits list.splits\<close>)

lemma requests_stop_puller:
  assumes "requests_inv n c i s"
  shows "requests_inv n c i (stop_puller e k s)"
proof (cases "find_key (m_attachedSources s) k")
  case (Some src)
  let ?g = "\<lambda>a. a\<lparr>m_bufferPuller := (m_bufferPuller a)\<lparr>p_running := False, p_queue := []\<rparr>\<rparr>"
  have "held_by i (edit_key k ?g (m_attachedSources s)) + held i (p_queue (m_bufferPuller src)) =
      held_by i (m_attachedSources s)"
    using held_by_change [OF Some, of i ?g] by simp
  with assms have "at_most n (held i (p_queue (m_bufferPuller src)) +
      (held_by i (edit_key k ?g (m_attachedSources s)) + c)) i s"
    by (simp add: requests_inv_def add_ac)
  from at_most_drain_puller [OF this] Some show ?thesis
    by (simp add: stop_puller_def requests_inv_def pull_sources)
qed (use assms in \<open>simp add: stop_puller_def\<close>)

lemma requests_stop_pullers: "requests_inv n c i s \<Longrightarrow> requests_inv n c i (fold (stop_puller e) ks s)"
  by (induction ks arbitrary: s) (simp_all add: requests_stop_puller)

lemma requests_removeSource:
  assumes "requests_inv n c i s"
  shows "requests_inv n c i (removeSource_in_loop e k s)"
proof -
  have s: "at_most n (held_by i (m_attachedSources s) + c) i (call (B_removeSource k) s)"
    using assms at_most_cong [of i "call (B_removeSource k) s" s] by (simp add: requests_inv_def)
  show ?thesis
  proof (cases "find_key (m_attachedSources s) k")
    case None
    with s held_by_erase [of i k "m_attachedSources s"] show ?thesis
      by (auto simp: removeSource_in_loop_def requests_inv_def Let_def intro: at_most_mono)
  next
    case (Some src)
    let ?q = "p_queue (m_bufferPuller src)"
    have "held i ?q + (held_by i (erase_key k (m_attachedSources s)) + c) \<le> held_by i (m_attachedSources s) + c"
      using held_by_erase_source [OF Some, of i] by simp
    from at_most_drain_puller [OF at_most_mono [OF s this]] Some show ?thesis
      by (simp add: removeSource_in_loop_def requests_inv_def Let_def pull_sources)
  qed
qed

subsection \<open>The event loop\<close>

lemma requests_need_data:
  assumes "requests_inv n (if j = i then Suc c else c) i s"
  shows "requests_inv n c i (handle_message e (NeedDataMessage k m j) s)"
proof (cases "find_key (m_attachedSources s) k")
  case None
  with assms show ?thesis
    by (auto simp: requests_inv_def requestPullBuffer_def intro!: at_most_post split: if_splits)
next
  case (Some src)
  let ?msg = "\<lparr>pb_sourceId = k, pb_frameCount = m, pb_needDataRequestId = j\<rparr>"
  obtain ok p where p: "BufferPuller_requestPullBuffer ?msg (m_bufferPuller src) = (ok, p)" by fastforce
  have "held_by i (edit_key k (\<lambda>a. a\<lparr>m_bufferPuller := p\<rparr>) (m_attachedSources s)) =
      held_by i (m_attachedSources s) + (if ok \<and> j = i then 1 else 0)"
    using held_by_change [OF Some, of i "\<lambda>a. a\<lparr>m_bufferPuller := p\<rparr>"] p
    by (auto simp: BufferPuller_requestPullBuffer_def split: if_splits)
  with assms Some p show ?thesis
    by (cases ok) (auto simp: requests_inv_def requestPullBuffer_def intro!: at_most_post split: if_splits)
qed

lemma requests_handle_message:
  assumes "requests_inv n (if about i m then Suc c else c) i s"
  shows "requests_inv n c i (handle_message e m s)"
proof (cases m)
  case (NeedDataMessage k l j)
  with assms show ?thesis by (auto intro!: requests_need_data simp del: handle_message.simps split: if_splits)
next
  case (HaveDataMessage st k j)
  with assms show ?thesis
    by (auto simp: requests_inv_def intro: at_most_mono intro!: at_most_answer split: if_splits)
qed (use assms in \<open>simp_all add: requests_traffic\<close>)

lemma requests_drain_messages:
  "requests_inv n (queued i ms + c) i s \<Longrightarrow> requests_inv n c i (drain_messages e ms s)"
proof (induction ms arbitrary: s)
  case (Cons m ms)
  have "requests_inv n (queued i ms + c) i (handle_message e m s)"
    by (rule requests_handle_message) (use Cons.prems in \<open>auto split: if_splits\<close>)
  then show ?case by (simp add: Cons.IH)
qed simp

lemma requests_take:
  "requests_inv n c i s \<Longrightarrow> queueMessages s = ms @ rest \<Longrightarrow>
   requests_inv n (queued i ms + c) i (s\<lparr>queueMessages := rest\<rparr>)"
  by (auto simp: requests_inv_def at_most_def traffic_def)

lemma requests_loop_round: "requests_inv n c i s \<Longrightarrow> requests_inv n c i (loop_round e s)"
  by (cases "queueMessages s") (auto simp: loop_round_def intro!: requests_handle_message
      dest: requests_take [of _ _ _ _ "[_]"] split: if_splits)

lemma requests_life [simp]:
  "requests_inv n c i (s\<lparr>queueRunning := b\<rparr>) = requests_inv n c i s"
  "requests_inv n c i (s\<lparr>m_streamingStopped := b\<rparr>) = requests_inv n c i s"
  by (simp_all add: requests_traffic)

lemma requests_stopStreaming:
  assumes "requests_inv n c i s"
  shows "requests_inv n c i (stopStreaming e s)"
proof -
  have "requests_inv n (queued i (queueMessages s) + c) i (s\<lparr>queueMessages := []\<rparr>)"
    by (rule requests_take [OF assms]) simp
  then have "requests_inv n (queued i (queueMessages s) + c) i (s\<lparr>queueAccepting := False, queueMessages := []\<rparr>)"
    by (simp add: requests_inv_def at_most_def)
  from requests_drain_messages [OF this] assms show ?thesis
    by (simp add: stopStreaming_def Let_def requests_stop_pullers)
qed

section \<open>Sequences of operations\<close>

fun asks :: "u32 \<Rightarrow> client_op \<Rightarrow> bool" where
  "asks i (Notify (O_notifyNeedMediaData k n j)) = (j = i)"
| "asks i _ = False"

lemma requests_more: "requests_inv n c i s \<Longrightarrow> n \<le> m \<Longrightarrow> requests_inv m c i s"
  by (auto simp: requests_inv_def at_most_def)

lemma requests_ask:
  "requests_inv n c i s \<Longrightarrow> requests_inv (if j = i then Suc n else n) c i (notifyNeedMediaData k m j s)"
  by (auto simp: requests_inv_def at_most_def notifyNeedMediaData_def post_def)

lemma requests_exec:
  assumes "requests_inv n c i s"
  shows "requests_inv (if asks i op then Suc n else n) c i (client_exec op s)"
proof (cases op)
  case (Sources p)
  with assms show ?thesis
    by (cases p) (simp_all add: client_op_defs in_loop_def requests_removeSource, simp_all add: requests_traffic)
next
  case (Notify p)
  with assms show ?thesis
    by (cases p) (simp_all add: client_op_defs requests_ask [unfolded client_op_defs], simp_all add: requests_traffic)
next
  case (Thread p)
  with assms show ?thesis
    by (cases p) (simp_all add: requests_loop_round requests_puller_step requests_stopStreaming,
        simp_all add: requests_traffic)
qed (use assms in \<open>simp_all add: requests_traffic\<close>)

lemma requests_run:
  "requests_inv n 0 i s \<Longrightarrow> requests_inv (n + length (filter (asks i) ops)) 0 i (fold client_exec ops s)"
proof (induction ops arbitrary: n s)
  case (Cons op ops)
  from Cons.IH [OF requests_exec [OF Cons.prems, of op]] show ?case by (simp split: if_splits)
qed simp

lemma requests_start: "client_start s \<Longrightarrow> requests_inv 0 0 i s"
  by (auto simp: client_start_def client.defs GStreamerMSEMediaPlayerClient_def requests_inv_def at_most_def)

lemma no_answer_before: "True \<notin> set (butlast cs) \<Longrightarrow> \<exists>m. cs = replicate m False \<or> cs = replicate m False @ [True]"
proof (cases cs rule: rev_cases)
  case (snoc xs x)
  assume "True \<notin> set (butlast cs)"
  then have "xs = replicate (length xs) False" using snoc by (intro replicate_eqI) auto
  then obtain m where "xs = replicate m False" by blast
  with snoc have "cs = (if x then replicate m False @ [True] else replicate (Suc m) False)"
    by (simp add: replicate_append_same)
  then show ?thesis by metis
qed (metis replicate_0)

text \<open>
  The server gets what it asked for and no more. Over any sequence of method calls, notifications
  and rounds of the worker threads, however they are ordered: a request is answered at most as often
  as the server made it, no call for data is made for a request that was not made, and for a request
  that was made once the server sees its segments first and the answer, if any, last.
\<close>

theorem requests_are_answered_once:
  fixes ops :: "client_op list" and i :: u32
  defines "requests \<equiv> length (filter (asks i) ops)"
  assumes "client_start s"
  shows "count_list (data_calls i (calls (fold client_exec ops s))) True \<le> requests \<and>
    (requests = 0 \<longrightarrow> data_calls i (calls (fold client_exec ops s)) = []) \<and>
    (requests = 1 \<longrightarrow> (\<exists>m. data_calls i (calls (fold client_exec ops s)) = replicate m False \<or>
                          data_calls i (calls (fold client_exec ops s)) = replicate m False @ [True]))"
  using requests_run [OF requests_start [OF assms(2), of i], of ops] no_answer_before
  by (simp add: requests_def requests_inv_def at_most_def)

text \<open>A source is attached, and the server asks for data once.\<close>

definition request_ops :: "client_op list" where
  "request_ops = demo_ops @ [Notify (O_notifyNeedMediaData 1 5 9), Thread (O_loop_round good_env),
     Thread (O_puller_step good_env 1), Thread (O_loop_round good_env)]"

theorem requests_are_answered_once_witness:
  "count_list (data_calls 9 (calls (fold client_exec request_ops demo_initial))) True \<le> 1 \<and>
   data_calls 8 (calls (fold client_exec request_ops demo_initial)) = []"
  using requests_are_answered_once [OF demo_initial_start, of 9 request_ops]
    requests_are_answered_once [OF demo_initial_start, of 8 request_ops]
  by (simp add: request_ops_def demo_ops_def)

end
