(* ===== verification/Client_Answers.thy ===== *)
theory Client_Answers
  imports Client_Requests
begin

text \<open>
  A request for data is never lost: while its source stays attached and streaming is not stopped, every
  interleaving of operations leaves a state from which the worker threads answer it.
\<close>

section \<open>Progress of a request\<close>

text \<open>
  \<open>onward k s t\<close>: on the way from \<open>s\<close> to \<open>t\<close> nothing was taken from the queue of the event loop or from
  the puller of the source \<open>k\<close>, samples only left the delegates and calls were only added.
\<close>

definition onward :: "int \<Rightarrow> player \<Rightarrow> player \<Rightarrow> bool" where
  "onward k s t \<longleftrightarrow>
     queueRunning t = queueRunning s \<and> queueAccepting t = queueAccepting s \<and>
     (distinct (keys (m_attachedSources s)) \<longrightarrow> distinct (keys (m_attachedSources t))) \<and>
     (\<exists>cs. calls t = calls s @ cs) \<and> (\<exists>ys. queueMessages t = queueMessages s @ ys) \<and>
     (\<forall>h. \<exists>m. m_samples (delegates t h) = drop m (m_samples (delegates s h))) \<and>
     (\<forall>a. find_key (m_attachedSources s) k = Some a \<longrightarrow>
        (\<exists>b zs. find_key (m_attachedSources t) k = Some b \<and> m_delegate b = m_delegate a \<and>
           p_running (m_bufferPuller b) = p_running (m_bufferPuller a) \<and>
           p_parser (m_bufferPuller b) = p_parser (m_bufferPuller a) \<and>
           p_queue (m_bufferPuller b) = p_queue (m_bufferPuller a) @ zs))"

definition drops_samples :: "(delegate \<Rightarrow> delegate) \<Rightarrow> bool" where
  "drops_samples f \<longleftrightarrow> (\<forall>d. \<exists>m. m_samples (f d) = drop m (m_samples d))"

lemma onward_refl [simp]: "onward k s s"
  by (auto simp: onward_def intro: exI [of _ 0])

lemma onward_trans:
  assumes "onward k s t" "onward k t u"
  shows "onward k s u"
proof -
  have "\<exists>m. m_samples (delegates u h) = drop m (m_samples (delegates s h))" for h
    using assms by (metis drop_drop onward_def)
  with assms show ?thesis unfolding onward_def by (elim conjE exE) fastforce
qed

text \<open>Primitive changes.\<close>

lemma onward_same:
  assumes "queueRunning t = queueRunning s" "queueAccepting t = queueAccepting s"
    "calls t = calls s"
    "m_attachedSources t = m_attachedSources s" "queueMessages t = queueMessages s" "delegates t = delegates s"
  shows "onward k s t"
  using assms by (auto simp: onward_def intro: exI [of _ 0])

lemma onward_primitives:
  "onward k s (call b s)" "onward k s (post m s)" "onward k s (edit_sync v s)"
  by (auto simp: onward_def post_def intro: exI [of _ 0])

lemma onward_upd_delegate:
  "drops_samples f \<Longrightarrow> onward k s (upd_delegate h f s)"
  by (auto simp: onward_def drops_samples_def upd_delegate_def intro: exI [of _ 0])

definition keeps_puller :: "(AttachedSource \<Rightarrow> AttachedSource) \<Rightarrow> bool" where
  "keeps_puller g \<longleftrightarrow> (\<forall>a. m_delegate (g a) = m_delegate a \<and> m_bufferPuller (g a) = m_bufferPuller a)"

lemma keeps_puller_updates [simp]:
  "keeps_puller (\<lambda>a. a\<lparr>m_state := st\<rparr>)" "keeps_puller (\<lambda>a. a\<lparr>m_isFlushing := b\<rparr>)"
  "keeps_puller (\<lambda>a. a\<lparr>m_position := p\<rparr>)"
  by (simp_all add: keeps_puller_def)

lemma onward_edit_source: "keeps_puller g \<Longrightarrow> onward k s (edit_source j g s)"
  by (auto simp: onward_def keeps_puller_def edit_source_def intro: exI [of _ 0])

lemma onward_map_sources:
  "keeps_puller g \<Longrightarrow> onward k s (s\<lparr>m_attachedSources := map (\<lambda>(j, a). (j, g a)) (m_attachedSources s)\<rparr>)"
  by (auto simp: onward_def keeps_puller_def simp del: map_map intro: exI [of _ 0])

lemma drops_samples_methods [simp]:
  "drops_samples popSample" "drops_samples (\<lambda>d. upd_sink (u d) d)" "drops_samples (upd_sink v)"
  "drops_samples postAsyncStart" "drops_samples postAsyncDone" "drops_samples commitState"
  "drops_samples (lostState e)" "drops_samples handleFlushCompleted" "drops_samples handleEos"
  "drops_samples (handleError m c)" "drops_samples (handleQos a b)" "drops_samples (setSourceId j)"
  by (auto simp: drops_samples_def popSample_def upd_sink_def postAsyncStart_def postAsyncDone_def
      commitState_def lostState_def handleFlushCompleted_def handleEos_def handleError_def handleQos_def
      setSourceId_def Let_def intro: exI [of _ 0] exI [of _ 1] split: list.splits)

lemma onward_then [simp]:
  assumes "onward k s t"
  shows "onward k s (call b t)" "onward k s (post m t)" "onward k s (edit_sync v t)"
    "drops_samples f \<Longrightarrow> onward k s (upd_delegate h f t)" "keeps_puller g \<Longrightarrow> onward k s (edit_source j g t)"
    "onward k s (set_source_state j st t)"
    "onward k s (t\<lparr>m_clientState := c\<rparr>)" "onward k s (t\<lparr>m_serverPlaybackState := ps\<rparr>)"
    "onward k s (t\<lparr>wasPlayingBeforeEos := bb\<rparr>)" "onward k s (t\<lparr>m_duration := d\<rparr>)"
    "onward k s (t\<lparr>m_playbackInfo := info\<rparr>)"
    "keeps_puller g \<Longrightarrow> xs = m_attachedSources t \<Longrightarrow>
       onward k s (t\<lparr>m_attachedSources := map (\<lambda>(j, a). (j, g a)) xs\<rparr>)"
    "onward k s (t\<lparr>m_backendCreated := bb\<rparr>)" "onward k s (t\<lparr>m_videoRectangle := r\<rparr>)"
    "onward k s (t\<lparr>m_wasAllSourcesAttachedSent := bb\<rparr>)" "onward k s (t\<lparr>m_audioStreams := n\<rparr>)"
    "onward k s (t\<lparr>m_videoStreams := n\<rparr>)" "onward k s (t\<lparr>m_subtitleStreams := n\<rparr>)"
  by (rule onward_trans [OF assms],
      simp add: onward_primitives onward_upd_delegate onward_edit_source onward_map_sources
        set_source_state_def onward_same)+

lemma onward_for_delegates [simp]: "drops_samples f \<Longrightarrow> onward k s t \<Longrightarrow> onward k s (for_delegates f t)"
  by (rule for_delegates_cases) simp_all

interpretation onward_pull: pull_prop "onward k s" drops_samples for k s
  by unfold_locales simp_all

text \<open>The handlers of messages.\<close>

lemma onward_play_pause [simp]:
  "onward k s t \<Longrightarrow> onward k s (snd (play_in_loop e j t))" "onward k s t \<Longrightarrow> onward k s (snd (pause_in_loop j t))"
  by (simp_all add: play_in_loop_def pause_in_loop_def Let_def split: option.splits)

lemma onward_notify_sources [simp]: "onward k s t \<Longrightarrow> onward k s (notify_sources e st js t)"
  by (induction js arbitrary: t) (simp_all add: Let_def handleStateChanged_def split: option.splits)

lemma onward_state_change [simp]: "onward k s t \<Longrightarrow> onward k s (handlePlaybackStateChange e st t)"
  by (simp add: handlePlaybackStateChange_def Let_def)

lemma onward_requestPullBuffer: "onward k s (snd (requestPullBuffer j n i s))"
  by (auto simp: requestPullBuffer_def BufferPuller_requestPullBuffer_def onward_def edit_source_def
      intro: exI [of _ 0] split: option.splits)

lemma onward_handle_message: "onward k s (handle_message e m s)"
proof (cases m)
  case (NeedDataMessage j n i)
  show ?thesis
    unfolding NeedDataMessage
    by (rule need_data_cases [where P = "onward k s"]) (simp_all add: onward_requestPullBuffer)
qed (simp_all add: client_handleQos_def handleBufferUnderflow_def
    handleFirstFrameReceived_def handlePlaybackError_def handleSourceFlushed_def split: option.splits)

text \<open>The methods. Only the end of the source or of the session disturbs its requests.\<close>

fun disturbs :: "int \<Rightarrow> client_op \<Rightarrow> bool" where
  "disturbs k (Sources (O_removeSource e j)) = (j = k)"
| "disturbs k (Thread op) = True"
| "disturbs k op = False"

lemma onward_send_all [simp]: "onward k s t \<Longrightarrow> onward k s (sendAllSourcesAttachedIfPossibleInternal t)"
  by (simp add: sendAllSourcesAttachedIfPossibleInternal_def Let_def)

lemma onward_attached_erased [simp]:
  assumes "onward k s t" "xs = m_attachedSources t"
  shows "find_key xs sid = None \<Longrightarrow> onward k s (t\<lparr>m_attachedSources := xs @ [(sid, a)]\<rparr>)"
    "j \<noteq> k \<Longrightarrow> onward k s (t\<lparr>m_attachedSources := erase_key j xs\<rparr>)"
  by (rule onward_trans [OF assms(1)]; use assms(2) in
      \<open>auto simp: onward_def map_of_eq_None_iff intro: exI [of _ 0]\<close>)+

lemma onward_attachSource: "onward k s (snd (attachSource_in_loop e src h s))"
  by (simp add: attachSource_in_loop_def Let_def split: option.splits)

lemma onward_removeSource: "j \<noteq> k \<Longrightarrow> onward k s (removeSource_in_loop e j s)"
  by (simp add: removeSource_in_loop_def Let_def onward_pull.p_drain_puller split: option.splits)

lemma onward_flush_in_loop: "onward k s t \<Longrightarrow> onward k s (flush_in_loop e j r t)"
  by (simp add: flush_in_loop_def Let_def split: option.splits prod.splits)

lemma onward_playback: "onward k s (playback_exec op s)"
  by (cases op) (simp_all add: client_op_defs in_loop_def Let_def onward_flush_in_loop split: option.splits)

lemma onward_exec: "\<not> disturbs k op \<Longrightarrow> onward k s (client_exec op s)"
proof (cases op)
  case (Sources p)
  assume "\<not> disturbs k op"
  with Sources show ?thesis
    by (cases p) (simp_all add: client_op_defs in_loop_def onward_attachSource onward_removeSource)
next
  case (Property p)
  then show ?thesis by (cases p) (simp_all add: client_op_defs in_loop_def split: option.splits)
next
  case (Notify p)
  then show ?thesis by (cases p) (simp_all add: client_op_defs)
qed (simp_all add: onward_playback)

section \<open>The worker threads answer\<close>

text \<open>The source is attached to a live client, its puller runs, and its samples name their caps.\<close>

definition ready :: "int \<Rightarrow> player \<Rightarrow> bool" where
  "ready k s \<longleftrightarrow> live s \<and> (\<exists>a. find_key (m_attachedSources s) k = Some a \<and> p_running (m_bufferPuller a) \<and>
     list_all named_caps (m_samples (delegates s (m_delegate a))))"

definition answers :: "u32 \<Rightarrow> player \<Rightarrow> nat" where
  "answers i s = count_list (data_calls i (calls s)) True"

text \<open>The three places of a request that is not answered yet.\<close>

definition asked :: "int \<Rightarrow> u32 \<Rightarrow> player \<Rightarrow> bool" where
  "asked k i s \<longleftrightarrow> (\<exists>n. NeedDataMessage k n i \<in> set (queueMessages s))"

definition pulled :: "int \<Rightarrow> u32 \<Rightarrow> player \<Rightarrow> bool" where
  "pulled k i s \<longleftrightarrow> (\<exists>a msg. find_key (m_attachedSources s) k = Some a \<and> msg \<in> set (p_queue (m_bufferPuller a)) \<and>
     pb_sourceId msg = k \<and> pb_needDataRequestId msg = i)"

definition answering :: "int \<Rightarrow> u32 \<Rightarrow> player \<Rightarrow> bool" where
  "answering k i s \<longleftrightarrow> (\<exists>st. HaveDataMessage st k i \<in> set (queueMessages s))"

definition pending :: "int \<Rightarrow> u32 \<Rightarrow> player \<Rightarrow> bool" where
  "pending k i s \<longleftrightarrow> asked k i s \<or> pulled k i s \<or> answering k i s"

lemma ready_onward: "onward k s t \<Longrightarrow> ready k s \<Longrightarrow> ready k t"
  unfolding ready_def onward_def live_def list_all_iff by (metis in_set_dropD)

lemma pulled_onward: "onward k s t \<Longrightarrow> pulled k i s \<Longrightarrow> pulled k i t"
  unfolding onward_def pulled_def by fastforce

lemma queued_onward: "onward k s t \<Longrightarrow> asked k i s \<Longrightarrow> asked k i t"
  "onward k s t \<Longrightarrow> answering k i s \<Longrightarrow> answering k i t"
  unfolding onward_def asked_def answering_def by fastforce+

lemma pending_onward: "onward k s t \<Longrightarrow> pending k i s \<Longrightarrow> pending k i t"
  by (auto simp: pending_def dest: pulled_onward queued_onward)

lemma answers_onward: "onward k s t \<Longrightarrow> answers i s \<le> answers i t"
  by (auto simp: onward_def answers_def)

text \<open>A round of the event loop.\<close>

lemma loop_round_onward:
  "queueMessages s = m # ms \<Longrightarrow> onward k (s\<lparr>queueMessages := ms\<rparr>) (loop_round e s)"
  by (simp add: loop_round_def onward_handle_message)

lemma dequeued_simps [simp]:
  "ready k (s\<lparr>queueMessages := ms\<rparr>) = ready k s" "pulled k i (s\<lparr>queueMessages := ms\<rparr>) = pulled k i s"
  "answers i (s\<lparr>queueMessages := ms\<rparr>) = answers i s"
  by (simp_all add: ready_def pulled_def answers_def live_def)

lemma ready_loop_round: "ready k s \<Longrightarrow> ready k (loop_round e s)" "answers i s \<le> answers i (loop_round e s)"
  by (cases "queueMessages s"; use loop_round_onward [of s _ _ k e] loop_round_onward [of s _ _ k e] in
      \<open>force simp: loop_round_def dest: ready_onward answers_onward [of _ _ _ i]\<close>)+

lemma loop_round_queue:
  "queueMessages s = m # ms \<Longrightarrow> \<exists>ys. queueMessages (loop_round e s) = ms @ ys"
  using loop_round_onward [of s m ms 0 e] by (simp add: onward_def)

lemma ask_handled:
  "ready k s \<Longrightarrow> queueMessages s = NeedDataMessage k n i # ms \<Longrightarrow> pulled k i (loop_round e s)"
  by (auto simp: ready_def loop_round_def requestPullBuffer_def BufferPuller_requestPullBuffer_def pulled_def
      intro!: exI [of _ "\<lparr>pb_sourceId = k, pb_frameCount = n, pb_needDataRequestId = i\<rparr>"])

lemma answer_handled:
  "ready k s \<Longrightarrow> queueMessages s = HaveDataMessage st k i # ms \<Longrightarrow> answers i (loop_round e s) = Suc (answers i s)"
  by (auto simp: ready_def loop_round_def answers_def)

lemma pending_loop_round:
  assumes "ready k s" "pending k i s"
  shows "pending k i (loop_round e s) \<or> answers i s < answers i (loop_round e s)"
proof (cases "queueMessages s")
  case Nil
  with assms show ?thesis by (simp add: loop_round_def)
next
  case (Cons m ms)
  consider "pending k i (s\<lparr>queueMessages := ms\<rparr>)" | n where "m = NeedDataMessage k n i"
    | st where "m = HaveDataMessage st k i"
    using assms(2) Cons by (auto simp: pending_def asked_def answering_def)
  then show ?thesis
  proof cases
    case 1
    with pending_onward [OF loop_round_onward [OF Cons, of k e]] show ?thesis by simp
  next
    case 2
    with ask_handled [OF assms(1)] Cons show ?thesis by (simp add: pending_def)
  next
    case 3
    with answer_handled [OF assms(1)] Cons show ?thesis by simp
  qed
qed

text \<open>A round of a puller: the request leaves its queue, and its answer is posted.\<close>

definition taken :: "int \<Rightarrow> PullBufferMessage list \<Rightarrow> player \<Rightarrow> player" where
  "taken k rest = edit_source k (\<lambda>a. a\<lparr>m_bufferPuller := (m_bufferPuller a)\<lparr>p_queue := rest\<rparr>\<rparr>)"

lemma taken_simps [simp]:
  "ready k (taken j rest s) = ready k s" "answers i (taken j rest s) = answers i s"
  "asked k i (taken j rest s) = asked k i s" "answering k i (taken j rest s) = answering k i s"
  "delegates (taken j rest s) = delegates s" "live (taken j rest s) = live s"
  by (auto simp: taken_def ready_def answers_def asked_def answering_def live_def)

lemma taken_other: "j \<noteq> k \<Longrightarrow> onward k s (taken j rest s)"
  by (auto simp: taken_def onward_def intro: exI [of _ 0])

lemma puller_step_cases:
  obtains (idle) "puller_step e j s = s" "\<And>a. find_key (m_attachedSources s) j = Some a \<Longrightarrow> p_queue (m_bufferPuller a) = []"
  | (faults) rest where "puller_step e j s = taken j rest s" "\<not> ready j s"
  | (round) a msg rest where "find_key (m_attachedSources s) j = Some a" "p_queue (m_bufferPuller a) = msg # rest"
      "handle_PullBufferMessage e (p_parser (m_bufferPuller a)) (m_delegate a) msg (taken j rest s) =
        Some (puller_step e j s)"
proof (cases "\<exists>a msg rest. find_key (m_attachedSources s) j = Some a \<and> p_queue (m_bufferPuller a) = msg # rest")
  case False
  then show ?thesis
    by (intro idle) (auto simp: puller_step_def split: option.splits list.splits, metis list.exhaust)
next
  case True
  then obtain a msg rest where a: "find_key (m_attachedSources s) j = Some a" "p_queue (m_bufferPuller a) = msg # rest"
    by blast
  let ?r = "handle_PullBufferMessage e (p_parser (m_bufferPuller a)) (m_delegate a) msg (taken j rest s)"
  have step: "puller_step e j s = (case ?r of None \<Rightarrow> taken j rest s | Some t \<Rightarrow> t)"
    using a unfolding taken_def by (simp add: puller_step_def Let_def)
  show ?thesis
  proof (cases ?r)
    case None
    have "\<not> ready j s"
    proof
      assume "ready j s"
      then have "list_all named_caps (m_samples (delegates (taken j rest s) (m_delegate a)))"
        using a(1) by (simp add: ready_def)
      from pull_loop_total [OF this, of e "p_parser (m_bufferPuller a)" msg "pb_frameCount msg" 0 0] None
      show False by (auto simp: handle_PullBufferMessage_def Let_def)
    qed
    with step None show ?thesis by (intro faults [of rest]) simp_all
  next
    case (Some t)
    with step a round show ?thesis by simp
  qed
qed

lemma puller_round_onward:
  "handle_PullBufferMessage e parser h msg s = Some t \<Longrightarrow> onward k s t"
  by (rule onward_pull.p_pull, assumption, rule onward_refl)

lemma puller_round_posts:
  assumes "handle_PullBufferMessage e parser h msg s = Some t" "live s"
    "pb_sourceId msg = k" "pb_needDataRequestId msg = i"
  shows "answering k i t"
proof -
  obtain eos added u where u: "pull_loop e parser msg h (pb_frameCount msg) 0 0 s = Some (eos, added, u)"
    using handle_pull_returns [OF assms(1)] by blast
  have "live u"
    using pull_loop_effect [OF u] assms(2) by (auto simp: pull_effect_def live_def)
  with assms handle_pull_loop [OF u] show ?thesis by (auto simp: answering_def live_post)
qed

lemma ready_puller_step: "ready k s \<Longrightarrow> ready k (puller_step e j s)" "answers i s \<le> answers i (puller_step e j s)"
  by (cases rule: puller_step_cases [of e j s]; use puller_round_onward in
      \<open>force dest: ready_onward answers_onward [of _ _ _ i]\<close>)+

lemma puller_step_queue:
  assumes "ready k s" "find_key (m_attachedSources s) k = Some a" "p_queue (m_bufferPuller a) = msg # rest"
  shows "\<exists>b ys. find_key (m_attachedSources (puller_step e k s)) k = Some b \<and> p_queue (m_bufferPuller b) = rest @ ys"
    and "pb_sourceId msg = k \<Longrightarrow> pb_needDataRequestId msg = i \<Longrightarrow> answering k i (puller_step e k s)"
proof -
  have r: "handle_PullBufferMessage e (p_parser (m_bufferPuller a)) (m_delegate a) msg (taken k rest s) =
      Some (puller_step e k s)"
    using puller_step_cases [of e k s] assms by (metis list.discI list.inject option.inject)
  from puller_round_onward [OF r, of k]
  show "\<exists>b ys. find_key (m_attachedSources (puller_step e k s)) k = Some b \<and> p_queue (m_bufferPuller b) = rest @ ys"
    using assms(2) by (auto simp: onward_def taken_def)
  show "answering k i (puller_step e k s)" if "pb_sourceId msg = k" "pb_needDataRequestId msg = i"
    by (rule puller_round_posts [OF r]) (use assms(1) that in \<open>simp_all add: ready_def\<close>)
qed

lemma pending_puller_step:
  assumes "ready k s" "pending k i s"
  shows "pending k i (puller_step e j s)"
proof (cases rule: puller_step_cases [of e j s])
  case idle
  with assms show ?thesis by simp
next
  case (faults rest)
  with assms(1) have "j \<noteq> k" by blast
  with faults(1) assms(2) show ?thesis using pending_onward [OF taken_other] by simp
next
  case (round a msg rest)
  note on = puller_round_onward [OF round(3), of k]
  show ?thesis
  proof (cases "j = k")
    case False
    then show ?thesis
      using pending_onward [OF on pending_onward [OF taken_other assms(2)]] by simp
  next
    case True
    consider "asked k i s" | "answering k i s"
      | x where "x \<in> set (msg # rest)" "pb_sourceId x = k" "pb_needDataRequestId x = i"
      using assms(2) round True by (auto simp: pending_def pulled_def)
    then show ?thesis
    proof cases
      case 3
      show ?thesis
      proof (cases "x = msg")
        case True
        with 3 puller_step_queue(2) [OF assms(1), of a msg rest i e] round \<open>j = k\<close>
        show ?thesis by (simp add: pending_def)
      next
        case False
        with 3 puller_step_queue(1) [OF assms(1), of a msg rest e] round \<open>j = k\<close>
        show ?thesis by (auto simp: pending_def pulled_def)
      qed
    qed (use queued_onward [OF on] in \<open>simp_all add: pending_def\<close>)
  qed
qed

subsection \<open>Rounds that finish a request\<close>

definition rounds_of :: "env \<Rightarrow> int \<Rightarrow> client_op set" where
  "rounds_of e k = {Thread (O_loop_round e), Thread (O_puller_step e k)}"

definition can_answer :: "env \<Rightarrow> int \<Rightarrow> u32 \<Rightarrow> nat \<Rightarrow> player \<Rightarrow> bool" where
  "can_answer e k i n s \<longleftrightarrow> (\<exists>ops. set ops \<subseteq> rounds_of e k \<and> n < answers i (fold client_exec ops s))"

lemma can_answer_later:
  assumes "op \<in> rounds_of e k" "can_answer e k i n (client_exec op s)"
  shows "can_answer e k i n s"
proof -
  obtain ops where "set ops \<subseteq> rounds_of e k" "n < answers i (fold client_exec ops (client_exec op s))"
    using assms(2) by (auto simp: can_answer_def)
  with assms(1) show ?thesis unfolding can_answer_def by (intro exI [of _ "op # ops"]) simp
qed

lemma can_answer_now: "n < answers i s \<Longrightarrow> can_answer e k i n s"
  unfolding can_answer_def by (intro exI [of _ "[]"]) simp

lemma can_answer_loop: "can_answer e k i n (loop_round e s) \<Longrightarrow> can_answer e k i n s"
  using can_answer_later [of "Thread (O_loop_round e)"] by (simp add: rounds_of_def)

lemma can_answer_puller: "can_answer e k i n (puller_step e k s) \<Longrightarrow> can_answer e k i n s"
  using can_answer_later [of "Thread (O_puller_step e k)"] by (simp add: rounds_of_def)

lemma answering_finishes:
  "ready k s \<Longrightarrow> n \<le> answers i s \<Longrightarrow> queueMessages s = before @ HaveDataMessage st k i # behind \<Longrightarrow>
   can_answer e k i n s"
proof (induction before arbitrary: s behind)
  case Nil
  have "answers i (loop_round e s) = Suc (answers i s)"
    by (rule answer_handled [OF Nil(1)]) (use Nil(3) in simp)
  with Nil(2) show ?case by (intro can_answer_loop [OF can_answer_now]) simp
next
  case (Cons m before)
  from loop_round_queue [of s m _ e] Cons.prems(3)
  obtain ys where "queueMessages (loop_round e s) = before @ HaveDataMessage st k i # (behind @ ys)" by fastforce
  from Cons.IH [OF ready_loop_round(1) [OF Cons.prems(1)] _ this] Cons.prems(2) ready_loop_round(2) [of i s e]
  show ?case by - (rule can_answer_loop, simp)
qed

lemma pulled_finishes:
  "ready k s \<Longrightarrow> n \<le> answers i s \<Longrightarrow> find_key (m_attachedSources s) k = Some a \<Longrightarrow>
   p_queue (m_bufferPuller a) = before @ msg # behind \<Longrightarrow> pb_sourceId msg = k \<Longrightarrow> pb_needDataRequestId msg = i \<Longrightarrow>
   can_answer e k i n s"
proof (induction before arbitrary: s a behind)
  case Nil
  have "answering k i (puller_step e k s)"
    using puller_step_queue(2) [OF Nil(1,3)] Nil(4,5,6) by simp
  then obtain st before' behind' where "queueMessages (puller_step e k s) = before' @ HaveDataMessage st k i # behind'"
    by (meson answering_def split_list)
  from answering_finishes [OF ready_puller_step(1) [OF Nil(1)] _ this] Nil(2) ready_puller_step(2) [of i s e k]
  show ?case by - (rule can_answer_puller, simp)
next
  case (Cons m before)
  from puller_step_queue(1) [OF Cons.prems(1,3), of m "before @ msg # behind" e] Cons.prems(4)
  obtain b ys where "find_key (m_attachedSources (puller_step e k s)) k = Some b"
    "p_queue (m_bufferPuller b) = before @ msg # (behind @ ys)" by auto
  from Cons.IH [OF ready_puller_step(1) [OF Cons.prems(1)] _ this] Cons.prems(2,5,6) ready_puller_step(2) [of i s e k]
  show ?case by - (rule can_answer_puller, simp)
qed

lemma asked_finishes:
  "ready k s \<Longrightarrow> n \<le> answers i s \<Longrightarrow> queueMessages s = before @ NeedDataMessage k l i # behind \<Longrightarrow>
   can_answer e k i n s"
proof (induction before arbitrary: s behind)
  case Nil
  have "pulled k i (loop_round e s)" using ask_handled [OF Nil(1)] Nil(3) by simp
  then obtain a before' msg behind' where "find_key (m_attachedSources (loop_round e s)) k = Some a"
    "p_queue (m_bufferPuller a) = before' @ msg # behind'" "pb_sourceId msg = k" "pb_needDataRequestId msg = i"
    by (meson pulled_def split_list)
  from pulled_finishes [OF ready_loop_round(1) [OF Nil(1)] _ this] Nil(2) ready_loop_round(2) [of i s e]
  show ?case by - (rule can_answer_loop, simp)
next
  case (Cons m before)
  from loop_round_queue [of s m _ e] Cons.prems(3)
  obtain ys where "queueMessages (loop_round e s) = before @ NeedDataMessage k l i # (behind @ ys)" by fastforce
  from Cons.IH [OF ready_loop_round(1) [OF Cons.prems(1)] _ this] Cons.prems(2) ready_loop_round(2) [of i s e]
  show ?case by - (rule can_answer_loop, simp)
qed

lemma request_finishes:
  assumes "ready k s" "pending k i s" "n \<le> answers i s"
  shows "can_answer e k i n s"
proof -
  consider "asked k i s" | "pulled k i s" | "answering k i s" using assms(2) by (auto simp: pending_def)
  then show ?thesis
  proof cases
    case 1
    with assms(1,3) show ?thesis unfolding asked_def by (metis asked_finishes split_list)
  next
    case 2
    with assms(1,3) show ?thesis unfolding pulled_def by (metis pulled_finishes split_list)
  next
    case 3
    with assms(1,3) show ?thesis unfolding answering_def by (metis answering_finishes split_list)
  qed
qed

subsection \<open>Any interleaving\<close>

text \<open>
  What may happen while a request for the source \<open>k\<close> waits: rounds of the worker threads, every
  method and notification but the removal of the source and the end of streaming, and changes to the
  delegates, such as new samples, after which their samples still name their caps.
\<close>

fun undisturbed :: "int \<Rightarrow> client_op \<Rightarrow> bool" where
  "undisturbed k (Thread (O_loop_round e)) = True"
| "undisturbed k (Thread (O_puller_step e j)) = True"
| "undisturbed k (Thread (O_delegate h f)) =
     (\<forall>d. list_all named_caps (m_samples d) \<longrightarrow> list_all named_caps (m_samples (f d)))"
| "undisturbed k op = (\<not> disturbs k op)"

definition on_course :: "int \<Rightarrow> u32 \<Rightarrow> nat \<Rightarrow> player \<Rightarrow> bool" where
  "on_course k i n s \<longleftrightarrow> ready k s \<and> n \<le> answers i s \<and> (pending k i s \<or> n < answers i s)"

lemma on_course_onward: "onward k s t \<Longrightarrow> on_course k i n s \<Longrightarrow> on_course k i n t"
  using answers_onward [of k s t i]
  by (auto simp: on_course_def dest: ready_onward pending_onward)

lemma on_course_delegate:
  assumes "\<And>d. list_all named_caps (m_samples d) \<Longrightarrow> list_all named_caps (m_samples (f d))" "on_course k i n s"
  shows "on_course k i n (upd_delegate h f s)"
  using assms by (auto simp: on_course_def ready_def answers_def pending_def asked_def pulled_def answering_def
      upd_delegate_def live_def)

lemma on_course_rounds:
  assumes "on_course k i n s"
  shows "on_course k i n (loop_round e s)" "on_course k i n (puller_step e j s)"
proof -
  have r: "ready k s" "n \<le> answers i s" using assms by (simp_all add: on_course_def)
  show "on_course k i n (loop_round e s)"
    using assms ready_loop_round(1) [OF r(1)] ready_loop_round(2) [of i s e] pending_loop_round [OF r(1)]
    by (fastforce simp: on_course_def)
  show "on_course k i n (puller_step e j s)"
    using assms ready_puller_step(1) [OF r(1)] ready_puller_step(2) [of i s e j] pending_puller_step [OF r(1)]
    by (fastforce simp: on_course_def)
qed

lemma on_course_exec:
  assumes "undisturbed k op" "on_course k i n s"
  shows "on_course k i n (client_exec op s)"
proof (cases "disturbs k op")
  case False
  with assms(2) show ?thesis by (blast intro: on_course_onward onward_exec)
next
  case True
  with assms show ?thesis
    by (cases "(k, op)" rule: undisturbed.cases) (simp_all add: on_course_rounds on_course_delegate)
qed

lemma on_course_run:
  "list_all (undisturbed k) ops \<Longrightarrow> on_course k i n s \<Longrightarrow> on_course k i n (fold client_exec ops s)"
  by (induction ops arbitrary: s) (simp_all add: on_course_exec)

text \<open>
  C5. A request for data gets its answer. Once a request for an attached source is in the event loop,
  it stays answerable whatever happens in whatever order, as long as the source stays attached, streaming
  is not stopped and the samples name their caps: from every state that is reached, the worker threads
  alone, the event loop and the puller of the source, can go on to answer it, for any answers of the
  server and of GStreamer to their calls.
\<close>

theorem request_is_answered:
  assumes "live s" "find_key (m_attachedSources s) k = Some a" "p_running (m_bufferPuller a)"
    and "list_all named_caps (m_samples (delegates s (m_delegate a)))"
    and "NeedDataMessage k n i \<in> set (queueMessages s)" and "list_all (undisturbed k) ops"
  shows "\<exists>rounds. set rounds \<subseteq> {Thread (O_loop_round e), Thread (O_puller_step e k)} \<and>
    count_list (data_calls i (calls s)) True
      < count_list (data_calls i (calls (fold client_exec (ops @ rounds) s))) True"
proof -
  have "on_course k i (answers i s) s"
    using assms(1-5) by (auto simp: on_course_def ready_def pending_def asked_def)
  then have t: "on_course k i (answers i s) (fold client_exec ops s)" by (rule on_course_run [OF assms(6)])
  then have "can_answer e k i (answers i s) (fold client_exec ops s)"
    by (auto simp: on_course_def intro: can_answer_now request_finishes)
  then show ?thesis by (simp add: can_answer_def rounds_of_def answers_def)
qed

text \<open>A client with an attached source, one request in its event loop, and the delegate that gets a
  sample while the request waits.\<close>

definition need_player :: player where
  "need_player = notifyNeedMediaData 1 5 9 data_player"

theorem request_is_answered_witness:
  "\<exists>rounds. 0 < count_list (data_calls 9 (calls (fold client_exec
     ([Thread (O_delegate 0 (\<lambda>d. d\<lparr>m_samples := m_samples d @ [data_sample True 4]\<rparr>)),
       Playback (O_pause 1), Thread (O_puller_step good_env 2)] @ rounds) need_player))) True"
proof -
  obtain a where a: "find_key (m_attachedSources data_player) 1 = Some a" "p_running (m_bufferPuller a)" "m_delegate a = 0"
    by (auto simp: data_player_def demo_player_def new_source_def)
  have s: "live need_player" "m_attachedSources need_player = m_attachedSources data_player"
    "delegates need_player = delegates data_player" "NeedDataMessage 1 5 9 \<in> set (queueMessages need_player)"
    "calls need_player = []"
    by (simp_all add: need_player_def notifyNeedMediaData_def) (simp add: live_post)
  show ?thesis
    using request_is_answered [of need_player 1 a 5 9
        "[Thread (O_delegate 0 (\<lambda>d. d\<lparr>m_samples := m_samples d @ [data_sample True 4]\<rparr>)),
          Playback (O_pause 1), Thread (O_puller_step good_env 2)]" good_env]
    by (auto simp: s a)
qed

end
