(* ===== verification/Client_Flush.thy ===== *)
theory Client_Flush
  imports Client_Data
begin

text \<open>
  How long a flush lasts: the flush of a source stays recorded over every interleaving of the methods,
  the notifications and the worker threads, until the server reports its end, the puller of the
  source runs, or the source or the session is closed.
\<close>

section \<open>The requests of a puller\<close>

text \<open>The queue of a puller holds requests for its own source.\<close>

definition own_requests :: "player \<Rightarrow> bool" where
  "own_requests s \<longleftrightarrow> (\<forall>k a. find_key (m_attachedSources s) k = Some a \<longrightarrow>
     (\<forall>msg \<in> set (p_queue (m_bufferPuller a)). pb_sourceId msg = k))"

definition keeps_requests :: "(AttachedSource \<Rightarrow> AttachedSource) \<Rightarrow> bool" where
  "keeps_requests g \<longleftrightarrow> (\<forall>a. set (p_queue (m_bufferPuller (g a))) \<subseteq> set (p_queue (m_bufferPuller a)) \<and>
     m_delegate (g a) = m_delegate a \<and> (m_isFlushing a \<longrightarrow> m_isFlushing (g a)))"

lemma keeps_requests_updates [simp]:
  "keeps_requests (\<lambda>a. a\<lparr>m_state := st\<rparr>)" "keeps_requests (\<lambda>a. a\<lparr>m_isFlushing := True\<rparr>)"
  "keeps_requests (\<lambda>a. a\<lparr>m_position := p\<rparr>)"
  by (simp_all add: keeps_requests_def)

lemma own_requests_cong: "m_attachedSources t = m_attachedSources s \<Longrightarrow> own_requests t = own_requests s"
  by (simp add: own_requests_def)

lemma own_requests_same [simp]:
  "own_requests (call b s) = own_requests s" "own_requests (upd_delegate j f s) = own_requests s"
  "own_requests (post m s) = own_requests s" "own_requests (edit_sync v s) = own_requests s"
  "own_requests (s\<lparr>wasPlayingBeforeEos := b1\<rparr>) = own_requests s"
  "own_requests (s\<lparr>m_playbackInfo := i\<rparr>) = own_requests s"
  "own_requests (s\<lparr>m_duration := n\<rparr>) = own_requests s"
  "own_requests (s\<lparr>m_videoRectangle := r\<rparr>) = own_requests s"
  "own_requests (s\<lparr>m_backendCreated := b1\<rparr>) = own_requests s"
  "own_requests (s\<lparr>m_clientState := c\<rparr>) = own_requests s"
  "own_requests (s\<lparr>m_serverPlaybackState := ps\<rparr>) = own_requests s"
  "own_requests (s\<lparr>m_wasAllSourcesAttachedSent := b1\<rparr>) = own_requests s"
  "own_requests (s\<lparr>m_audioStreams := i1\<rparr>) = own_requests s"
  "own_requests (s\<lparr>m_videoStreams := i1\<rparr>) = own_requests s"
  "own_requests (s\<lparr>m_subtitleStreams := i1\<rparr>) = own_requests s"
  "own_requests (s\<lparr>queueMessages := q\<rparr>) = own_requests s"
  "own_requests (s\<lparr>queueAccepting := b1\<rparr>) = own_requests s"
  "own_requests (s\<lparr>queueRunning := b1\<rparr>) = own_requests s"
  "own_requests (s\<lparr>m_streamingStopped := b1\<rparr>) = own_requests s"
  "own_requests (for_delegates f s) = own_requests s"
  by (rule own_requests_cong, simp)+

lemma own_requests_edit:
  assumes "own_requests s"
    and "\<And>j a. find_key (m_attachedSources t) j = Some a \<Longrightarrow>
      \<exists>b. find_key (m_attachedSources s) j = Some b \<and> set (p_queue (m_bufferPuller a)) \<subseteq> set (p_queue (m_bufferPuller b))"
  shows "own_requests t"
  using assms unfolding own_requests_def by (meson subsetD)

lemma own_requests_edit_source [simp]:
  assumes "own_requests s" "\<And>a. set (p_queue (m_bufferPuller (g a))) \<subseteq> set (p_queue (m_bufferPuller a))"
  shows "own_requests (edit_source j g s)"
    "xs = m_attachedSources s \<Longrightarrow> own_requests (s\<lparr>m_attachedSources := map (\<lambda>(j, a). (j, g a)) xs\<rparr>)"
  by (rule own_requests_edit [OF assms(1)]; use assms(2) in \<open>auto split: if_splits\<close>)+

lemma own_requests_erase [simp]:
  "own_requests s \<Longrightarrow> xs = m_attachedSources s \<Longrightarrow> own_requests (s\<lparr>m_attachedSources := erase_key j xs\<rparr>)"
  by (auto simp: own_requests_def split: if_splits)

lemma own_requests_set_state [simp]: "own_requests s \<Longrightarrow> own_requests (set_source_state j st s)"
  by (simp add: set_source_state_def)

lemma own_requests_pull:
  assumes "handle_PullBufferMessage e parser j msg s = Some t"
  shows "own_requests t = own_requests s"
proof -
  obtain eos added u where loop: "pull_loop e parser msg j (pb_frameCount msg) 0 0 s = Some (eos, added, u)"
    using handle_pull_returns [OF assms] by blast
  have "own_requests u = own_requests s"
    using pull_loop_effect [OF loop] own_requests_cong [of u s] by (auto simp: pull_effect_def)
  with assms handle_pull_loop [OF loop] show ?thesis by (auto split: if_splits)
qed

lemma own_requests_drain [simp]: "own_requests (drain_puller e parser j msgs s) = own_requests s"
  by (induction msgs arbitrary: s) (auto simp: own_requests_pull split: option.splits)

lemma own_requests_rest:
  assumes "own_requests s" "find_key (m_attachedSources s) j = Some a" "p_queue (m_bufferPuller a) = msg # rest"
  shows "own_requests (edit_source j (\<lambda>a. a\<lparr>m_bufferPuller := (m_bufferPuller a)\<lparr>p_queue := rest\<rparr>\<rparr>) s)"
  by (rule own_requests_edit [OF assms(1)]) (use assms(2,3) in \<open>auto split: if_splits\<close>)

lemma own_requests_puller_step: "own_requests s \<Longrightarrow> own_requests (puller_step e j s)"
  by (auto simp: puller_step_def Let_def own_requests_rest own_requests_pull split: option.splits list.splits)

lemma own_requests_play_pause [simp]:
  "own_requests t \<Longrightarrow> own_requests (snd (play_in_loop e j t))"
  "own_requests t \<Longrightarrow> own_requests (snd (pause_in_loop j t))"
  by (simp_all add: play_in_loop_def pause_in_loop_def Let_def split: option.splits)

lemma own_requests_notify_sources [simp]: "own_requests t \<Longrightarrow> own_requests (notify_sources e st js t)"
  by (induction js arbitrary: t) (simp_all add: Let_def handleStateChanged_def split: option.splits)

lemma own_requests_requestPullBuffer: "own_requests s \<Longrightarrow> own_requests (snd (requestPullBuffer j n i s))"
  by (auto simp: requestPullBuffer_def BufferPuller_requestPullBuffer_def own_requests_def
      split: option.splits if_splits)

lemma own_requests_handle_message: "own_requests s \<Longrightarrow> own_requests (handle_message e m s)"
proof (cases m)
  case (NeedDataMessage j n i)
  assume "own_requests s"
  then show ?thesis
    unfolding NeedDataMessage
    by (intro need_data_cases [where P = own_requests]) (simp_all add: own_requests_requestPullBuffer)
qed (simp_all add: client_handleQos_def handleBufferUnderflow_def handlePlaybackStateChange_def Let_def
    handleFirstFrameReceived_def handlePlaybackError_def handleSourceFlushed_def split: option.splits)

lemma own_requests_drain_messages: "own_requests s \<Longrightarrow> own_requests (drain_messages e ms s)"
  by (induction ms arbitrary: s) (simp_all add: own_requests_handle_message)

lemma own_requests_stop_pullers: "own_requests s \<Longrightarrow> own_requests (fold (stop_puller e) ks s)"
  by (induction ks arbitrary: s) (simp_all add: stop_puller_def split: option.splits)

lemma own_requests_stopStreaming: "own_requests s \<Longrightarrow> own_requests (stopStreaming e s)"
  by (simp add: stopStreaming_def Let_def own_requests_stop_pullers own_requests_drain_messages)

lemma own_requests_attachSource: "own_requests s \<Longrightarrow> own_requests (snd (attachSource_in_loop e src j s))"
proof -
  assume "own_requests s"
  then have "own_requests (edit_sync f (upd_delegate j g
      ((call b s)\<lparr>m_attachedSources := m_attachedSources s @ [(sid, new_source ty j)]\<rparr>)))" for sid f g b ty
    by (auto simp: own_requests_def new_source_def map_add_def split: option.splits if_splits)
  with \<open>own_requests s\<close> show ?thesis
    by (simp add: attachSource_in_loop_def sendAllSourcesAttachedIfPossibleInternal_def Let_def split: option.splits)
qed

lemma own_requests_playback: "own_requests s \<Longrightarrow> own_requests (playback_exec op s)"
  by (cases op) (simp_all add: client_op_defs in_loop_def Let_def flush_in_loop_def split: option.splits prod.splits)

lemma own_requests_exec: "own_requests s \<Longrightarrow> own_requests (client_exec op s)"
proof (cases op)
  case (Sources p)
  assume "own_requests s"
  with Sources show ?thesis
    by (cases p) (simp_all add: client_op_defs in_loop_def own_requests_attachSource removeSource_in_loop_def
        sendAllSourcesAttachedIfPossibleInternal_def Let_def split: option.splits)
next
  case (Property p)
  assume "own_requests s"
  with Property show ?thesis by (cases p) (simp_all add: client_op_defs in_loop_def split: option.splits)
next
  case (Notify p)
  assume "own_requests s"
  with Notify show ?thesis by (cases p) (simp_all add: client_op_defs)
next
  case (Thread p)
  assume "own_requests s"
  with Thread show ?thesis
    by (cases p) (simp_all add: loop_round_def own_requests_handle_message own_requests_puller_step
        own_requests_stopStreaming split: list.splits)
qed (simp add: own_requests_playback)

interpretation requests_system: operation_system client_exec own_requests
  by unfold_locales (rule own_requests_exec)

section \<open>The record of a flush\<close>

text \<open>
  The source \<open>k\<close> of the delegate \<open>h\<close> is attached and being flushed, the synchronizer records it, and no
  report of its end is queued.
\<close>

definition under_flush :: "int \<Rightarrow> nat \<Rightarrow> player \<Rightarrow> bool" where
  "under_flush k h s \<longleftrightarrow>
     (\<exists>a. find_key (m_attachedSources s) k = Some a \<and> m_isFlushing a \<and> m_delegate a = h) \<and>
     flushState (source_state (m_flushAndDataSynchronizer s) k) = FLUSHING \<and>
     SourceFlushedMessage k \<notin> set (queueMessages s) \<and>
     distinct (keys (m_flushAndDataSynchronizer s)) \<and> own_requests s"

text \<open>What ends it: the report of the server, the puller of the source (which notifies the synchronizer
  when it has sent data or the end of the stream), removing the source and ending the session.\<close>

fun ends_flush :: "int \<Rightarrow> client_op \<Rightarrow> bool" where
  "ends_flush k (Notify (O_notifySourceFlushed j)) = (j = k)"
| "ends_flush k (Thread (O_puller_step e j)) = (j = k)"
| "ends_flush k (Sources (O_removeSource e j)) = (j = k)"
| "ends_flush k (Thread (O_stopStreaming e)) = True"
| "ends_flush k op = False"

lemma under_flush_cong:
  assumes "m_attachedSources t = m_attachedSources s" "queueMessages t = queueMessages s"
    "m_flushAndDataSynchronizer t = m_flushAndDataSynchronizer s"
  shows "under_flush k h t = under_flush k h s"
  by (simp add: under_flush_def own_requests_def assms)

lemma under_flush_same [simp]:
  "under_flush k h (call b s) = under_flush k h s" "under_flush k h (upd_delegate j f s) = under_flush k h s"
  "under_flush k h (s\<lparr>wasPlayingBeforeEos := b1\<rparr>) = under_flush k h s"
  "under_flush k h (s\<lparr>m_playbackInfo := i\<rparr>) = under_flush k h s"
  "under_flush k h (s\<lparr>m_duration := n\<rparr>) = under_flush k h s"
  "under_flush k h (s\<lparr>m_videoRectangle := r\<rparr>) = under_flush k h s"
  "under_flush k h (s\<lparr>m_backendCreated := b1\<rparr>) = under_flush k h s"
  "under_flush k h (s\<lparr>m_clientState := c\<rparr>) = under_flush k h s"
  "under_flush k h (s\<lparr>m_serverPlaybackState := ps\<rparr>) = under_flush k h s"
  "under_flush k h (s\<lparr>m_wasAllSourcesAttachedSent := b1\<rparr>) = under_flush k h s"
  "under_flush k h (s\<lparr>m_audioStreams := i1\<rparr>) = under_flush k h s"
  "under_flush k h (s\<lparr>m_videoStreams := i1\<rparr>) = under_flush k h s"
  "under_flush k h (s\<lparr>m_subtitleStreams := i1\<rparr>) = under_flush k h s"
  by (rule under_flush_cong, simp_all)+

lemma under_flush_post [simp]:
  "m \<noteq> SourceFlushedMessage k \<Longrightarrow> under_flush k h s \<Longrightarrow> under_flush k h (post m s)"
  using post_queue [of m s] by (auto simp: under_flush_def own_requests_def)

lemma under_flush_sync [simp]:
  "under_flush k h s \<Longrightarrow> under_flush k h (edit_sync (notifyFlushStarted j) s)"
  "j \<noteq> k \<Longrightarrow> under_flush k h s \<Longrightarrow> under_flush k h (edit_sync (notifyFlushCompleted j) s)"
  "under_flush k h s \<Longrightarrow> under_flush k h (edit_sync (notifyDataReceived j) s)"
  "j \<noteq> k \<Longrightarrow> under_flush k h s \<Longrightarrow> under_flush k h (edit_sync (notifyDataPushed j) s)"
  "j \<noteq> k \<Longrightarrow> under_flush k h s \<Longrightarrow> under_flush k h (edit_sync (addSource j) s)"
  "j \<noteq> k \<Longrightarrow> under_flush k h s \<Longrightarrow> under_flush k h (edit_sync (Flush_Data_Sync.removeSource j) s)"
  by (auto simp: under_flush_def own_requests_def source_state_ops source_state_dataReceived)

lemma under_flush_edit [simp]:
  assumes "under_flush k h s" "keeps_requests g"
  shows "under_flush k h (edit_source j g s)"
    and "xs = m_attachedSources s \<Longrightarrow> under_flush k h (s\<lparr>m_attachedSources := map (\<lambda>(j, a). (j, g a)) xs\<rparr>)"
proof -
  have own: "own_requests (edit_source j g s)"
    "own_requests (s\<lparr>m_attachedSources := map (\<lambda>(j, a). (j, g a)) (m_attachedSources s)\<rparr>)"
    using assms by (simp_all add: under_flush_def keeps_requests_def)
  obtain a where a: "find_key (m_attachedSources s) k = Some a" "m_isFlushing a" "m_delegate a = h"
    using assms(1) by (auto simp: under_flush_def)
  moreover from this have "m_isFlushing (g a)" "m_delegate (g a) = h"
    using assms(2) by (simp_all add: keeps_requests_def)
  ultimately show "under_flush k h (edit_source j g s)"
    and "xs = m_attachedSources s \<Longrightarrow> under_flush k h (s\<lparr>m_attachedSources := map (\<lambda>(j, a). (j, g a)) xs\<rparr>)"
    using assms(1) own by (auto simp: under_flush_def)
qed

lemma under_flush_set_state [simp]: "under_flush k h s \<Longrightarrow> under_flush k h (set_source_state j st s)"
  by (simp add: set_source_state_def)

lemma under_flush_for_delegates [simp]: "under_flush k h (for_delegates f s) = under_flush k h s"
  by (rule for_delegates_cases) simp_all

text \<open>A round of the puller of another source, and the rounds before it is destroyed.\<close>

lemma under_flush_pull:
  assumes "handle_PullBufferMessage e parser j msg s = Some t" "pb_sourceId msg \<noteq> k" "under_flush k h s"
  shows "under_flush k h t"
proof -
  obtain eos added u where loop: "pull_loop e parser msg j (pb_frameCount msg) 0 0 s = Some (eos, added, u)"
    using handle_pull_returns [OF assms(1)] by blast
  then have "under_flush k h u"
    using pull_loop_effect [OF loop] assms(3) under_flush_cong [of u s k h] by (auto simp: pull_effect_def)
  with assms(1,2) handle_pull_loop [OF loop] show ?thesis by (auto split: if_splits)
qed

lemma under_flush_drain:
  "\<forall>msg \<in> set msgs. pb_sourceId msg \<noteq> k \<Longrightarrow> under_flush k h s \<Longrightarrow>
   under_flush k h (drain_puller e parser j msgs s)"
  by (induction msgs arbitrary: s) (auto dest: under_flush_pull split: option.splits)

lemma under_flush_own:
  "under_flush k h s \<Longrightarrow> find_key (m_attachedSources s) j = Some a \<Longrightarrow> msg \<in> set (p_queue (m_bufferPuller a)) \<Longrightarrow>
   pb_sourceId msg = j"
  by (simp add: under_flush_def own_requests_def)

lemma under_flush_puller_step:
  assumes "under_flush k h s" "j \<noteq> k"
  shows "under_flush k h (puller_step e j s)"
proof (cases "\<exists>a msg rest. find_key (m_attachedSources s) j = Some a \<and> p_queue (m_bufferPuller a) = msg # rest")
  case False
  with assms(1) show ?thesis by (auto simp: puller_step_def split: option.splits list.splits)
next
  case True
  then obtain a msg rest where a: "find_key (m_attachedSources s) j = Some a" "p_queue (m_bufferPuller a) = msg # rest"
    by blast
  let ?g = "\<lambda>a. a\<lparr>m_bufferPuller := (m_bufferPuller a)\<lparr>p_queue := rest\<rparr>\<rparr>"
  have own: "own_requests (edit_source j ?g s)"
    by (rule own_requests_rest [OF _ a]) (use assms(1) in \<open>simp add: under_flush_def\<close>)
  with assms have "under_flush k h (edit_source j ?g s)" by (simp add: under_flush_def)
  moreover have "pb_sourceId msg \<noteq> k" using under_flush_own [OF assms(1) a(1)] a(2) assms(2) by simp
  ultimately show ?thesis
    using a under_flush_pull by (auto simp: puller_step_def Let_def split: option.splits)
qed

text \<open>The handlers of messages.\<close>

lemma under_flush_play_pause [simp]:
  "under_flush k h t \<Longrightarrow> under_flush k h (snd (play_in_loop e j t))"
  "under_flush k h t \<Longrightarrow> under_flush k h (snd (pause_in_loop j t))"
  by (simp_all add: play_in_loop_def pause_in_loop_def Let_def split: option.splits)

lemma under_flush_notify_sources [simp]: "under_flush k h t \<Longrightarrow> under_flush k h (notify_sources e st js t)"
  by (induction js arbitrary: t) (simp_all add: Let_def handleStateChanged_def split: option.splits)

lemma under_flush_state_change [simp]: "under_flush k h t \<Longrightarrow> under_flush k h (handlePlaybackStateChange e st t)"
  by (simp add: handlePlaybackStateChange_def Let_def)

lemma under_flush_requestPullBuffer: "under_flush k h s \<Longrightarrow> under_flush k h (snd (requestPullBuffer j n i s))"
  by (auto simp: requestPullBuffer_def BufferPuller_requestPullBuffer_def under_flush_def own_requests_def
      split: option.splits if_splits)

lemma under_flush_handle_message:
  "m \<noteq> SourceFlushedMessage k \<Longrightarrow> under_flush k h s \<Longrightarrow> under_flush k h (handle_message e m s)"
proof (cases m)
  case (NeedDataMessage j n i)
  assume "under_flush k h s"
  then show ?thesis
    unfolding NeedDataMessage
    by (intro need_data_cases [where P = "under_flush k h"]) (simp_all add: under_flush_requestPullBuffer)
next
  case (SourceFlushedMessage j)
  assume s: "under_flush k h s" "m \<noteq> SourceFlushedMessage k"
  have "under_flush k h (edit_source j (\<lambda>a. a\<lparr>m_isFlushing := False\<rparr>) s)"
    using s SourceFlushedMessage by (auto simp: under_flush_def own_requests_def split: if_splits)
  with s SourceFlushedMessage show ?thesis
    by (simp add: handleSourceFlushed_def split: option.splits)
qed (simp_all add: client_handleQos_def handleBufferUnderflow_def
    handleFirstFrameReceived_def handlePlaybackError_def split: option.splits)

lemma under_flush_loop_round: "under_flush k h s \<Longrightarrow> under_flush k h (loop_round e s)"
proof (cases "queueMessages s")
  case (Cons m ms)
  assume s: "under_flush k h s"
  with Cons have "m \<noteq> SourceFlushedMessage k" "under_flush k h (s\<lparr>queueMessages := ms\<rparr>)"
    by (auto simp: under_flush_def own_requests_def)
  with Cons show ?thesis by (simp add: loop_round_def under_flush_handle_message)
qed (simp add: loop_round_def)

text \<open>The methods.\<close>

lemma under_flush_send_all [simp]:
  "under_flush k h t \<Longrightarrow> under_flush k h (sendAllSourcesAttachedIfPossibleInternal t)"
  by (simp add: sendAllSourcesAttachedIfPossibleInternal_def Let_def)

lemma under_flush_attachSource:
  assumes "under_flush k h s"
  shows "under_flush k h (snd (attachSource_in_loop e src j s))"
proof -
  have "under_flush k h (edit_sync (addSource sid) (upd_delegate j f
      ((call b s)\<lparr>m_attachedSources := m_attachedSources s @ [(sid, new_source ty j)]\<rparr>)))"
    if "find_key (m_attachedSources s) sid = None" for sid f b ty
    using assms that
    by (auto simp: under_flush_def own_requests_def source_state_ops new_source_def map_add_def split: option.splits if_splits)
  with assms show ?thesis by (simp add: attachSource_in_loop_def Let_def split: option.splits)
qed

lemma under_flush_erase:
  "under_flush k h t \<Longrightarrow> j \<noteq> k \<Longrightarrow> xs = m_attachedSources t \<Longrightarrow>
   under_flush k h (t\<lparr>m_attachedSources := erase_key j xs\<rparr>)"
  by (auto simp: under_flush_def own_requests_def split: if_splits)

lemma under_flush_removeSource: "under_flush k h s \<Longrightarrow> j \<noteq> k \<Longrightarrow> under_flush k h (removeSource_in_loop e j s)"
  by (auto simp: removeSource_in_loop_def Let_def intro!: under_flush_erase under_flush_sync under_flush_drain
      dest: under_flush_own split: option.splits)

lemma under_flush_flush: "under_flush k h t \<Longrightarrow> under_flush k h (flush_in_loop e j r t)"
  by (simp add: flush_in_loop_def Let_def split: option.splits prod.splits)

lemma under_flush_playback: "under_flush k h s \<Longrightarrow> under_flush k h (playback_exec op s)"
  by (cases op) (simp_all add: client_op_defs in_loop_def Let_def under_flush_flush split: option.splits)

lemma under_flush_exec:
  "under_flush k h s \<Longrightarrow> \<not> ends_flush k op \<Longrightarrow> under_flush k h (client_exec op s)"
proof (cases op)
  case (Sources p)
  assume "under_flush k h s" "\<not> ends_flush k op"
  with Sources show ?thesis
    by (cases p) (simp_all add: client_op_defs in_loop_def under_flush_attachSource under_flush_removeSource)
next
  case (Property p)
  assume "under_flush k h s"
  with Property show ?thesis by (cases p) (simp_all add: client_op_defs in_loop_def split: option.splits)
next
  case (Notify p)
  assume "under_flush k h s" "\<not> ends_flush k op"
  with Notify show ?thesis by (cases p) (simp_all add: client_op_defs)
next
  case (Thread p)
  assume "under_flush k h s" "\<not> ends_flush k op"
  with Thread show ?thesis
    by (cases p) (simp_all add: under_flush_loop_round under_flush_puller_step)
qed (simp add: under_flush_playback)

lemma under_flush_run:
  "under_flush k h s \<Longrightarrow> list_all (\<lambda>op. \<not> ends_flush k op) ops \<Longrightarrow> under_flush k h (fold client_exec ops s)"
  by (induction ops arbitrary: s) (simp_all add: under_flush_exec)

section \<open>Property\<close>

lemma under_flush_started:
  assumes "live s" "distinct (keys (m_flushAndDataSynchronizer s))" "own_requests s" "SourceFlushedMessage k \<notin> set (queueMessages s)"
    and "find_key (m_attachedSources s) k = Some a" "be_flush e k r = (True, async)"
  shows "under_flush k (m_delegate a) (flush e k r s)"
proof -
  note f = flush_attached [OF assms(1,5,6)]
  have own: "own_requests (flush e k r s)"
    using own_requests_playback [of s "O_flush e k r"] assms(3) by simp
  have q: "queueMessages (flush e k r s) = queueMessages s"
    using assms(1,5,6)
    by (simp add: flush_live flush_in_loop_def Let_def edit_sync_def edit_source_def set_source_state_def upd_delegate_def call_def)
  show ?thesis
    using f(2,3) own q assms(2,4) distinct_keys_ops(3) [of "m_flushAndDataSynchronizer s" k]
    by (simp add: under_flush_def source_state_ops)
qed

text \<open>
  C17. A flush suspends position updates until the server reports its end. For an attached source
  that the server agrees to flush, with no report of an earlier flush of it still queued: exactly one
  flush command is sent; then, whatever sequence of methods, notifications and rounds of the worker
  threads follows, short of the server's report of the end, a round of the source's own puller, removing
  the source and ending the session, every position update from the server is dropped and another
  flush of the source would block; when the completion is then handled, it clears the flags of the
  delegate and of the source, so that a second completion has no effect, and updates are accepted again
  unless another source is being flushed. (A round of the source's own puller can end the suspension early:
  the race is in theory Puller\_Races.)
\<close>

theorem flush_cycle:
  assumes "live s" and "distinct (keys (m_flushAndDataSynchronizer s))" and "own_requests s"
    and "SourceFlushedMessage sid \<notin> set (queueMessages s)"
    and "find_key (m_attachedSources s) sid = Some a" "be_flush e sid r = (True, async)"
    and "list_all (\<lambda>op. \<not> ends_flush sid op) ops"
  shows "let t = flush e sid r s; v = fold client_exec ops t; u = handleSourceFlushed sid v
    in calls t = calls s @ [B_flush sid r] \<and>
       notifyPlaybackInfo info v = v \<and> \<not> waitIfRequired sid (m_flushAndDataSynchronizer v) \<and>
       \<not> m_isServerFlushOngoing (delegates u (m_delegate a)) \<and> \<not> m_isTimeResetOngoing (delegates u (m_delegate a)) \<and>
       handleSourceFlushed sid u = u \<and>
       m_playbackInfo (notifyPlaybackInfo info u) =
         (if \<exists>k. k \<noteq> sid \<and> flushState (source_state (m_flushAndDataSynchronizer v) k) = FLUSHING
          then m_playbackInfo u else info)"
proof -
  define t where "t = flush e sid r s"
  define v where "v = fold client_exec ops t"
  define u where "u = handleSourceFlushed sid v"
  have "under_flush sid (m_delegate a) v"
    unfolding v_def t_def by (rule under_flush_run [OF under_flush_started [OF assms(1-6)] assms(7)])
  then obtain b where b: "find_key (m_attachedSources v) sid = Some b" "m_isFlushing b" "m_delegate b = m_delegate a"
    "flushState (source_state (m_flushAndDataSynchronizer v) sid) = FLUSHING" "distinct (keys (m_flushAndDataSynchronizer v))"
    by (auto simp: under_flush_def)
  have u: "u = edit_sync (notifyFlushCompleted sid) (upd_delegate (m_delegate a) handleFlushCompleted
      (edit_source sid (\<lambda>a. a\<lparr>m_isFlushing := False\<rparr>) v))"
    using b by (simp add: u_def handleSourceFlushed_def)
  have again: "handleSourceFlushed sid u = u"
    using b by (simp add: handleSourceFlushed_def u)
  have "isAnySourceFlushing (m_flushAndDataSynchronizer u) \<longleftrightarrow>
      (\<exists>k. k \<noteq> sid \<and> flushState (source_state (m_flushAndDataSynchronizer v) k) = FLUSHING)"
    using b(5) by (auto simp: u isAnySourceFlushing_iff source_state_ops)
  moreover have "isAnySourceFlushing (m_flushAndDataSynchronizer v)" "\<not> waitIfRequired sid (m_flushAndDataSynchronizer v)"
    using b(4,5) by (auto simp: isAnySourceFlushing_iff waitIfRequired_iff)
  ultimately show ?thesis
    unfolding Let_def t_def [symmetric] v_def [symmetric] u_def [symmetric]
    using flush_attached(1) [OF assms(1,5,6)] again
    by (simp add: t_def notifyPlaybackInfo_def) (auto simp: u handleFlushCompleted_def)
qed

text \<open>During the flush the server asks for data, reports a position and the playback state, and the loop
  runs.\<close>

theorem flush_cycle_witness:
  "let s = demo_player CS_PLAYING CS_PLAYING PS_PLAYING GST_STATE_PLAYING GST_STATE_PLAYING;
       info = \<lparr>currentPosition = 7, pi_volume = 1\<rparr>;
       v = fold client_exec [Notify (O_notifyNeedMediaData 1 2 9), Thread (O_loop_round good_env),
         Notify (O_notifyPlaybackInfo info), Notify (O_notifyPlaybackState PS_PAUSED), Thread (O_loop_round good_env)]
         (flush good_env 1 True s)
   in notifyPlaybackInfo info v = v \<and> handleSourceFlushed 1 (handleSourceFlushed 1 v) = handleSourceFlushed 1 v"
proof -
  let ?s = "demo_player CS_PLAYING CS_PLAYING PS_PLAYING GST_STATE_PLAYING GST_STATE_PLAYING"
  have "own_requests ?s" "queueMessages ?s = []"
    by (simp_all add: demo_player_def client.defs GStreamerMSEMediaPlayerClient_def own_requests_def new_source_def)
  then show ?thesis
    using flush_cycle [of ?s 1 "(new_source MST_AUDIO 0)\<lparr>m_state := CS_PLAYING\<rparr>" good_env True True
        "[Notify (O_notifyNeedMediaData 1 2 9), Thread (O_loop_round good_env),
          Notify (O_notifyPlaybackInfo \<lparr>currentPosition = 7, pi_volume = 1\<rparr>), Notify (O_notifyPlaybackState PS_PAUSED),
          Thread (O_loop_round good_env)]" "\<lparr>currentPosition = 7, pi_volume = 1\<rparr>"]
    by (simp add: Let_def good_env_def del: client_exec.simps)
qed

end
