(* ===== verification/Session_Requests.thy ===== *)
theory Session_Requests
  imports Client_Requests Sink_Properties
begin

text \<open>
  The requests for data in the running system. \<open>Client_Requests\<close> follows a request through one client
  that is driven by any sequence of operations; here the client belongs to a session of a process
  with any number of pipelines and sinks, and a run is labelled by what the server and the worker
  threads did to which client. GStreamer's calls are not labelled: none of them asks for data.
\<close>

section \<open>Labelled runs\<close>

inductive sink_run :: "(nat \<times> client_op) list \<Rightarrow> world \<Rightarrow> world \<Rightarrow> bool" where
  run_start: "sink_run [] w w"
| run_gst: "sink_run ops w w1 \<Longrightarrow> gst_step w1 w2 \<Longrightarrow> sink_run ops w w2"
| run_client: "sink_run ops w w1 \<Longrightarrow> world_allowed w1 (W_client c op) \<Longrightarrow>
     sink_run (ops @ [(c, op)]) w (do_client c (client_exec op) w1)"

lemma sink_run_steps: "sink_run ops w w' \<Longrightarrow> sink_step\<^sup>*\<^sup>* w w'"
  by (induction rule: sink_run.induct)
    (blast intro: sink_gst sink_client rtranclp.rtrancl_into_rtrancl)+

lemma sink_steps_run: "sink_step\<^sup>*\<^sup>* w w' \<Longrightarrow> \<exists>ops. sink_run ops w w'"
  by (induction rule: rtranclp_induct) (auto elim!: sink_step.cases intro: sink_run.intros)

section \<open>The requests of every session\<close>

text \<open>The requests with the id \<open>i\<close> that the server made of the client \<open>c\<close>.\<close>

definition requests_for :: "nat \<Rightarrow> u32 \<Rightarrow> (nat \<times> client_op) list \<Rightarrow> nat" where
  "requests_for c i ops = length (filter (\<lambda>(d, op). d = c \<and> asks i op) ops)"

lemma requests_for_simps [simp]:
  "requests_for c i [] = 0"
  "requests_for c i (ops @ [(d, op)]) = requests_for c i ops + (if d = c \<and> asks i op then 1 else 0)"
  by (simp_all add: requests_for_def)

text \<open>The invariant of \<open>Client_Requests\<close>, with a number of requests for each client.\<close>

definition requested :: "(nat \<Rightarrow> nat) \<Rightarrow> u32 \<Rightarrow> nat \<Rightarrow> player \<Rightarrow> bool" where
  "requested n i c s \<longleftrightarrow> requests_inv (n c) 0 i s"

lemma requests_inv_client: "client.truncate s = client.truncate t \<Longrightarrow> requests_inv n c i s \<Longrightarrow> requests_inv n c i t"
  by (simp add: requests_inv_def at_most_def client.defs)

lemma requests_inv_new:
  assumes "client_start s" "createBackend e s = (True, t)"
  shows "requests_inv n 0 i t"
proof -
  have "requests_inv 0 0 i t"
    using requests_exec [OF requests_start [OF assms(1)], of i "Playback (O_createBackend e)"] assms(2) by simp
  then show ?thesis by (rule requests_more) simp
qed

interpretation requests: session_property "requested n i" "\<lambda>s op. \<not> asks i op" for n i
proof unfold_locales
  show "requested n i c (client_exec op s)" if "requested n i c s" "\<not> asks i op" for c op s
    using requests_exec [OF that(1) [unfolded requested_def], of op] that(2) by (simp add: requested_def)
qed (auto simp: requested_def intro: requests_inv_client requests_inv_new)

lemma asks_from_server: "asks i op \<Longrightarrow> from_server op"
  by (cases "(i, op)" rule: asks.cases) simp_all

lemma requests_quiet:
  assumes "quiet_step\<^sup>*\<^sup>* w w'" "manager_inv w" "all_sessions (requested n i) w"
  shows "manager_inv w' \<and> all_sessions (requested n i) w'"
  using assms
proof induction
  case (step w1 w2)
  then obtain op where op: "world_allowed w1 op" "\<And>c x. op = W_client c x \<Longrightarrow> \<not> from_server x" "w2 = world_exec op w1"
    by (auto simp: quiet_step_def)
  have "\<not> asks i x" if "op = W_client c x" for c x using op(2) [OF that] asks_from_server by blast
  with step op show ?case by (auto intro: manager_inv_exec requests.sessions_exec)
qed simp

text \<open>A request of the server raises the number of its client.\<close>

lemma requests_client:
  assumes "all_sessions (requested n i) w"
  shows "all_sessions (requested (n(c := n c + (if asks i op then 1 else 0))) i) (do_client c (client_exec op) w)"
  unfolding all_sessions_def
proof (intro allI impI)
  fix p and k :: MediaPlayerClientInfo
  let ?w = "do_client c (client_exec op) w"
  let ?d = "mi_client k"
  assume "find_key (m_mediaPlayerClientsInfo ?w) p = Some k"
  then have ok: "requests_inv (n ?d) 0 i (player_of ?d w)"
    using assms by (simp add: all_sessions_def requested_def)
  show "requested (n(c := n c + (if asks i op then 1 else 0))) i ?d (player_of ?d ?w)"
  proof (cases "?d = c")
    case True
    then have "requests_inv (n c + (if asks i op then 1 else 0)) 0 i (client_exec op (player_of c w))"
      using requests_exec [OF ok, of op] by (simp split: if_splits)
    then have "requests_inv (n c + (if asks i op then 1 else 0)) 0 i (player_of c ?w)"
      by (rule requests_inv_client [rotated]) (simp add: player_of_def [of c ?w] truncate_extend)
    with True show ?thesis by (simp add: requested_def)
  next
    case False
    then have "w_clients ?w ?d = w_clients w ?d" by (simp add: do_client_def put_player_def)
    then have "requests_inv (n ?d) 0 i (player_of ?d ?w)"
      by (intro requests_inv_client [OF _ ok]) (simp add: player_of_def truncate_extend)
    with False show ?thesis by (simp add: requested_def)
  qed
qed

lemma requests_sink_run:
  assumes "sink_run ops w w'" "manager_inv w" "all_sessions (requested (\<lambda>c. 0) i) w"
  shows "manager_inv w' \<and> all_sessions (requested (\<lambda>c. requests_for c i ops) i) w'"
  using assms
proof induction
  case (run_gst ops w w1 w2)
  then have "manager_inv w1" "all_sessions (requested (\<lambda>c. requests_for c i ops) i) w1" by simp_all
  with run_gst(2) show ?case by (intro requests_quiet [OF gst_step_sequence])
next
  case (run_client ops w w1 c op)
  have "(\<lambda>d. requests_for d i (ops @ [(c, op)])) =
      (\<lambda>d. requests_for d i ops)(c := requests_for c i ops + (if asks i op then 1 else 0))"
    by (auto simp del: fun_upd_apply simp: fun_upd_def)
  with run_client requests_client [of "\<lambda>d. requests_for d i ops" i w1 c op] manager_inv_exec [of w1 "W_client c op"]
  show ?case by (simp del: requests_for_simps(2))
qed (simp add: requested_def all_sessions_def)

section \<open>Properties\<close>

text \<open>
  C4. The server gets what it asked for and no more, in every session. Whatever GStreamer calls on
  the sinks of a process, with any number of pipelines, and whatever the server and the worker threads
  do in between: the client of a pipeline answers a request for data at most as often as the server
  made it of this client, it makes no call for data for a request that was not made of it, and for a
  request that was made once the server sees its segments first and the answer, if any, last.
\<close>

theorem sessions_answer_requests_once:
  fixes i :: u32
  assumes "world_start w0" "sink_run ops w0 w" "find_key (m_mediaPlayerClientsInfo w) p = Some k"
  defines "requests \<equiv> requests_for (mi_client k) i ops" and "cs \<equiv> data_calls i (calls (w_clients w (mi_client k)))"
  shows "count_list cs True \<le> requests \<and> (requests = 0 \<longrightarrow> cs = []) \<and>
    (requests = 1 \<longrightarrow> (\<exists>m. cs = replicate m False \<or> cs = replicate m False @ [True]))"
proof -
  have "all_sessions (requested (\<lambda>c. requests_for c i ops) i) w"
    using requests_sink_run [OF assms(2)] world_start_inv [OF assms(1)] by blast
  then have "requests_inv requests 0 i (player_of (mi_client k) w)"
    using assms(3) by (simp add: all_sessions_def requested_def requests_def)
  then show ?thesis using no_answer_before [of cs] by (simp add: requests_inv_def at_most_def cs_def)
qed

text \<open>A sink attaches its source, and the server asks its client for data once.\<close>

definition session_ops :: "client_op list" where
  "session_ops = [Sources (O_attachSource good_env demo_audio 0), Notify (O_notifyNeedMediaData 1 5 9),
     Thread (O_loop_round good_env), Thread (O_puller_step good_env 1), Thread (O_loop_round good_env)]"

lemma sink_run_ops:
  assumes "sink_run ops w w1" "\<forall>x \<in> set xs. ordinary x"
  shows "sink_run (ops @ map (Pair 0) xs) w (session_run xs w1)"
  using assms
proof (induction xs arbitrary: ops w1)
  case (Cons x xs)
  then have "sink_run (ops @ [(0, x)]) w (do_client 0 (client_exec x) w1)" by (intro run_client) simp_all
  from Cons.IH [OF this] Cons.prems show ?case by simp
qed simp

theorem sessions_answer_requests_once_witness:
  "count_list (data_calls 9 (calls (w_clients (session_run session_ops paused_sink) 0))) True \<le> 1 \<and>
   data_calls 8 (calls (w_clients (session_run session_ops paused_sink) 0)) = []"
proof -
  have "sink_run [] empty_world paused_sink"
    using run_gst [OF run_gst [OF run_start one_sink_steps(3)] one_sink_steps(4)] .
  then have run: "sink_run ([] @ map (Pair 0) session_ops) empty_world (session_run session_ops paused_sink)"
    by (rule sink_run_ops) (simp add: session_ops_def)
  have p: "find_key (m_mediaPlayerClientsInfo (session_run session_ops paused_sink)) (Some 7) =
      Some \<lparr>mi_client = 0, mi_controller = Some 0, mi_refCount = 1\<rparr>"
    using paused_sink_simps(3) by (simp only: session_run_infos)
  show ?thesis
    using sessions_answer_requests_once [OF empty_world_start run p, of 9]
      sessions_answer_requests_once [OF empty_world_start run p, of 8]
    by (simp add: session_ops_def requests_for_def)
qed

end
