(* ===== verification/Puller_Races.thy ===== *)
theory Puller_Races
  imports Sink_Queue
begin

text \<open>
  The rest of the development runs a request of a puller as one step. The puller has a thread of its own,
  which takes the locks of the delegate and of the synchronizer one at a time, and a flush on another
  thread can come in between. Here the handler of \<open>PullBufferMessage\<close> is cut at these places: the
  parts together are the handler, and two interleavings of them with a flush show what it does not
  expect.
\<close>

section \<open>The handler in parts\<close>

text \<open>From the sample that \<open>getFrontSample\<close> gave to \<open>addSegment\<close>: the status, or none for a buffer that
  cannot be mapped. The result \<open>None\<close> is the exception of the parser.\<close>

definition send_sample :: "env \<Rightarrow> BufferParser \<Rightarrow> PullBufferMessage \<Rightarrow> nat \<Rightarrow> GstSample \<Rightarrow> player \<Rightarrow>
    (AddSegmentStatus option \<times> player) option" where
  "send_sample e parser msg k sample s =
     (case gst_buffer_map (sample_buffer sample) of
        None \<Rightarrow> Some (None, s)
      | Some mapped \<Rightarrow>
          (case parseBuffer parser sample (sample_buffer sample) mapped (pb_sourceId msg) of
             Inl _ \<Rightarrow> None
           | Inr mseData \<Rightarrow>
               (let status = be_addSegment e k (pb_needDataRequestId msg) mseData
                in Some (Some status, call (B_addSegment (pb_needDataRequestId msg) mseData status) s))))"

text \<open>After the loop: the synchronizer is notified and the answer posted.\<close>

definition pull_answer :: "PullBufferMessage \<Rightarrow> MediaSourceStatus \<Rightarrow> player \<Rightarrow> player" where
  "pull_answer msg status s =
     post (HaveDataMessage status (pb_sourceId msg) (pb_needDataRequestId msg))
       (if status = MSS_OK \<or> status = MSS_EOS then edit_sync (notifyDataPushed (pb_sourceId msg)) s else s)"

lemma pull_loop_in_parts:
  assumes "isReadyToSendData (delegates s h)" "getFrontSample (delegates s h) = Some sample"
  shows "pull_loop e parser msg h (Suc n) k added s =
    (case send_sample e parser msg k sample s of
       None \<Rightarrow> None
     | Some (status, s1) \<Rightarrow>
         if status = Some ASS_NO_SPACE then Some (False, added, s1)
         else pull_loop e parser msg h n (Suc k) (if status = None then added else Suc added)
                (upd_delegate h popSample s1))"
  using assms by (simp add: send_sample_def Let_def split: option.splits sum.splits)

lemma pull_in_parts:
  "handle_PullBufferMessage e parser h msg s =
    map_option (\<lambda>(eos, added, u). pull_answer msg (pull_status eos added) u)
      (pull_loop e parser msg h (pb_frameCount msg) 0 0 s)"
  by (auto simp: handle_PullBufferMessage_def pull_answer_def Let_def split: option.splits)

section \<open>A push ends a flush that the server has not finished\<close>

lemma pull_answer_frame [simp]:
  "m_attachedSources (pull_answer msg status s) = m_attachedSources s" "calls (pull_answer msg status s) = calls s"
  "live (pull_answer msg status s) = live s"
  by (simp_all add: pull_answer_def)

lemma pull_answer_sync:
  "status = MSS_OK \<or> status = MSS_EOS \<Longrightarrow>
   m_flushAndDataSynchronizer (pull_answer msg status s) =
     notifyDataPushed (pb_sourceId msg) (m_flushAndDataSynchronizer s)"
  by (auto simp: pull_answer_def)

lemma pushed_over_flush:
  assumes "distinct (keys m)" "\<not> isAnySourceFlushing m" "waitIfRequired k m"
  shows "\<not> isAnySourceFlushing (notifyDataPushed k (notifyFlushStarted k m))"
    "waitIfRequired k (notifyDataPushed k (notifyFlushStarted k m))"
    "isAnySourceFlushing (notifyFlushStarted k (notifyDataPushed k m))"
    "\<not> waitIfRequired k (notifyFlushStarted k (notifyDataPushed k m))"
  using assms flushing_after_start [of "notifyDataPushed k m" k]
  by (auto simp: isAnySourceFlushing_iff waitIfRequired_iff source_state_ops)

text \<open>
  C19. A flush can be forgotten while the server is still at it. The puller has delivered samples and is
  about to notify the synchronizer when another thread flushes the source; the server takes the flush
  and has not finished it. When the puller goes on, the synchronizer reports no flush, although the source
  is being flushed: a position of the time before the flush is taken over, and the next flush of the
  source does not wait. Had the puller gone on first, positions would be dropped and the next flush
  would wait.
\<close>

theorem push_forgets_flush:
  assumes "live s" "distinct (keys (m_flushAndDataSynchronizer s))"
    and "find_key (m_attachedSources s) (pb_sourceId msg) = Some a"
    and "\<not> isAnySourceFlushing (m_flushAndDataSynchronizer s)"
    and "waitIfRequired (pb_sourceId msg) (m_flushAndDataSynchronizer s)"
    and "pull_loop e parser msg h (pb_frameCount msg) 0 0 s = Some (eos, added, u)" "eos \<or> 0 < added"
    and "be_flush e' (pb_sourceId msg) r = (True, async)"
  defines "k \<equiv> pb_sourceId msg"
  shows "let v = pull_answer msg (pull_status eos added) (flush e' k r u);
             v' = flush e' k r (the (handle_PullBufferMessage e parser h msg s))
    in calls v = calls u @ [B_flush k r] \<and>
       (\<exists>b. find_key (m_attachedSources v) k = Some b \<and> m_isFlushing b) \<and>
       notifyPlaybackInfo info v = v\<lparr>m_playbackInfo := info\<rparr> \<and>
       waitIfRequired k (m_flushAndDataSynchronizer v) \<and>
       notifyPlaybackInfo info v' = v' \<and> \<not> waitIfRequired k (m_flushAndDataSynchronizer v')"
proof -
  obtain m took refused where "pull_effect parser k h s m took refused u"
    using pull_loop_effect [OF assms(6)] unfolding k_def by blast
  then have u: "live u" "m_attachedSources u = m_attachedSources s"
    "m_flushAndDataSynchronizer u = m_flushAndDataSynchronizer s"
    using assms(1) by (auto simp: pull_effect_def live_def)
  let ?st = "pull_status eos added" and ?m = "m_flushAndDataSynchronizer s"
  have st: "?st = MSS_OK \<or> ?st = MSS_EOS" using assms(7) by (auto simp: pull_status_def)
  have h: "the (handle_PullBufferMessage e parser h msg s) = pull_answer msg ?st u"
    by (simp add: pull_in_parts assms(6))
  note over = pushed_over_flush [OF assms(2,4,5), folded k_def]
  have v: "calls (flush e' k r u) = calls u @ [B_flush k r]"
    "\<exists>b. find_key (m_attachedSources (flush e' k r u)) k = Some b \<and> m_isFlushing b"
    "m_flushAndDataSynchronizer (flush e' k r u) = notifyFlushStarted k ?m"
    using flush_attached [OF u(1), of k a e' r async] assms(3,8) u(2,3) unfolding k_def by auto
  have v': "m_flushAndDataSynchronizer (flush e' k r (pull_answer msg ?st u)) =
      notifyFlushStarted k (notifyDataPushed k ?m)"
    using flush_attached(3) [of "pull_answer msg ?st u" k a e' r async] assms(3,8) u pull_answer_sync [OF st, of msg u]
    unfolding k_def by simp
  show ?thesis
    unfolding Let_def h using v v' over pull_answer_sync [OF st, of msg "flush e' k r u"]
    by (simp add: notifyPlaybackInfo_def k_def)
qed

section \<open>The puller takes a sample that it has not sent\<close>

lemma send_sample_frame:
  "send_sample e parser msg k x s = Some (st, t) \<Longrightarrow> delegates t = delegates s"
  by (auto simp: send_sample_def Let_def split: option.splits sum.splits)

lemma send_named_sample:
  assumes "named_caps x" "mappable x"
  obtains st seg where "send_sample e parser msg k x s = Some (Some st, call (B_addSegment (pb_needDataRequestId msg) seg st) s)"
proof -
  obtain seg where "parsed parser (pb_sourceId msg) x = Inr seg" using named_parsed [OF assms(1)] by blast
  with assms(2) that show ?thesis by (simp add: send_sample_def pull_loop_map parsed_def Let_def)
qed

lemma flush_offered: "offered (calls (flush e k r s)) = offered (calls s)"
  by (auto simp: flush_def in_loop_def flush_in_loop_def Let_def split: option.splits prod.splits)

lemma notify_data_calls: "calls (w_clients (notify_data h w) c) = calls (w_clients w c)"
proof (cases "getMediaPlayerClient h w")
  case (Some d)
  then show ?thesis by (cases "d = c") (simp_all add: notify_data_def do_client_def player_of_put_other [symmetric],
    simp_all add: put_player_def)
qed (simp add: notify_data_def)

text \<open>
  C20. A buffer can be lost after a flush. The puller has sent the sample at the front and not yet removed
  it when a flush comes: FLUSH\_START empties the queue, FLUSH\_STOP flushes the server, and the first buffer
  after the flush is accepted. When the puller goes on, it removes that buffer: it reported
  \<open>GST_FLOW_OK\<close> and was never offered to the server.
\<close>

theorem pop_loses_new_buffer:
  assumes "getMediaPlayerClient h w = Some c" "\<not> m_isSinkFlushOngoing (w_delegates w h)"
    and "getFrontSample (w_delegates w h) = Some x"
    and "send_sample e parser msg k x (player_of c w) = Some (st, s1)"
    and "startFlushing h (put_player c s1 w) = Returns w1" "sample_created g"
  shows "let w2 = stopFlushing g h r w1; w3 = snd (handleBuffer_woken g h b w2); w4 = upd_d h popSample w3
    in handleBuffer g h b w2 = Returns (GST_FLOW_OK, w3) \<and>
       map sample_buffer (m_samples (w_delegates w3 h)) = [b] \<and> m_samples (w_delegates w4 h) = [] \<and>
       offered (calls (player_of c w4)) = offered (calls s1)"
proof -
  let ?w = "put_player c s1 w"
  define w2 where "w2 = stopFlushing g h r w1"
  define w3 where "w3 = snd (handleBuffer_woken g h b w2)"
  define w4 where "w4 = upd_d h popSample w3"
  have d: "w_delegates ?w = w_delegates w" using send_sample_frame [OF assms(4)] by (simp add: put_player_def)
  have c: "getMediaPlayerClient h ?w = Some c"
    using assms(1) get_client_cong [of ?w h w] d by (simp add: the_manager_def put_player_def)
  have w1: "w1 = upd_d h (\<lambda>d. clearBuffersUnlocked (d\<lparr>m_isEos := False, m_isSinkFlushOngoing := True, m_segmentSet := False\<rparr>)) ?w"
    using assms(2,5) c d by (auto simp: startFlushing_def startFlushing_unblocked_def split: if_splits)
  have c1: "getMediaPlayerClient h w1 = Some c"
    using c by (simp add: w1 keeps_manager_def clearBuffersUnlocked_def setLastBuffer_def)
  have d2: "m_samples (w_delegates w2 h) = []" "\<not> m_isSinkFlushOngoing (w_delegates w2 h)"
    using stopFlushing_delegate [OF c1, of g r] by (simp_all add: w2_def w1 clearBuffersUnlocked_def setLastBuffer_def)
  have d3: "m_samples (w_delegates w3 h) = [new_sample (w_delegates w2 h) b]"
    using d2 assms(6) by (simp add: w3_def handleBuffer_woken_def setLastBuffer_def)
  have p1: "calls (w_clients w1 c) = calls s1" by (simp add: w1 put_player_def)
  have p2: "offered (calls (w_clients w2 c)) = offered (calls s1)"
    using c1 p1 by (simp add: w2_def stopFlushing_def flushServer_def Let_def flush_offered)
  have p4: "calls (w_clients w4 c) = calls (w_clients w2 c)"
    using d2 by (simp add: w4_def w3_def handleBuffer_woken_def notify_data_calls)
  have r: "handleBuffer g h b w2 = Returns (GST_FLOW_OK, w3)"
    using d2 by (simp add: w3_def handleBuffer_def handleBuffer_woken_def kMaxInternalBuffersQueueSize_def)
  have "map sample_buffer (m_samples (w_delegates w3 h)) = [b]" "m_samples (w_delegates w4 h) = []"
    using d3 by (simp_all add: w4_def new_sample_def popSample_def)
  then show ?thesis
    unfolding Let_def w2_def [symmetric] w3_def [symmetric] w4_def [symmetric] using r p2 p4 by simp
qed

theorem push_forgets_flush_witness:
  "\<exists>eos added u. pull_loop good_env AudioBufferParser (data_request 5) 0 5 0 0 data_player = Some (eos, added, u) \<and>
     (let v = pull_answer (data_request 5) (pull_status eos added) (flush good_env 1 True u)
      in waitIfRequired 1 (m_flushAndDataSynchronizer v) \<and>
         (\<exists>b. find_key (m_attachedSources v) 1 = Some b \<and> m_isFlushing b))"
proof -
  obtain eos added u where loop: "pull_loop good_env AudioBufferParser (data_request 5) 0 5 0 0 data_player = Some (eos, added, u)"
    using pull_loop_total [of data_player 0 good_env AudioBufferParser "data_request 5" 5 0 0] by auto
  have "eos" using pull_loop_complete [OF loop] by (simp add: good_env_def)
  have sid: "pb_sourceId (data_request 5) = 1" "pb_frameCount (data_request 5) = 5" by (simp_all add: data_request_def)
  have sync: "m_flushAndDataSynchronizer data_player = []"
    by (simp add: data_player_def demo_player_def client.defs GStreamerMSEMediaPlayerClient_def)
  obtain a where a: "find_key (m_attachedSources data_player) 1 = Some a"
    by (simp add: data_player_def demo_player_def)
  have "be_flush good_env 1 True = (True, True)" "\<not> isAnySourceFlushing []" "waitIfRequired 1 []"
    by (simp_all add: good_env_def isAnySourceFlushing_def waitIfRequired_def)
  with push_forgets_flush [of data_player "data_request 5" a good_env AudioBufferParser 0 eos added u good_env True True]
    loop \<open>eos\<close> a
  show ?thesis
    by (intro exI [of _ eos] exI [of _ added] exI [of _ u]) (auto simp: sid sync Let_def)
qed

text \<open>A sink in PAUSED whose queue holds one sample.\<close>

definition sending_sink :: world where
  "sending_sink = upd_d 0 (\<lambda>d. d\<lparr>m_samples := [data_sample True 1]\<rparr>) paused_sink"

theorem pop_loses_new_buffer_witness:
  "\<exists>st s1 w1. send_sample good_env AudioBufferParser (data_request 5) 0 (data_sample True 1) (player_of 0 sending_sink) = Some (st, s1) \<and>
     startFlushing 0 (put_player 0 s1 sending_sink) = Returns w1 \<and>
     (let w2 = stopFlushing demo_gst 0 True w1; w3 = snd (handleBuffer_woken demo_gst 0 (demo_buffer None [1]) w2)
      in handleBuffer demo_gst 0 (demo_buffer None [1]) w2 = Returns (GST_FLOW_OK, w3) \<and>
         m_samples (w_delegates (upd_d 0 popSample w3) 0) = [])"
proof -
  have d: "\<not> m_isSinkFlushOngoing (w_delegates sending_sink 0)"
    "getFrontSample (w_delegates sending_sink 0) = Some (data_sample True 1)"
    unfolding sending_sink_def paused_sink_value
    by (simp_all add: getFrontSample_def postAsyncStart_def upd_sink_def one_sink_def new_delegate_def
        demo_sinks_def demo_delegates_def PullModePlaybackDelegate_def)
  have c: "getMediaPlayerClient 0 sending_sink = Some 0"
    unfolding sending_sink_def by (simp add: paused_sink_simps(1) keeps_manager_def)
  obtain st seg where s1: "send_sample good_env AudioBufferParser (data_request 5) 0 (data_sample True 1)
      (player_of 0 sending_sink) = Some (Some st, call (B_addSegment (pb_needDataRequestId (data_request 5)) seg st) (player_of 0 sending_sink))"
    by (rule send_named_sample [of "data_sample True 1" good_env AudioBufferParser "data_request 5" 0 "player_of 0 sending_sink"])
      simp_all
  let ?s1 = "call (B_addSegment (pb_needDataRequestId (data_request 5)) seg st) (player_of 0 sending_sink)"
  have clients: "w_clients sending_sink = w_clients paused_sink"
    and m: "manager_of ?s1 = manager_of (player_of 0 sending_sink)"
    by (simp_all add: sending_sink_def manager_of_def [abs_def])
  have "waitIfRequired k (m_flushAndDataSynchronizer (w_clients paused_sink 0))" for k
    unfolding paused_sink_value
    by (simp add: handleStreamCollection_def in_loop_def used_world_def demo_client_def GStreamerMSEMediaPlayerClient_def
        waitIfRequired_def source_state_def default_state_def)
  moreover have "getMediaPlayerClient 0 (put_player 0 ?s1 sending_sink) = Some 0"
    using c get_client_cong [of "put_player 0 ?s1 sending_sink" 0 sending_sink] m by simp
  ultimately obtain w1 where w1: "startFlushing 0 (put_player 0 ?s1 sending_sink) = Returns w1"
    by (simp add: startFlushing_def put_player_def clients)
  show ?thesis
    using pop_loses_new_buffer [OF c d s1 w1, of demo_gst True "demo_buffer None [1]"] s1 w1
    by (auto simp: demo_gst_def Let_def)
qed

end
