(* ===== verification/Web_Audio_Client.thy ===== *)
theory Web_Audio_Client
  imports Pull_Delegate
begin

text \<open>
  \<open>GStreamerWebAudioPlayerClient.cpp\<close> with \<open>WebAudioClientBackend.h\<close>: the client of a web audio player,
  which pushes PCM buffers to the server as space becomes available.

  The queue \<open>m_backendQueue\<close> runs from the constructor to the destructor, so that a call in the event
  loop is made at once. What the client asks of the server is recorded in \<open>wa_calls\<close>; an answer may depend
  on everything asked before. \<open>gst_buffer_resize\<close> and \<open>gst_buffer_append\<close> are GStreamer's.
  A loop that never ends has the value \<open>None\<close>.
\<close>

section \<open>Data\<close>

record WebAudioPcmConfig =
  pcm_rate :: u32
  pcm_channels :: u32
  pcm_sampleSize :: u32
  pcm_isBigEndian :: bool
  pcm_isSigned :: bool
  pcm_isFloat :: bool

datatype wa_call =
    W_create string u32 WebAudioPcmConfig | W_destroy | W_getDeviceInfo | W_play | W_pause | W_setEos
  | W_getBufferAvailable | W_writeBuffer u32 "u8 list" | W_setVolume real | W_getVolume

record wa_env =
  wa_create :: "wa_call list \<Rightarrow> bool"
  wa_getDeviceInfo :: "wa_call list \<Rightarrow> bool \<times> u32 \<times> u32 \<times> bool"
  wa_play :: "wa_call list \<Rightarrow> bool"
  wa_pause :: "wa_call list \<Rightarrow> bool"
  wa_setEos :: "wa_call list \<Rightarrow> bool"
  wa_getBufferAvailable :: "wa_call list \<Rightarrow> bool \<times> u32"
  wa_writeBuffer :: "wa_call list \<Rightarrow> bool"
  wa_setVolume :: "wa_call list \<Rightarrow> bool"
  wa_getVolume :: "wa_call list \<Rightarrow> bool \<times> real"
  gst_buffer_resize :: "GstBuffer \<Rightarrow> nat \<Rightarrow> u32 \<Rightarrow> GstBuffer"
  gst_buffer_append :: "GstBuffer \<Rightarrow> GstBuffer \<Rightarrow> GstBuffer"

record web_client =
  m_isOpen :: bool
  m_dataBuffers :: "GstBuffer list"
  m_pushSamplesTimer :: bool
  m_preferredFrames :: u32
  m_maximumFrames :: u32
  m_supportDeferredPlay :: bool
  web_isEos :: bool
  m_frameSize :: u32
  m_mimeType :: string
  m_config :: WebAudioPcmConfig
  wa_calls :: "wa_call list"

definition default_pcm :: WebAudioPcmConfig where
  "default_pcm = \<lparr>pcm_rate = 0, pcm_channels = 0, pcm_sampleSize = 0, pcm_isBigEndian = False, pcm_isSigned = False,
     pcm_isFloat = False\<rparr>"

definition GStreamerWebAudioPlayerClient :: web_client where
  "GStreamerWebAudioPlayerClient =
     \<lparr>m_isOpen = False, m_dataBuffers = [], m_pushSamplesTimer = False, m_preferredFrames = 0, m_maximumFrames = 0,
      m_supportDeferredPlay = False, web_isEos = False, m_frameSize = 0, m_mimeType = [], m_config = default_pcm,
      wa_calls = []\<rparr>"

definition ask :: "wa_call \<Rightarrow> web_client \<Rightarrow> web_client" where
  "ask c s = s\<lparr>wa_calls := wa_calls s @ [c]\<rparr>"

definition gst_buffer_get_size :: "GstBuffer \<Rightarrow> nat" where
  "gst_buffer_get_size b = length (buffer_bytes b)"

section \<open>Opening and closing\<close>

text \<open>Sample size, big endian, signed, float; \<open>None\<close> when the format is not supported. \<open>strtoul\<close> gives 0
  where there is no number.\<close>

definition parseGstStructureFormat :: "string \<Rightarrow> (u32 \<times> bool \<times> bool \<times> bool) option" where
  "parseGstStructureFormat format =
     (if length format \<noteq> 5 then None
      else (let sampleSize = (case scan_uint (take 2 (drop 1 format)) of None \<Rightarrow> 0 | Some (v, _) \<Rightarrow> v);
                isBigEndian = (drop 3 format = ''BE'')
            in if format ! 0 = CHR ''S'' then Some (sampleSize, isBigEndian, True, False)
               else if format ! 0 = CHR ''U'' then Some (sampleSize, isBigEndian, False, False)
               else if format ! 0 = CHR ''F'' then Some (sampleSize, isBigEndian, False, True)
               else None))"

definition isNewConfig :: "string \<Rightarrow> WebAudioPcmConfig \<Rightarrow> web_client \<Rightarrow> bool" where
  "isNewConfig audioMimeType config s =
     (if audioMimeType \<noteq> m_mimeType s then True
      else if audioMimeType \<noteq> ''audio/x-raw'' then True
      else config \<noteq> m_config s)"

definition open_in_loop :: "wa_env \<Rightarrow> string \<Rightarrow> WebAudioPcmConfig \<Rightarrow> web_client \<Rightarrow> bool \<times> web_client" where
  "open_in_loop e audioMimeType pcm s =
     (if \<not> m_isOpen s \<or> isNewConfig audioMimeType pcm s
      then (let s1 = (if m_isOpen s then ask W_destroy s else s);
                created = wa_create e (wa_calls s1);
                s2 = ask (W_create audioMimeType 1 pcm) s1;
                s3 = (if created
                      then (case wa_getDeviceInfo e (wa_calls s2) of
                              (ok, preferredFrames, maximumFrames, supportDeferredPlay) \<Rightarrow>
                                (ask W_getDeviceInfo s2)\<lparr>
                                  m_preferredFrames := if ok then preferredFrames else m_preferredFrames s2,
                                  m_maximumFrames := if ok then maximumFrames else m_maximumFrames s2,
                                  m_supportDeferredPlay := if ok then supportDeferredPlay else m_supportDeferredPlay s2,
                                  m_frameSize := (pcm_sampleSize pcm * pcm_channels pcm) div 8,
                                  m_isOpen := True, m_config := pcm, m_mimeType := audioMimeType\<rparr>)
                      else s2\<lparr>m_isOpen := False\<rparr>)
            in (m_isOpen s3, s3))
      else (False, s))"

definition web_open :: "wa_env \<Rightarrow> GstCaps \<Rightarrow> web_client \<Rightarrow> (bool \<times> web_client) outcome" where
  "web_open e caps s =
     (let structure = caps_structure caps
      in case gst_structure_get_name structure of
           None \<Rightarrow> Faults Null_String
         | Some name \<Rightarrow>
             (let audioMimeType = takeWhile (\<lambda>ch. ch \<noteq> CHR '' '') name;
                  format = (case gst_structure_get_string structure ''format'' of None \<Rightarrow> [] | Some f \<Rightarrow> f)
              in Returns
                   (if format = [] then (False, s)
                    else case gst_structure_get_int structure ''rate'' of
                           None \<Rightarrow> (False, s)
                         | Some rate \<Rightarrow>
                             (case gst_structure_get_int structure ''channels'' of
                                None \<Rightarrow> (False, s)
                              | Some channels \<Rightarrow>
                                  (case parseGstStructureFormat format of
                                     None \<Rightarrow> (False, s)
                                   | Some (sampleSize, isBigEndian, isSigned, isFloat) \<Rightarrow>
                                       open_in_loop e audioMimeType
                                         \<lparr>pcm_rate = of_int rate, pcm_channels = of_int channels,
                                          pcm_sampleSize = sampleSize, pcm_isBigEndian = isBigEndian,
                                          pcm_isSigned = isSigned, pcm_isFloat = isFloat\<rparr> s)))))"

definition web_close :: "web_client \<Rightarrow> bool \<times> web_client" where
  "web_close s = (True, (ask W_destroy s)\<lparr>m_pushSamplesTimer := False, m_isOpen := False\<rparr>)"

definition web_play :: "wa_env \<Rightarrow> web_client \<Rightarrow> bool \<times> web_client" where
  "web_play e s = (if m_isOpen s then (wa_play e (wa_calls s), ask W_play s) else (False, s))"

definition web_pause :: "wa_env \<Rightarrow> web_client \<Rightarrow> bool \<times> web_client" where
  "web_pause e s = (if m_isOpen s then (wa_pause e (wa_calls s), ask W_pause s) else (False, s))"

definition isOpen :: "web_client \<Rightarrow> bool" where
  "isOpen s = m_isOpen s"

definition web_setVolume :: "wa_env \<Rightarrow> real \<Rightarrow> web_client \<Rightarrow> bool \<times> web_client" where
  "web_setVolume e volume s = (wa_setVolume e (wa_calls s), ask (W_setVolume volume) s)"

definition web_getVolume :: "wa_env \<Rightarrow> web_client \<Rightarrow> (bool \<times> real) \<times> web_client" where
  "web_getVolume e s = (wa_getVolume e (wa_calls s), ask W_getVolume s)"

section \<open>Pushing samples\<close>

text \<open>
  The part of a round that handles the front buffer when \<open>availableFrames\<close> is not zero. The size of the
  buffer is a \<open>gsize\<close>, the other numbers have 32 bits: \<open>framesToWrite * m_frameSize\<close> and
  \<open>availableFrames * m_frameSize\<close> wrap around, \<open>leftoverData\<close> keeps the low 32 bits of the difference.
\<close>

definition leftover :: "nat \<Rightarrow> u32 \<Rightarrow> u32 \<Rightarrow> u32" where
  "leftover bufferSize availableFrames frameSize = of_nat bufferSize - availableFrames * frameSize"

definition write_front :: "wa_env \<Rightarrow> u32 \<Rightarrow> GstBuffer \<Rightarrow> web_client \<Rightarrow> bool \<times> web_client" where
  "write_front e framesToWrite buffer s =
     (if framesToWrite > 0
      then (if \<not> buffer_maps buffer then (True, s)
            else (\<not> wa_writeBuffer e (wa_calls s),
                  ask (W_writeBuffer framesToWrite
                         (take (unat framesToWrite * unat (m_frameSize s)) (buffer_bytes buffer))) s))
      else (False, s))"

definition push_front :: "wa_env \<Rightarrow> u32 \<Rightarrow> GstBuffer \<Rightarrow> GstBuffer list \<Rightarrow> web_client \<Rightarrow> web_client" where
  "push_front e availableFrames buffer rest s =
     (let bufferSize = gst_buffer_get_size buffer;
          framesToWrite = min availableFrames (of_nat (bufferSize div unat (m_frameSize s)));
          (writeFailure, s1) = write_front e framesToWrite buffer s
      in if \<not> writeFailure \<and> unat (framesToWrite * m_frameSize s) < bufferSize
         then (let leftoverData = leftover bufferSize availableFrames (m_frameSize s);
                   buffer1 = gst_buffer_resize e buffer (unat (framesToWrite * m_frameSize s)) leftoverData
               in case rest of
                    nextBuffer # rest1 \<Rightarrow>
                      if leftoverData div m_frameSize s = 0
                      then s1\<lparr>m_dataBuffers := gst_buffer_append e buffer1 nextBuffer # rest1\<rparr>
                      else s1\<lparr>m_dataBuffers := buffer1 # rest\<rparr>
                  | [] \<Rightarrow> s1\<lparr>m_dataBuffers := [buffer1]\<rparr>)
         else s1\<lparr>m_dataBuffers := rest\<rparr>)"

text \<open>One round of the loop, with the value of \<open>availableFrames\<close> after it. A failed request for the
  available space empties the queue.\<close>

definition push_round :: "wa_env \<Rightarrow> web_client \<Rightarrow> fault + u32 \<times> web_client" where
  "push_round e s =
     (case wa_getBufferAvailable e (wa_calls s) of
        (False, _) \<Rightarrow> Inr (0, (ask W_getBufferAvailable s)\<lparr>m_dataBuffers := []\<rparr>)
      | (True, availableFrames) \<Rightarrow>
          if availableFrames = 0 then Inr (0, ask W_getBufferAvailable s)
          else (case m_dataBuffers s of
                  [] \<Rightarrow> Inl Empty_Queue
                | buffer # rest \<Rightarrow>
                    if m_frameSize s = 0 then Inl Division_By_Zero
                    else Inr (availableFrames,
                              push_front e availableFrames buffer rest (ask W_getBufferAvailable s))))"

partial_function (option) push_loop :: "wa_env \<Rightarrow> web_client \<Rightarrow> (fault + web_client) option" where
  "push_loop e s =
     (case push_round e s of
        Inl f \<Rightarrow> Some (Inl f)
      | Inr (availableFrames, s1) \<Rightarrow>
          if m_dataBuffers s1 \<noteq> [] \<and> availableFrames \<noteq> 0 then push_loop e s1 else Some (Inr s1))"

definition after_push :: "web_client \<Rightarrow> web_client" where
  "after_push s =
     (if m_dataBuffers s \<noteq> [] then s\<lparr>m_pushSamplesTimer := True\<rparr>
      else if web_isEos s then ask W_setEos s else s)"

definition pushSamples :: "wa_env \<Rightarrow> web_client \<Rightarrow> (fault + web_client) option" where
  "pushSamples e s =
     (if \<not> m_isOpen s \<or> m_dataBuffers s = [] then Some (Inr s)
      else map_option (map_sum id after_push) (push_loop e s))"

section \<open>Samples and end of stream\<close>

definition kMaxQueueSize :: nat where "kMaxQueueSize = 40"

text \<open>The part of \<open>notifyNewSample\<close> that runs in the event loop.\<close>

definition notifyNewSample_in_loop :: "wa_env \<Rightarrow> GstBuffer \<Rightarrow> web_client \<Rightarrow> (fault + web_client) option" where
  "notifyNewSample_in_loop e buf s =
     pushSamples e (s\<lparr>m_pushSamplesTimer := False, m_dataBuffers := m_dataBuffers s @ [buf]\<rparr>)"

definition notifyNewSample :: "wa_env \<Rightarrow> GstBuffer \<Rightarrow> web_client \<Rightarrow> (fault + web_client) option outcome" where
  "notifyNewSample e buf s =
     (if length (m_dataBuffers s) < kMaxQueueSize then Returns (notifyNewSample_in_loop e buf s) else Waits)"

definition notifyPushSamplesTimerExpired :: "wa_env \<Rightarrow> web_client \<Rightarrow> (fault + web_client) option" where
  "notifyPushSamplesTimerExpired e s = pushSamples e s"

definition web_setEos :: "wa_env \<Rightarrow> web_client \<Rightarrow> (fault + bool \<times> web_client) option" where
  "web_setEos e s =
     (if m_isOpen s \<and> \<not> web_isEos s
      then (let s1 = s\<lparr>web_isEos := True\<rparr>
            in if m_dataBuffers s1 = [] then Some (Inr (wa_setEos e (wa_calls s1), ask W_setEos s1))
               else map_option (map_sum id (\<lambda>s2. (True, s2))) (pushSamples e s1))
      else Some (Inr (False, s)))"

end
