(* ===== verification/Web_Audio_Push.thy ===== *)
theory Web_Audio_Push
  imports Web_Audio_Client
begin

text \<open>
  The loop of \<open>pushSamples\<close>: with buffers that hold whole frames it ends whatever the server answers,
  and every byte is accounted for: it reached the server, in order, or it was dropped for one of three
  reasons, or it is still queued; with a buffer that ends inside a frame the loop need not end. The number
  of queued buffers is bounded.
\<close>

section \<open>Whole frames\<close>

definition whole_frames :: "web_client \<Rightarrow> bool" where
  "whole_frames s \<longleftrightarrow> m_frameSize s \<noteq> 0 \<and>
     list_all (\<lambda>b. unat (m_frameSize s) dvd gst_buffer_get_size b \<and> gst_buffer_get_size b < 2 ^ 32) (m_dataBuffers s)"

text \<open>\<open>gst_buffer_resize\<close> keeps a range of the buffer that lies inside it.\<close>

definition resize_law :: "wa_env \<Rightarrow> bool" where
  "resize_law e \<longleftrightarrow> (\<forall>b off n. off + unat n \<le> gst_buffer_get_size b \<longrightarrow>
     buffer_bytes (gst_buffer_resize e b off n) = take (unat n) (drop off (buffer_bytes b)) \<and>
     buffer_maps (gst_buffer_resize e b off n) = buffer_maps b)"

text \<open>A server that reports its space and takes what is written.\<close>

definition serving :: "wa_env \<Rightarrow> bool" where
  "serving e \<longleftrightarrow> (\<forall>cs. wa_writeBuffer e cs \<and> fst (wa_getBufferAvailable e cs))"

lemma ask_simps [simp]:
  "m_isOpen (ask c s) = m_isOpen s" "m_dataBuffers (ask c s) = m_dataBuffers s" "m_frameSize (ask c s) = m_frameSize s"
  "web_isEos (ask c s) = web_isEos s" "wa_calls (ask c s) = wa_calls s @ [c]"
  "m_pushSamplesTimer (ask c s) = m_pushSamplesTimer s"
  by (simp_all add: ask_def)

lemma write_front_frame:
  "write_front e n b s = (r, s1) \<Longrightarrow> m_isOpen s1 = m_isOpen s \<and> m_dataBuffers s1 = m_dataBuffers s \<and>
     m_frameSize s1 = m_frameSize s \<and> web_isEos s1 = web_isEos s"
  by (auto simp: write_front_def split: if_splits)

fun written :: "wa_call list \<Rightarrow> u8 list" where
  "written [] = []"
| "written (W_writeBuffer n bs # cs) = bs @ written cs"
| "written (_ # cs) = written cs"

lemma written_append [simp]: "written (cs @ ds) = written cs @ written ds"
  by (induction cs rule: written.induct) simp_all

abbreviation queued_bytes :: "web_client \<Rightarrow> u8 list" where
  "queued_bytes s \<equiv> concat (map buffer_bytes (m_dataBuffers s))"

abbreviation work :: "web_client \<Rightarrow> nat" where
  "work s \<equiv> length (queued_bytes s) + length (m_dataBuffers s)"

lemma frames_arith:
  fixes a f :: u32
  assumes "f \<noteq> 0" "unat f dvd l" "l < 2 ^ 32"
  defines "n \<equiv> min a (of_nat (l div unat f))"
  shows "unat n = min (unat a) (l div unat f)" "unat (n * f) = unat n * unat f" "unat n * unat f \<le> l"
    "unat a < l div unat f \<Longrightarrow> unat (leftover l a f) = l - unat a * unat f \<and> leftover l a f div f \<noteq> 0"
proof -
  have f: "0 < unat f" using assms(1) by (simp add: unat_gt_0)
  have d: "l div unat f < 2 ^ 32" using assms(3) by (meson div_le_dividend le_less_trans)
  have u: "unat (of_nat (l div unat f) :: u32) = l div unat f" using d by (simp add: unat_of_nat)
  show n: "unat n = min (unat a) (l div unat f)" by (simp add: n_def min_def word_le_nat_alt u)
  have le: "unat n * unat f \<le> l" unfolding n using div_times_less_eq_dividend [of l "unat f"]
    by (meson le_trans min.cobounded2 mult_le_mono1)
  then show "unat n * unat f \<le> l" .
  have "unat n * unat f < 2 ^ 32" using le assms(3) by simp
  then show "unat (n * f) = unat n * unat f" by (simp add: unat_mult_lem [symmetric])
  assume a: "unat a < l div unat f"
  have al: "unat a * unat f < l" using a assms(2) f by (metis dvd_div_mult_self mult_less_mono1)
  then have "unat (a * f) = unat a * unat f" using assms(3) by (subst unat_mult_lem [symmetric]) simp
  moreover have "unat (of_nat l :: u32) = l" using assms(3) by (simp add: unat_of_nat)
  ultimately have lo: "unat (leftover l a f) = l - unat a * unat f"
    using al by (simp add: leftover_def unat_sub word_le_nat_alt)
  have "unat (leftover l a f div f) = l div unat f - unat a"
    using assms(2) f by (auto simp: unat_div lo mult.commute [of "unat f"] diff_mult_distrib [symmetric] elim!: dvdE)
  then show "unat (leftover l a f) = l - unat a * unat f \<and> leftover l a f div f \<noteq> 0"
    using lo a by (metis unat_0 zero_less_diff less_irrefl)
qed

text \<open>The bytes that the server took: those of the writes that it answered with success.\<close>

definition received :: "wa_env \<Rightarrow> wa_call list \<Rightarrow> u8 list" where
  "received e cs = concat (map (\<lambda>i. case cs ! i of
     W_writeBuffer n bs \<Rightarrow> if wa_writeBuffer e (take i cs) then bs else [] | _ \<Rightarrow> []) [0..<length cs])"

lemma received_snoc [simp]:
  "received e (cs @ [c]) = received e cs @
     (case c of W_writeBuffer n bs \<Rightarrow> if wa_writeBuffer e cs then bs else [] | _ \<Rightarrow> [])"
proof -
  define g where "g ds i = (case ds ! i of
      W_writeBuffer n bs \<Rightarrow> if wa_writeBuffer e (take i ds) then bs else [] | _ \<Rightarrow> [])" for ds i
  have "map (g (cs @ [c])) [0..<length cs] = map (g cs) [0..<length cs]"
    by (rule map_cong) (simp_all add: g_def nth_append split: wa_call.split)
  moreover have r: "received e ds = concat (map (g ds) [0..<length ds])" for ds
    unfolding received_def g_def by (rule refl)
  ultimately have "received e (cs @ [c]) = received e cs @ g (cs @ [c]) (length cs)"
    by (simp del: map_eq_conv)
  then show ?thesis by (simp add: g_def split: wa_call.split)
qed

text \<open>What becomes of the bytes that leave the queue: the server took them, or the server refused the write, or
  the buffer could not be mapped, or the queue was emptied because the server did not report its space.\<close>

datatype fate = Sent | Refused | Unmapped | Cleared

text \<open>Some call between \<open>s\<close> and \<open>t\<close> has the property, at the point at which it was made.\<close>

definition during :: "(wa_call \<Rightarrow> wa_call list \<Rightarrow> bool) \<Rightarrow> web_client \<Rightarrow> web_client \<Rightarrow> bool" where
  "during P s t \<longleftrightarrow> (\<exists>c1 c c2. wa_calls t = wa_calls s @ c1 @ c # c2 \<and> P c (wa_calls s @ c1))"

fun refused_write :: "wa_env \<Rightarrow> wa_call \<Rightarrow> wa_call list \<Rightarrow> bool" where
  "refused_write e (W_writeBuffer n bs) cs = (\<not> wa_writeBuffer e cs)"
| "refused_write e _ cs = False"

fun failed_ask :: "wa_env \<Rightarrow> wa_call \<Rightarrow> wa_call list \<Rightarrow> bool" where
  "failed_ask e W_getBufferAvailable cs = (\<not> fst (wa_getBufferAvailable e cs))"
| "failed_ask e _ cs = False"

definition justified :: "wa_env \<Rightarrow> web_client \<Rightarrow> web_client \<Rightarrow> fate \<Rightarrow> u8 list \<Rightarrow> bool" where
  "justified e s t fate bs \<longleftrightarrow>
     (case fate of
        Sent \<Rightarrow> True
      | Refused \<Rightarrow> during (refused_write e) s t
      | Unmapped \<Rightarrow> (\<exists>b \<in> set (m_dataBuffers s). \<not> buffer_maps b \<and> bs = buffer_bytes b)
      | Cleared \<Rightarrow> during (failed_ask e) s t \<and> concat (map buffer_bytes (m_dataBuffers t)) = [])"

definition accounts :: "wa_env \<Rightarrow> web_client \<Rightarrow> (fate \<times> u8 list) list \<Rightarrow> web_client \<Rightarrow> bool" where
  "accounts e s fates t \<longleftrightarrow>
     concat (map snd fates) @ queued_bytes t = queued_bytes s \<and>
     received e (wa_calls t) = received e (wa_calls s) @ concat (map snd (filter (\<lambda>(f, bs). f = Sent) fates)) \<and>
     list_all (\<lambda>(f, bs). justified e s t f bs) fates \<and>
     (\<exists>cs. wa_calls t = wa_calls s @ cs) \<and>
     (\<forall>b \<in> set (m_dataBuffers t). \<not> buffer_maps b \<longrightarrow> b \<in> set (m_dataBuffers s))"

lemma during_trans:
  "during P s t \<Longrightarrow> wa_calls u = wa_calls t @ cs \<Longrightarrow> during P s u"
  "during P t u \<Longrightarrow> wa_calls t = wa_calls s @ cs \<Longrightarrow> during P s u"
  unfolding during_def by (force, metis append_assoc)

lemma accounts_trans:
  assumes "accounts e s f1 t" "accounts e t f2 u"
  shows "accounts e s (f1 @ f2) u"
proof -
  obtain cs ds where c: "wa_calls t = wa_calls s @ cs" "wa_calls u = wa_calls t @ ds"
    using assms by (auto simp: accounts_def)
  have "queued_bytes t = [] \<Longrightarrow> queued_bytes u = []"
    using assms(2) unfolding accounts_def by (metis append_is_Nil_conv)
  then have "justified e s u f bs" if "justified e s t f bs" for f bs
    using that during_trans(1) [where s = s, OF _ c(2)] unfolding justified_def by (cases f) (simp_all del: concat_eq_Nil_conv)
  moreover have "\<forall>b \<in> set (m_dataBuffers t). \<not> buffer_maps b \<longrightarrow> b \<in> set (m_dataBuffers s)"
    using assms(1) by (simp add: accounts_def)
  then have "justified e s u f bs" if "justified e t u f bs" for f bs
    using that during_trans(2) [where u = u, OF _ c(1)] unfolding justified_def
    by (cases f) (simp_all del: concat_eq_Nil_conv, blast)
  ultimately have "list_all (\<lambda>(f, bs). justified e s u f bs) (f1 @ f2)"
    using assms unfolding accounts_def list_all_iff by fastforce
  with assms show ?thesis by (auto simp: accounts_def c)
qed

lemma write_front_written:
  "write_front e n b s = (r, s1) \<Longrightarrow> (\<And>cs. wa_writeBuffer e cs) \<Longrightarrow> buffer_maps b \<Longrightarrow>
     \<not> r \<and> written (wa_calls s1) = written (wa_calls s) @ take (unat n * unat (m_frameSize s)) (buffer_bytes b)"
  by (auto simp: write_front_def word_gt_0 split: if_splits)

text \<open>Writing to the front buffer: the bytes are sent, or the result is a failure with one of two causes.\<close>

lemma write_front_cases:
  assumes "write_front e n b s = (r, s1)"
  obtains (sent) "\<not> r" "received e (wa_calls s1) = received e (wa_calls s) @ take (unat n * unat (m_frameSize s)) (buffer_bytes b)"
      "n \<noteq> 0 \<longrightarrow> buffer_maps b" "\<exists>cs. wa_calls s1 = wa_calls s @ cs"
  | (unmapped) "r" "\<not> buffer_maps b" "s1 = s"
  | (refused) "r" "buffer_maps b" "\<not> wa_writeBuffer e (wa_calls s)" "\<exists>n bs. wa_calls s1 = wa_calls s @ [W_writeBuffer n bs]"
  using assms by (auto simp: write_front_def word_gt_0 split: if_splits)

text \<open>A round takes the front buffer away or a number of whole frames from it.\<close>

lemma push_front_accounts:
  assumes "whole_frames s" "m_dataBuffers s = b # rest" "a \<noteq> 0" "resize_law e"
  defines "s1 \<equiv> push_front e a b rest (ask W_getBufferAvailable s)"
  shows "whole_frames s1 \<and> work s1 < work s \<and> (\<exists>fates. accounts e s fates s1)"
proof -
  define l f where "l = gst_buffer_get_size b" and "f = m_frameSize s"
  define n where "n = min a (of_nat (l div unat f))"
  have pre: "f \<noteq> 0" "unat f dvd l" "l < 2 ^ 32"
    using assms(1,2) by (simp_all add: whole_frames_def f_def l_def)
  note ar = frames_arith [OF pre, of a, folded n_def]
  obtain r s2 where w: "write_front e n b (ask W_getBufferAvailable s) = (r, s2)" by fastforce
  note fr = write_front_frame [OF w]
  show ?thesis
  proof (cases "\<not> r \<and> unat (n * f) < l")
    case True
    then have nl: "unat n * unat f < l" using ar(2) by simp
    have al: "unat a < l div unat f"
      using nl pre(2) unfolding ar(1) by (metis dvd_div_mult_self min.strict_order_iff min_def nat_less_le linorder_not_less)
    have na: "unat n = unat a" using ar(1) al by simp
    note lo = ar(4) [OF al]
    define b' k where "b' = gst_buffer_resize e b (unat (n * f)) (leftover l a f)" and "k = unat a * unat f"
    have law: "buffer_bytes b' = take (unat (leftover l a f)) (drop (unat (n * f)) (buffer_bytes b)) \<and> buffer_maps b' = buffer_maps b"
      using assms(4) lo nl unfolding b'_def resize_law_def by (simp add: ar(2) na l_def)
    have s1: "s1 = s2\<lparr>m_dataBuffers := b' # rest\<rparr>"
      using True w lo by (simp add: s1_def push_front_def Let_def n_def f_def l_def b'_def split: list.splits)
    have k: "0 < k" "k < l" "unat f dvd k" using assms(3) pre(1) nl na by (simp_all add: k_def unat_gt_0)
    have b': "buffer_bytes b' = drop k (buffer_bytes b)"
      using law lo by (simp add: ar(2) na l_def k_def gst_buffer_get_size_def)
    have n0: "n \<noteq> 0" using na assms(3) by (metis unat_0 unat_eq_zero)
    have sent: "received e (wa_calls s1) = received e (wa_calls s) @ take k (buffer_bytes b) \<and> buffer_maps b \<and>
      (\<exists>cs. wa_calls s1 = wa_calls s @ cs)"
      using w
    proof (cases rule: write_front_cases)
      case sent
      then show ?thesis using n0 na by (auto simp: s1 k_def f_def)
    qed (use True in simp_all)
    have "accounts e s [(Sent, take k (buffer_bytes b))] s1"
      using sent conjunct2 [OF law] by (simp add: accounts_def justified_def assms(2)) (simp add: s1 b')
    moreover have "whole_frames s1"
      using assms(1,2) k fr by (auto simp: whole_frames_def s1 gst_buffer_get_size_def b' dvd_diff_nat f_def)
    moreover have "work s1 < work s" using k by (simp add: s1 assms(2) b' l_def gst_buffer_get_size_def)
    ultimately show ?thesis by blast
  next
    case False
    have s1: "s1 = s2\<lparr>m_dataBuffers := rest\<rparr>"
      using False w by (auto simp: s1_def push_front_def Let_def n_def f_def l_def)
    have "\<exists>fate. accounts e s [(fate, buffer_bytes b)] s1"
      using w
    proof (cases rule: write_front_cases)
      case sent
      then have "unat n * unat f = l" using False ar(2,3) by simp
      with sent have "accounts e s [(Sent, buffer_bytes b)] s1"
        by (auto simp: accounts_def justified_def assms(2) s1 l_def f_def gst_buffer_get_size_def)
      then show ?thesis ..
    next
      case unmapped
      then have "accounts e s [(Unmapped, buffer_bytes b)] s1"
        by (auto simp: accounts_def justified_def assms(2) s1)
      then show ?thesis ..
    next
      case refused
      then obtain m bs where c: "wa_calls s1 = wa_calls s @ [W_getBufferAvailable, W_writeBuffer m bs]" by (auto simp: s1)
      then have "during (refused_write e) s s1"
        unfolding during_def using refused(3)
        by (intro exI [of _ "[W_getBufferAvailable]"] exI [of _ "W_writeBuffer m bs"] exI [of _ "[] :: wa_call list"] conjI)
          (simp_all add: c)
      moreover have "received e (wa_calls s1) = received e (wa_calls s)"
        using received_snoc [of e "wa_calls s @ [W_getBufferAvailable]" "W_writeBuffer m bs"] refused(3) by (simp add: c)
      ultimately have "accounts e s [(Refused, buffer_bytes b)] s1"
        by (simp add: accounts_def justified_def assms(2) c) (simp add: s1)
      then show ?thesis ..
    qed
    moreover have "whole_frames s1" using assms(1,2) fr by (simp add: whole_frames_def s1)
    moreover have "work s1 < work s" by (simp add: s1 assms(2))
    ultimately show ?thesis by blast
  qed
qed

lemma push_front_frame [simp]:
  "m_isOpen (push_front e a b rest s) = m_isOpen s" "web_isEos (push_front e a b rest s) = web_isEos s"
  "m_frameSize (push_front e a b rest s) = m_frameSize s" "length (m_dataBuffers (push_front e a b rest s)) \<le> Suc (length rest)"
proof -
  obtain r s1 where "write_front e (min a (of_nat (gst_buffer_get_size b div unat (m_frameSize s)))) b s = (r, s1)"
    by fastforce
  note w = this write_front_frame [OF this]
  show "m_isOpen (push_front e a b rest s) = m_isOpen s" "web_isEos (push_front e a b rest s) = web_isEos s"
    "m_frameSize (push_front e a b rest s) = m_frameSize s" "length (m_dataBuffers (push_front e a b rest s)) \<le> Suc (length rest)"
    using w by (simp_all add: push_front_def Let_def split: list.splits)
qed

lemma round_whole:
  assumes "whole_frames s" "m_dataBuffers s \<noteq> []" "resize_law e"
  shows "\<exists>a s1 fates. push_round e s = Inr (a, s1) \<and> whole_frames s1 \<and> (a \<noteq> 0 \<longrightarrow> work s1 < work s) \<and> accounts e s fates s1"
proof -
  obtain b rest where q: "m_dataBuffers s = b # rest" using assms(2) by (cases "m_dataBuffers s") auto
  obtain ok a where av: "wa_getBufferAvailable e (wa_calls s) = (ok, a)" by fastforce
  consider (go) "ok" "a \<noteq> 0" | (full) "ok" "a = 0" | (failed) "\<not> ok" by blast
  then show ?thesis
  proof cases
    case go
    let ?s1 = "push_front e a b rest (ask W_getBufferAvailable s)"
    have r: "push_round e s = Inr (a, ?s1)" using go av q assms(1) by (simp add: push_round_def whole_frames_def)
    with push_front_accounts [OF assms(1) q go(2) assms(3)] show ?thesis by blast
  next
    case full
    have "accounts e s [] (ask W_getBufferAvailable s)" by (simp add: accounts_def)
    with full av assms(1) show ?thesis by (auto simp: push_round_def whole_frames_def)
  next
    case failed
    let ?s1 = "(ask W_getBufferAvailable s)\<lparr>m_dataBuffers := []\<rparr>"
    have "during (failed_ask e) s ?s1"
      unfolding during_def using av failed by (intro exI [of _ "[]"] exI [of _ W_getBufferAvailable]) simp
    then have "accounts e s [(Cleared, queued_bytes s)] ?s1" by (simp add: accounts_def justified_def)
    with failed av assms(1) show ?thesis by (auto simp: push_round_def whole_frames_def)
  qed
qed

lemma loop_whole:
  assumes "whole_frames s" "m_dataBuffers s \<noteq> []" "resize_law e"
  shows "\<exists>s' fates. push_loop e s = Some (Inr s') \<and> whole_frames s' \<and> accounts e s fates s'"
  using assms(1,2)
proof (induction "work s" arbitrary: s rule: less_induct)
  case less
  obtain a s1 fates where r: "push_round e s = Inr (a, s1)" "whole_frames s1" "a \<noteq> 0 \<Longrightarrow> work s1 < work s"
    "accounts e s fates s1"
    using round_whole [OF less.prems assms(3)] by blast
  show ?case
  proof (cases "m_dataBuffers s1 \<noteq> [] \<and> a \<noteq> 0")
    case True
    then obtain s' fates' where s': "push_loop e s1 = Some (Inr s')" "whole_frames s'" "accounts e s1 fates' s'"
      using less.hyps [OF r(3) r(2)] by blast
    have "push_loop e s = Some (Inr s')" using True r(1) s'(1) by (subst push_loop.simps) simp
    with s'(2) accounts_trans [OF r(4) s'(3)] show ?thesis by blast
  next
    case False
    then have "push_loop e s = Some (Inr s1)" using r(1) by (subst push_loop.simps) auto
    with r show ?thesis by blast
  qed
qed

section \<open>Buffers that end inside a frame\<close>

text \<open>\<open>gst_buffer_resize\<close> refuses a range that reaches beyond the buffer.\<close>

definition refuse_law :: "wa_env \<Rightarrow> bool" where
  "refuse_law e \<longleftrightarrow> (\<forall>b off n. gst_buffer_get_size b < off + unat n \<longrightarrow> gst_buffer_resize e b off n = b)"

text \<open>One buffer that ends inside a frame, and a server that always has room for more frames than it has.\<close>

definition stuck :: "wa_env \<Rightarrow> GstBuffer \<Rightarrow> web_client \<Rightarrow> bool" where
  "stuck e b s \<longleftrightarrow> m_dataBuffers s = [b] \<and> buffer_maps b \<and> gst_buffer_get_size b < 2 ^ 32 \<and>
     \<not> unat (m_frameSize s) dvd gst_buffer_get_size b \<and> m_frameSize s \<noteq> 0 \<and>
     (\<forall>cs. wa_writeBuffer e cs \<and> (\<exists>a. wa_getBufferAvailable e cs = (True, a) \<and>
        gst_buffer_get_size b div unat (m_frameSize s) < unat a \<and> unat a * unat (m_frameSize s) < 2 ^ 32))"

lemma stuck_arith:
  fixes a f :: u32
  assumes "f \<noteq> 0" "\<not> unat f dvd l" "l < 2 ^ 32" "l div unat f < unat a" "unat a * unat f < 2 ^ 32"
  shows "min a (of_nat (l div unat f)) = of_nat (l div unat f)"
    "unat (of_nat (l div unat f) * f) = l div unat f * unat f" "l div unat f * unat f < l"
    "l < l div unat f * unat f + unat (leftover l a f)"
proof -
  have f: "0 < unat f" using assms(1) by (simp add: unat_gt_0)
  have d: "l div unat f < 2 ^ 32" using assms(3) by (meson div_le_dividend le_less_trans)
  have u: "unat (of_nat (l div unat f) :: u32) = l div unat f" using d by (simp add: unat_of_nat)
  show "min a (of_nat (l div unat f)) = of_nat (l div unat f)"
    using assms(4) by (simp add: min_def word_le_nat_alt u)
  have lt: "l div unat f * unat f < l"
    using assms(2) by (metis div_times_less_eq_dividend dvd_triv_right order_le_imp_less_or_eq)
  then show "l div unat f * unat f < l" .
  show "unat (of_nat (l div unat f) * f) = l div unat f * unat f"
    using lt assms(3) u unat_mult_lem [of "of_nat (l div unat f) :: u32" f] by simp
  have "l < unat a * unat f" using assms(4) f by (simp add: less_mult_imp_div_less div_less_iff_less_mult)
  moreover have m: "unat (a * f) = unat a * unat f" using assms(5) by (subst unat_mult_lem [symmetric]) simp
  moreover have "unat (of_nat l :: u32) = l" using assms(3) by (simp add: unat_of_nat)
  ultimately have "unat (leftover l a f) = 2 ^ 32 + l - unat a * unat f"
    by (simp add: leftover_def unat_sub_if')
  then have "l < unat (leftover l a f)" using assms(5) by simp
  then show "l < l div unat f * unat f + unat (leftover l a f)" by simp
qed

lemma stuck_round:
  assumes "stuck e b s" "refuse_law e"
  obtains a s1 where "push_round e s = Inr (a, s1)" "a \<noteq> 0" "stuck e b s1"
    "written (wa_calls s1) = written (wa_calls s) @
       take (gst_buffer_get_size b div unat (m_frameSize s) * unat (m_frameSize s)) (buffer_bytes b)"
proof -
  let ?l = "gst_buffer_get_size b" and ?f = "m_frameSize s"
  obtain a where a: "wa_getBufferAvailable e (wa_calls s) = (True, a)" "?l div unat ?f < unat a" "unat a * unat ?f < 2 ^ 32"
    using assms(1) unfolding stuck_def by blast
  have p: "?f \<noteq> 0" "\<not> unat ?f dvd ?l" "?l < 2 ^ 32" "m_dataBuffers s = [b]" "buffer_maps b" "\<And>cs. wa_writeBuffer e cs"
    using assms(1) by (auto simp: stuck_def)
  note ar = stuck_arith [OF p(1-3) a(2,3)]
  have a0: "a \<noteq> 0" using a(2) by auto
  let ?s0 = "ask W_getBufferAvailable s"
  obtain r s2 where w: "write_front e (of_nat (?l div unat ?f)) b ?s0 = (r, s2)" by fastforce
  note wr = write_front_written [OF w p(6,5)] and fr = write_front_frame [OF w]
  have re: "gst_buffer_resize e b (?l div unat ?f * unat ?f) (leftover ?l a ?f) = b"
    using assms(2) ar(4) by (simp add: refuse_law_def)
  have s1: "push_front e a b [] ?s0 = s2\<lparr>m_dataBuffers := [b]\<rparr>"
    using wr ar(3) w by (simp add: push_front_def Let_def ar(1,2) re)
  have un: "unat (of_nat (?l div unat ?f) :: u32) = ?l div unat ?f"
    using p(3) by (simp add: unat_of_nat) (meson div_le_dividend le_less_trans mod_less)
  show thesis
  proof (rule that [OF _ a0])
    show "push_round e s = Inr (a, s2\<lparr>m_dataBuffers := [b]\<rparr>)"
      using a(1) a0 p(1,4) s1 by (simp add: push_round_def)
    show "stuck e b (s2\<lparr>m_dataBuffers := [b]\<rparr>)" using assms(1) fr by (simp add: stuck_def)
    show "written (wa_calls (s2\<lparr>m_dataBuffers := [b]\<rparr>)) = written (wa_calls s) @ take (?l div unat ?f * unat ?f) (buffer_bytes b)"
      using wr un by simp
  qed
qed

lemma stuck_loop:
  assumes "push_loop e s = Some y"
  shows "refuse_law e \<longrightarrow> \<not> stuck e b s"
proof (rule push_loop.raw_induct [where P = "\<lambda>e s y. refuse_law e \<longrightarrow> \<not> stuck e b s", OF _ assms], intro impI notI)
  fix loop e s y
  assume ih: "\<And>e s y. loop e s = Some y \<Longrightarrow> refuse_law e \<longrightarrow> \<not> stuck e b s"
    and body: "(case push_round e s of Inl f \<Rightarrow> Some (Inl f)
      | Inr (availableFrames, s1) \<Rightarrow>
          if m_dataBuffers s1 \<noteq> [] \<and> availableFrames \<noteq> 0 then loop e s1 else Some (Inr s1)) = Some y"
    and st: "refuse_law e" "stuck e b s"
  obtain a s1 where r: "push_round e s = Inr (a, s1)" "a \<noteq> 0" "stuck e b s1"
    using stuck_round [OF st(2,1)] by blast
  then have "m_dataBuffers s1 \<noteq> []" by (simp add: stuck_def)
  with body r have "loop e s1 = Some y" by simp
  from ih [OF this] st(1) r(3) show False by blast
qed

section \<open>The number of queued buffers\<close>

lemma round_length: "push_round e s = Inr (a, s1) \<Longrightarrow> length (m_dataBuffers s1) \<le> length (m_dataBuffers s)"
  using push_front_frame(4) by (fastforce simp: push_round_def split: prod.splits bool.splits if_splits list.splits)

lemma loop_length:
  assumes "push_loop e s = Some y"
  shows "\<forall>s'. y = Inr s' \<longrightarrow> length (m_dataBuffers s') \<le> length (m_dataBuffers s)"
proof (rule push_loop.raw_induct [where P = "\<lambda>e s y. \<forall>s'. y = Inr s' \<longrightarrow> length (m_dataBuffers s') \<le> length (m_dataBuffers s)",
      OF _ assms])
  fix loop e s y
  assume ih: "\<And>e s y. loop e s = Some y \<Longrightarrow> \<forall>s'. y = Inr s' \<longrightarrow> length (m_dataBuffers s') \<le> length (m_dataBuffers s)"
    and body: "(case push_round e s of Inl f \<Rightarrow> Some (Inl f)
      | Inr (availableFrames, s1) \<Rightarrow>
          if m_dataBuffers s1 \<noteq> [] \<and> availableFrames \<noteq> 0 then loop e s1 else Some (Inr s1)) = Some y"
  show "\<forall>s'. y = Inr s' \<longrightarrow> length (m_dataBuffers s') \<le> length (m_dataBuffers s)"
    using body ih round_length [of e s] by (fastforce split: sum.splits prod.splits if_splits intro: order_trans)
qed

lemma push_length:
  assumes "pushSamples e s = Some (Inr s')"
  shows "length (m_dataBuffers s') \<le> length (m_dataBuffers s)"
proof (cases "m_isOpen s \<and> m_dataBuffers s \<noteq> []")
  case True
  then obtain y where y: "push_loop e s = Some y" "map_sum id after_push y = Inr s'"
    using assms by (auto simp: pushSamples_def)
  then obtain t where "y = Inr t" "s' = after_push t" by (cases y) auto
  then show ?thesis using loop_length [OF y(1)] by (auto simp: after_push_def)
next
  case False
  then show ?thesis using assms by (simp add: pushSamples_def)
qed

lemma setEos_length:
  assumes "web_setEos e s = Some (Inr (r, s'))"
  shows "length (m_dataBuffers s') \<le> length (m_dataBuffers s)"
proof (cases "m_isOpen s \<and> \<not> web_isEos s \<and> m_dataBuffers s \<noteq> []")
  case True
  then obtain y where y: "pushSamples e (s\<lparr>web_isEos := True\<rparr>) = Some y" "map_sum id (\<lambda>s2. (True, s2)) y = Inr (r, s')"
    using assms by (auto simp: web_setEos_def Let_def)
  then obtain t where "y = Inr t" "s' = t" by (cases y) auto
  then show ?thesis using push_length [of e "s\<lparr>web_isEos := True\<rparr>" t] y(1) by simp
next
  case False
  then show ?thesis using assms by (auto simp: web_setEos_def Let_def split: if_splits)
qed

text \<open>
  One streaming thread that delivers buffers: it waits for space, then hands the buffer to the event
  loop. In between, the timer, the end of stream and everything else that leaves the queue alone.
\<close>

datatype producer = Between | Admitted GstBuffer

inductive web_step :: "wa_env \<Rightarrow> producer \<times> web_client \<Rightarrow> producer \<times> web_client \<Rightarrow> bool" for e where
  admit: "notifyNewSample e b s = Returns r \<Longrightarrow> web_step e (Between, s) (Admitted b, s)"
| enqueue: "notifyNewSample_in_loop e b s = Some (Inr s') \<Longrightarrow> web_step e (Admitted b, s) (Between, s')"
| timer: "notifyPushSamplesTimerExpired e s = Some (Inr s') \<Longrightarrow> web_step e (p, s) (p, s')"
| eos: "web_setEos e s = Some (Inr (r, s')) \<Longrightarrow> web_step e (p, s) (p, s')"
| web_other: "m_dataBuffers s' = m_dataBuffers s \<Longrightarrow> web_step e (p, s) (p, s')"

definition web_inv :: "producer \<times> web_client \<Rightarrow> bool" where
  "web_inv q \<longleftrightarrow> length (m_dataBuffers (snd q)) + (if fst q = Between then 0 else 1) \<le> kMaxQueueSize"

interpretation web_queue: invariant_system "\<lambda>q. q = (Between, GStreamerWebAudioPlayerClient)" "web_step e" web_inv for e
proof
  show "web_inv q" if "q = (Between, GStreamerWebAudioPlayerClient)" for q
    using that by (simp add: web_inv_def GStreamerWebAudioPlayerClient_def)
  show "web_inv q'" if "web_step e q q'" "web_inv q" for q q'
    using that
  proof (cases rule: web_step.cases)
    case (enqueue b s s')
    then show ?thesis
      using push_length [of e "s\<lparr>m_pushSamplesTimer := False, m_dataBuffers := m_dataBuffers s @ [b]\<rparr>" s'] that(2)
      by (simp add: web_inv_def notifyNewSample_in_loop_def)
  next
    case (timer s s' p)
    then show ?thesis
      using push_length [of e s s'] that(2) by (auto simp: web_inv_def notifyPushSamplesTimerExpired_def)
  next
    case (eos s r s' p)
    have "length (m_dataBuffers s') \<le> length (m_dataBuffers s)" by (rule setEos_length [OF eos(3)])
    then show ?thesis using eos that(2) by (auto simp: web_inv_def)
  qed (auto simp: web_inv_def notifyNewSample_def split: if_splits)
qed

section \<open>A server\<close>

definition demo_server :: "u32 \<Rightarrow> wa_env" where
  "demo_server a = \<lparr>wa_create = (\<lambda>_. True), wa_getDeviceInfo = (\<lambda>_. (True, 1, 2, False)), wa_play = (\<lambda>_. True),
     wa_pause = (\<lambda>_. True), wa_setEos = (\<lambda>_. True), wa_getBufferAvailable = (\<lambda>_. (True, a)),
     wa_writeBuffer = (\<lambda>_. True), wa_setVolume = (\<lambda>_. True), wa_getVolume = (\<lambda>_. (True, 1)),
     gst_buffer_resize = (\<lambda>b off n. if off + unat n \<le> length (buffer_bytes b)
       then b\<lparr>buffer_bytes := take (unat n) (drop off (buffer_bytes b))\<rparr> else b),
     gst_buffer_append = (\<lambda>b c. b\<lparr>buffer_bytes := buffer_bytes b @ buffer_bytes c\<rparr>)\<rparr>"

definition demo_web_client :: "u8 list list \<Rightarrow> web_client" where
  "demo_web_client bs = GStreamerWebAudioPlayerClient\<lparr>m_isOpen := True, m_frameSize := 4,
     m_dataBuffers := map (demo_buffer None) bs\<rparr>"

lemma demo_whole: "list_all (\<lambda>bs. 4 dvd length bs \<and> length bs < 2 ^ 32) xs \<Longrightarrow> whole_frames (demo_web_client xs)"
  by (simp add: whole_frames_def demo_web_client_def gst_buffer_get_size_def demo_buffer_def list_all_iff)

lemma demo_server_laws: "resize_law (demo_server a)" "refuse_law (demo_server a)" "serving (demo_server a)"
  by (simp_all add: resize_law_def refuse_law_def serving_def demo_server_def gst_buffer_get_size_def)

section \<open>Properties\<close>

text \<open>
  C32. Pushing samples ends. When the queued buffers hold whole frames, \<open>pushSamples\<close> returns, whatever
  space the server reports and whether or not it takes what is written: there is no division by zero
  and no access to an empty queue, and the buffers that stay queued hold whole frames again.
\<close>

theorem pushing_ends:
  assumes "whole_frames s" "resize_law e"
  shows "\<exists>s'. pushSamples e s = Some (Inr s') \<and> whole_frames s'"
proof (cases "m_isOpen s \<and> m_dataBuffers s \<noteq> []")
  case True
  then obtain s' where "push_loop e s = Some (Inr s')" "whole_frames s'" using loop_whole [OF assms(1) _ assms(2)] by blast
  then show ?thesis using True by (auto simp: pushSamples_def after_push_def whole_frames_def)
next
  case False
  then show ?thesis using assms(1) by (simp add: pushSamples_def)
qed

theorem pushing_ends_witness:
  "\<exists>s'. pushSamples (demo_server 1) (demo_web_client [[1, 2, 3, 4, 5, 6, 7, 8], [9, 10, 11, 12]]) = Some (Inr s') \<and>
     whole_frames s'"
proof (rule pushing_ends [OF demo_whole demo_server_laws(1)])
  show "list_all (\<lambda>bs. 4 dvd length bs \<and> length bs < 2 ^ 32) [[1, 2, 3, 4, 5, 6, 7, 8], [9, 10, 11, 12 :: u8]]"
    by simp presburger
qed





text \<open>
  C37. A buffer that ends inside a frame stops the event loop. When it is the only buffer in the queue
  and the server keeps reporting room for more frames than the buffer holds, the size of the rest is
  computed from the available frames instead of the written ones and wraps around,
  \<open>gst_buffer_resize\<close> refuses it, and \<open>pushSamples\<close> writes the same frames again and again and never
  returns.
\<close>

theorem partial_frame_never_ends:
  assumes "m_isOpen s" "stuck e b s" "refuse_law e"
  shows "pushSamples e s = None \<and> (\<exists>a s1. push_round e s = Inr (a, s1) \<and> a \<noteq> 0 \<and> m_dataBuffers s1 = m_dataBuffers s \<and>
    written (wa_calls s1) = written (wa_calls s) @
      take (gst_buffer_get_size b div unat (m_frameSize s) * unat (m_frameSize s)) (buffer_bytes b))"
proof -
  have "push_loop e s = None" using stuck_loop [of e s] assms(2,3) by (cases "push_loop e s") auto
  then have "pushSamples e s = None" using assms(1,2) by (simp add: pushSamples_def stuck_def)
  moreover obtain a s1 where "push_round e s = Inr (a, s1)" "a \<noteq> 0" "stuck e b s1"
    "written (wa_calls s1) = written (wa_calls s) @
       take (gst_buffer_get_size b div unat (m_frameSize s) * unat (m_frameSize s)) (buffer_bytes b)"
    by (rule stuck_round [OF assms(2,3)])
  ultimately show ?thesis using assms(2) by (auto simp: stuck_def)
qed

theorem partial_frame_never_ends_witness:
  "pushSamples (demo_server 100) (demo_web_client [[1, 2, 3, 4, 5, 6]]) = None"
proof -
  let ?s = "demo_web_client [[1, 2, 3, 4, 5, 6]]" and ?b = "demo_buffer None [1, 2, 3, 4, 5, 6]"
  have "\<not> 4 dvd Suc (Suc (Suc (Suc (Suc (Suc 0)))))" by presburger
  then have "stuck (demo_server 100) ?b ?s"
    by (simp add: stuck_def demo_web_client_def demo_server_def gst_buffer_get_size_def demo_buffer_def)
  moreover have "m_isOpen ?s" by (simp add: demo_web_client_def)
  ultimately show ?thesis using partial_frame_never_ends [OF _ _ demo_server_laws(2)] by blast
qed

text \<open>
  The queue of web audio buffers is bounded. However the streaming thread, the timer, the end of
  stream and the calls that open and close the player are interleaved, at most 40 buffers are queued.
\<close>

theorem web_queue_is_bounded:
  assumes "(web_step e)\<^sup>*\<^sup>* (Between, GStreamerWebAudioPlayerClient) (p, s)"
  shows "length (m_dataBuffers s) \<le> 40 \<and> (p \<noteq> Between \<longrightarrow> length (m_dataBuffers s) < 40)"
  using web_queue.inv_reachable [OF refl assms] by (auto simp: web_inv_def kMaxQueueSize_def split: if_splits)

theorem web_queue_is_bounded_witness:
  "length (m_dataBuffers (GStreamerWebAudioPlayerClient\<lparr>m_dataBuffers := [demo_buffer None []]\<rparr>)) \<le> 40"
proof -
  let ?s = "GStreamerWebAudioPlayerClient\<lparr>m_dataBuffers := [demo_buffer None []]\<rparr>" and ?e = "demo_server 1"
  have "web_step ?e (Between, GStreamerWebAudioPlayerClient) (Admitted (demo_buffer None []), GStreamerWebAudioPlayerClient)"
    by (rule web_step.admit) (simp add: notifyNewSample_def GStreamerWebAudioPlayerClient_def kMaxQueueSize_def)
  moreover have "web_step ?e (Admitted (demo_buffer None []), GStreamerWebAudioPlayerClient) (Between, ?s)"
    by (rule web_step.enqueue) (simp add: notifyNewSample_in_loop_def pushSamples_def GStreamerWebAudioPlayerClient_def)
  ultimately have "(web_step ?e)\<^sup>*\<^sup>* (Between, GStreamerWebAudioPlayerClient) (Between, ?s)" by auto
  from web_queue_is_bounded [OF this] show ?thesis by blast
qed

end
