(* ===== verification/Push_Delegate.thy ===== *)
theory Push_Delegate
  imports Web_Audio_Push
begin

text \<open>
  \<open>PushModeAudioPlaybackDelegate.cpp\<close>: the delegate of the web audio sink and of the audio sink in web
  audio mode. It owns a web audio client, which calls it back (\<open>notifyState\<close>).

  \<open>running\<close> is the answer of \<open>waitForRunning\<close>; \<open>pad_default\<close> is the result of
  \<open>gst_pad_event_default\<close>.
\<close>

section \<open>State\<close>

record push_delegate =
  pd_sink :: GstElement
  pd_client :: web_client
  pd_isPlayingDelayed :: bool
  pd_isStateCommitNeeded :: bool
  pd_volume :: real
  pd_isVolumeQueued :: bool
  pd_controlRemoved :: bool

definition PushModeAudioPlaybackDelegate :: "GstElement \<Rightarrow> push_delegate" where
  "PushModeAudioPlaybackDelegate sink =
     \<lparr>pd_sink = sink, pd_client = GStreamerWebAudioPlayerClient, pd_isPlayingDelayed = False,
      pd_isStateCommitNeeded = False, pd_volume = kDefaultVolume, pd_isVolumeQueued = False, pd_controlRemoved = False\<rparr>"

definition push_post :: "GstMessage \<Rightarrow> push_delegate \<Rightarrow> push_delegate" where
  "push_post m d = d\<lparr>pd_sink := gst_element_post_message m (pd_sink d)\<rparr>"

section \<open>Notifications of the client\<close>

definition push_handleEos :: "push_delegate \<Rightarrow> push_delegate" where
  "push_handleEos d =
     (if GST_STATE (pd_sink d) \<noteq> GST_STATE_PAUSED \<and> GST_STATE (pd_sink d) \<noteq> GST_STATE_PLAYING
      then push_post (MSG_ERROR 0 ''Web audio sink received EOS in non-playing state'') d
      else push_post MSG_EOS d)"

definition push_postAsyncStart :: "push_delegate \<Rightarrow> push_delegate" where
  "push_postAsyncStart d = push_post MSG_ASYNC_START (d\<lparr>pd_isStateCommitNeeded := True\<rparr>)"

definition push_postAsyncDone :: "push_delegate \<Rightarrow> push_delegate" where
  "push_postAsyncDone d = push_post MSG_ASYNC_DONE (d\<lparr>pd_isStateCommitNeeded := False\<rparr>)"

definition push_handleStateChanged :: "PlaybackState \<Rightarrow> push_delegate \<Rightarrow> push_delegate" where
  "push_handleStateChanged state d =
     (let current = GST_STATE (pd_sink d); next = GST_STATE_NEXT (pd_sink d); pending = GST_STATE_PENDING (pd_sink d)
      in if pd_isStateCommitNeeded d \<and>
            (state = PS_PAUSED \<and> next = GST_STATE_PAUSED \<or> state = PS_PLAYING \<and> next = GST_STATE_PLAYING)
         then (let postNext = (if next = pending then GST_STATE_VOID_PENDING else pending)
               in push_postAsyncDone (push_post (MSG_STATE_CHANGED current next pending)
                    (d\<lparr>pd_sink := (pd_sink d)\<lparr>GST_STATE := next, GST_STATE_NEXT := postNext,
                         GST_STATE_PENDING := GST_STATE_VOID_PENDING,
                         GST_STATE_RETURN := GST_STATE_CHANGE_SUCCESS\<rparr>\<rparr>)))
         else d)"

definition push_handleError :: "string \<Rightarrow> int \<Rightarrow> push_delegate \<Rightarrow> push_delegate" where
  "push_handleError message code d = push_post (MSG_ERROR code message) d"

datatype WebAudioPlayerState = WA_UNKNOWN | WA_IDLE | WA_PLAYING | WA_PAUSED | WA_END_OF_STREAM | WA_FAILURE

text \<open>\<open>GStreamerWebAudioPlayerClient::notifyState\<close>, which calls the delegate.\<close>

fun notifyState :: "WebAudioPlayerState \<Rightarrow> push_delegate \<Rightarrow> push_delegate" where
  "notifyState WA_END_OF_STREAM d =
     (let d1 = push_handleEos d in d1\<lparr>pd_client := (pd_client d1)\<lparr>web_isEos := False\<rparr>\<rparr>)"
| "notifyState WA_FAILURE d = push_handleError ''Rialto server webaudio playback failed'' 0 d"
| "notifyState WA_IDLE d = push_handleStateChanged PS_IDLE d"
| "notifyState WA_PLAYING d = push_handleStateChanged PS_PLAYING d"
| "notifyState WA_PAUSED d = push_handleStateChanged PS_PAUSED d"
| "notifyState WA_UNKNOWN d = d"

section \<open>State changes\<close>

definition on_web :: "(web_client \<Rightarrow> 'r \<times> web_client) \<Rightarrow> push_delegate \<Rightarrow> 'r \<times> push_delegate" where
  "on_web f d = (case f (pd_client d) of (r, s) \<Rightarrow> (r, d\<lparr>pd_client := s\<rparr>))"

text \<open>A change that the player confirms later.\<close>

definition push_async :: "(web_client \<Rightarrow> bool \<times> web_client) \<Rightarrow> push_delegate \<Rightarrow> GstStateChangeReturn \<times> push_delegate" where
  "push_async f d =
     (case on_web f d of
        (False, d1) \<Rightarrow> (GST_STATE_CHANGE_FAILURE, d1)
      | (True, d1) \<Rightarrow> (GST_STATE_CHANGE_ASYNC, push_postAsyncStart d1))"

fun push_changeState :: "bool \<Rightarrow> wa_env \<Rightarrow> GstStateChange \<Rightarrow> push_delegate \<Rightarrow> GstStateChangeReturn \<times> push_delegate" where
  "push_changeState running e GST_STATE_CHANGE_NULL_TO_READY d =
     (if \<not> running then (GST_STATE_CHANGE_FAILURE, d) else (GST_STATE_CHANGE_SUCCESS, d))"
| "push_changeState running e GST_STATE_CHANGE_PAUSED_TO_PLAYING d =
     (if \<not> isOpen (pd_client d)
      then (GST_STATE_CHANGE_ASYNC, push_postAsyncStart (d\<lparr>pd_isPlayingDelayed := True\<rparr>))
      else push_async (web_play e) d)"
| "push_changeState running e GST_STATE_CHANGE_PLAYING_TO_PAUSED d = push_async (web_pause e) d"
| "push_changeState running e GST_STATE_CHANGE_PAUSED_TO_READY d =
     (case on_web web_close d of
        (False, d1) \<Rightarrow> (GST_STATE_CHANGE_FAILURE, d1)
      | (True, d1) \<Rightarrow> (GST_STATE_CHANGE_SUCCESS, d1))"
| "push_changeState running e GST_STATE_CHANGE_READY_TO_NULL d =
     (GST_STATE_CHANGE_SUCCESS, d\<lparr>pd_controlRemoved := True\<rparr>)"
| "push_changeState running e _ d = (GST_STATE_CHANGE_SUCCESS, d)"

section \<open>Properties\<close>

definition push_setProperty :: "wa_env \<Rightarrow> Property \<Rightarrow> GValue \<Rightarrow> push_delegate \<Rightarrow> push_delegate" where
  "push_setProperty e type value d =
     (if type = Volume
      then (let d1 = d\<lparr>pd_volume := g_value_get_double value\<rparr>
            in if \<not> isOpen (pd_client d1) then d1\<lparr>pd_isVolumeQueued := True\<rparr>
               else snd (on_web (web_setVolume e (pd_volume d1)) d1))
      else d)"

definition push_getProperty :: "wa_env \<Rightarrow> Property \<Rightarrow> push_delegate \<Rightarrow> GValue option \<times> push_delegate" where
  "push_getProperty e type d =
     (if type = Volume
      then (if isOpen (pd_client d)
            then (case on_web (web_getVolume e) d of
                    ((True, volume), d1) \<Rightarrow> (Some (V_double volume), d1\<lparr>pd_volume := volume\<rparr>)
                  | ((False, _), d1) \<Rightarrow> (Some (V_double (pd_volume d1)), d1))
            else (Some (V_double (pd_volume d)), d))
      else (None, d))"

section \<open>Queries, events and buffers\<close>

definition push_handleQuery :: "GstQuery \<Rightarrow> push_delegate \<Rightarrow> bool option \<times> query_answer" where
  "push_handleQuery query d = (None, NOT_SET)"

definition push_handleSendEvent :: "send_event \<Rightarrow> push_delegate \<Rightarrow> bool \<times> push_delegate" where
  "push_handleSendEvent event d = (True, d)"

text \<open>What follows a successful \<open>open\<close>: the queued volume and the delayed play.\<close>

definition send_queued_volume :: "wa_env \<Rightarrow> push_delegate \<Rightarrow> bool \<times> push_delegate" where
  "send_queued_volume e d =
     (if pd_isVolumeQueued d
      then (case on_web (web_setVolume e (pd_volume d)) d of
              (False, d1) \<Rightarrow> (False, d1)
            | (True, d1) \<Rightarrow> (True, d1\<lparr>pd_isVolumeQueued := False\<rparr>))
      else (True, d))"

definition play_if_delayed :: "wa_env \<Rightarrow> push_delegate \<Rightarrow> bool \<times> push_delegate" where
  "play_if_delayed e d =
     (if pd_isPlayingDelayed d
      then (case on_web (web_play e) d of
              (False, d1) \<Rightarrow> (False, d1)
            | (True, d1) \<Rightarrow> (True, d1\<lparr>pd_isPlayingDelayed := False\<rparr>))
      else (True, d))"

definition push_caps :: "wa_env \<Rightarrow> GstCaps \<Rightarrow> push_delegate \<Rightarrow> (bool \<times> push_delegate) outcome" where
  "push_caps e caps d =
     (case web_open e caps (pd_client d) of
        Returns (opened, s) \<Rightarrow>
          (let d1 = d\<lparr>pd_client := s\<rparr>
           in if \<not> opened then Returns (False, d1)
              else (case send_queued_volume e d1 of
                      (volumeSet, d2) \<Rightarrow>
                        (case play_if_delayed e d2 of (played, d3) \<Rightarrow> Returns (volumeSet \<and> played, d3))))
      | Waits \<Rightarrow> Waits
      | Faults f \<Rightarrow> Faults f)"

text \<open>The value \<open>None\<close> is a call that never returns.\<close>

fun push_handleEvent :: "wa_env \<Rightarrow> bool \<Rightarrow> GstEvent \<Rightarrow> push_delegate \<Rightarrow> (bool \<times> push_delegate) outcome option" where
  "push_handleEvent e pad_default EVENT_EOS d =
     map_option (\<lambda>r. case r of Inl f \<Rightarrow> Faults f | Inr (ok, s) \<Rightarrow> Returns (ok, d\<lparr>pd_client := s\<rparr>))
       (web_setEos e (pd_client d))"
| "push_handleEvent e pad_default (EVENT_CAPS caps) d = Some (push_caps e caps d)"
| "push_handleEvent e pad_default _ d = Some (Returns (pad_default, d))"

definition push_handleBuffer :: "wa_env \<Rightarrow> GstBuffer \<Rightarrow> push_delegate \<Rightarrow> (GstFlowReturn \<times> push_delegate) outcome option" where
  "push_handleBuffer e buffer d =
     (case notifyNewSample e buffer (pd_client d) of
        Returns r \<Rightarrow>
          map_option (\<lambda>x. case x of Inl f \<Rightarrow> Faults f | Inr s \<Rightarrow> Returns (GST_FLOW_OK, d\<lparr>pd_client := s\<rparr>)) r
      | Waits \<Rightarrow> Some Waits
      | Faults f \<Rightarrow> Some (Faults f))"

section \<open>Delayed play\<close>

lemma push_post_simps [simp]:
  "pd_client (push_post m d) = pd_client d" "pd_isPlayingDelayed (push_post m d) = pd_isPlayingDelayed d"
  "pd_isVolumeQueued (push_post m d) = pd_isVolumeQueued d" "pd_volume (push_post m d) = pd_volume d"
  "pd_sink (push_post m d) = gst_element_post_message m (pd_sink d)"
  "pd_isStateCommitNeeded (push_post m d) = pd_isStateCommitNeeded d"
  by (simp_all add: push_post_def)

lemma open_in_loop_opened:
  "open_in_loop e mime pcm s = (True, s1) \<Longrightarrow> m_isOpen s1 \<and> (\<exists>cs. wa_calls s1 = wa_calls s @ cs \<and> W_play \<notin> set cs)"
  by (auto simp: open_in_loop_def Let_def ask_def split: if_splits prod.splits)

lemma web_open_opened:
  assumes "web_open e caps s = Returns (True, s1)"
  obtains cs where "m_isOpen s1" "wa_calls s1 = wa_calls s @ cs" "W_play \<notin> set cs"
proof -
  obtain mime pcm where "open_in_loop e mime pcm s = (True, s1)"
    using assms by (auto simp: web_open_def Let_def split: option.splits if_splits prod.splits)
  then show thesis using open_in_loop_opened that by blast
qed

text \<open>When CAPS succeeds with a delayed play, the player is opened, the queued volume set and play sent once.\<close>

lemma caps_plays:
  assumes "push_caps e caps d = Returns (True, d1)" "pd_isPlayingDelayed d"
  obtains cs where "wa_calls (pd_client d1) = wa_calls (pd_client d) @ cs @
      (if pd_isVolumeQueued d then [W_setVolume (pd_volume d)] else []) @ [W_play]" "W_play \<notin> set cs"
    "\<not> pd_isPlayingDelayed d1" "\<not> pd_isVolumeQueued d1" "pd_sink d1 = pd_sink d"
    "pd_isStateCommitNeeded d1 = pd_isStateCommitNeeded d"
proof -
  obtain s where o: "web_open e caps (pd_client d) = Returns (True, s)"
    using assms(1) by (auto simp: push_caps_def Let_def split: outcome.splits if_splits)
  obtain cs where cs: "m_isOpen s" "wa_calls s = wa_calls (pd_client d) @ cs" "W_play \<notin> set cs"
    by (rule web_open_opened [OF o])
  show thesis
    using assms o cs that [of cs]
    by (auto simp: push_caps_def send_queued_volume_def play_if_delayed_def on_web_def web_setVolume_def web_play_def ask_def Let_def
        split: prod.splits if_splits bool.splits)
qed

definition web_caps :: GstCaps where
  "web_caps = \<lparr>caps_structure = (named_structure (Some ''audio/x-raw''))\<lparr>
     gst_structure_get_int := [''rate'' \<mapsto> 48000, ''channels'' \<mapsto> 2],
     gst_structure_get_string := [''format'' \<mapsto> ''S16LE'']\<rparr>, opus_parse_caps = None, opus_header = None\<rparr>"

text \<open>
  C38. A play request that comes before the caps is kept. When the player is not yet open, the change to
  PLAYING is asynchronous and no command is sent; the CAPS event that opens the player sets the queued
  volume and sends exactly one play command, and when the server reports PLAYING the sink commits the
  change: its state is PLAYING and the end of the asynchronous change is announced.
\<close>

theorem delayed_play_completes:
  assumes "\<not> isOpen (pd_client d)" "GST_STATE_NEXT (pd_sink d) = GST_STATE_PLAYING"
    "push_changeState running e GST_STATE_CHANGE_PAUSED_TO_PLAYING d = (r, d1)"
    "push_handleEvent e pad_default (EVENT_CAPS caps) d1 = Some (Returns (True, d2))"
  shows "r = GST_STATE_CHANGE_ASYNC \<and> wa_calls (pd_client d1) = wa_calls (pd_client d) \<and>
    (\<exists>cs. wa_calls (pd_client d2) = wa_calls (pd_client d) @ cs @
       (if pd_isVolumeQueued d then [W_setVolume (pd_volume d)] else []) @ [W_play] \<and> W_play \<notin> set cs) \<and>
    \<not> pd_isPlayingDelayed d2 \<and>
    (let d3 = notifyState WA_PLAYING d2
     in GST_STATE (pd_sink d3) = GST_STATE_PLAYING \<and> last (bus (pd_sink d3)) = MSG_ASYNC_DONE \<and>
        \<not> pd_isStateCommitNeeded d3)"
proof -
  have d1: "d1 = push_postAsyncStart (d\<lparr>pd_isPlayingDelayed := True\<rparr>)" "r = GST_STATE_CHANGE_ASYNC"
    using assms(1,3) by auto
  have c: "push_caps e caps d1 = Returns (True, d2)" "pd_isPlayingDelayed d1"
    using assms(4) by (simp_all add: d1 push_postAsyncStart_def)
  show ?thesis
  proof (rule caps_plays [OF c])
    fix cs
    assume "wa_calls (pd_client d2) = wa_calls (pd_client d1) @ cs @
        (if pd_isVolumeQueued d1 then [W_setVolume (pd_volume d1)] else []) @ [W_play]" "W_play \<notin> set cs"
      "\<not> pd_isPlayingDelayed d2" "\<not> pd_isVolumeQueued d2" "pd_sink d2 = pd_sink d1"
      "pd_isStateCommitNeeded d2 = pd_isStateCommitNeeded d1"
    then show ?thesis
      using assms(2) by (auto simp: d1 push_postAsyncStart_def push_handleStateChanged_def Let_def push_postAsyncDone_def)
  qed
qed

definition demo_push_delegate :: push_delegate where
  "demo_push_delegate = PushModeAudioPlaybackDelegate \<lparr>GST_STATE = GST_STATE_PAUSED, GST_STATE_NEXT = GST_STATE_PLAYING,
     GST_STATE_PENDING = GST_STATE_PLAYING, GST_STATE_RETURN = GST_STATE_CHANGE_ASYNC, bus = [], signals = []\<rparr>"

lemma web_caps_opened:
  assumes "\<not> m_isOpen (pd_client d)"
  shows "\<exists>d1. push_caps (demo_server a) web_caps d = Returns (True, d1)"
  using assms
  by (simp add: push_caps_def web_open_def web_caps_def named_structure_def parseGstStructureFormat_def open_in_loop_def Let_def
      demo_server_def send_queued_volume_def play_if_delayed_def on_web_def web_setVolume_def web_play_def)

theorem delayed_play_completes_witness:
  "\<exists>r d1 d2. push_changeState True (demo_server 1) GST_STATE_CHANGE_PAUSED_TO_PLAYING demo_push_delegate = (r, d1) \<and>
     push_handleEvent (demo_server 1) True (EVENT_CAPS web_caps) d1 = Some (Returns (True, d2)) \<and>
     r = GST_STATE_CHANGE_ASYNC \<and> last (wa_calls (pd_client d2)) = W_play"
proof -
  obtain r d1 where c: "push_changeState True (demo_server 1) GST_STATE_CHANGE_PAUSED_TO_PLAYING demo_push_delegate = (r, d1)"
    by fastforce
  have n: "\<not> isOpen (pd_client demo_push_delegate)" "GST_STATE_NEXT (pd_sink demo_push_delegate) = GST_STATE_PLAYING"
    by (simp_all add: isOpen_def demo_push_delegate_def PushModeAudioPlaybackDelegate_def GStreamerWebAudioPlayerClient_def)
  have "\<not> m_isOpen (pd_client d1)" using c n by (auto simp: push_postAsyncStart_def isOpen_def)
  then obtain d2 where e: "push_handleEvent (demo_server 1) True (EVENT_CAPS web_caps) d1 = Some (Returns (True, d2))"
    using web_caps_opened [of d1] by auto
  show ?thesis using delayed_play_completes [OF n c e] c e by auto
qed

text \<open>
  A delayed play outlives the session it was asked for. When the sink is taken from the pending
  PLAYING back to READY and to PAUSED again, the next CAPS event still starts playing: leaving PAUSED
  closes the player but does not forget the delayed play.
\<close>

theorem delayed_play_survives_ready:
  assumes "\<not> isOpen (pd_client d)"
    "push_changeState running e GST_STATE_CHANGE_PAUSED_TO_PLAYING d = (r1, d1)"
    "push_changeState running e GST_STATE_CHANGE_PAUSED_TO_READY d1 = (r2, d2)"
    "push_changeState running e GST_STATE_CHANGE_READY_TO_PAUSED d2 = (r3, d3)"
    "push_handleEvent e pad_default (EVENT_CAPS caps) d3 = Some (Returns (True, d4))"
  shows "r2 = GST_STATE_CHANGE_SUCCESS \<and> r3 = GST_STATE_CHANGE_SUCCESS \<and> last (wa_calls (pd_client d4)) = W_play"
proof -
  have d3: "pd_isPlayingDelayed d3" "r2 = GST_STATE_CHANGE_SUCCESS" "r3 = GST_STATE_CHANGE_SUCCESS"
    using assms(1-4) by (auto simp: push_postAsyncStart_def on_web_def web_close_def)
  have c: "push_caps e caps d3 = Returns (True, d4)" using assms(5) by simp
  show ?thesis by (rule caps_plays [OF c d3(1)]) (use d3 in auto)
qed

theorem delayed_play_survives_ready_witness:
  "\<exists>d1 d2 d3 d4. snd (push_changeState True (demo_server 1) GST_STATE_CHANGE_PAUSED_TO_PLAYING demo_push_delegate) = d1 \<and>
     snd (push_changeState True (demo_server 1) GST_STATE_CHANGE_PAUSED_TO_READY d1) = d2 \<and>
     snd (push_changeState True (demo_server 1) GST_STATE_CHANGE_READY_TO_PAUSED d2) = d3 \<and>
     push_handleEvent (demo_server 1) True (EVENT_CAPS web_caps) d3 = Some (Returns (True, d4)) \<and>
     last (wa_calls (pd_client d4)) = W_play"
proof -
  let ?c = "push_changeState True (demo_server 1)"
  obtain r1 d1 where c1: "?c GST_STATE_CHANGE_PAUSED_TO_PLAYING demo_push_delegate = (r1, d1)" by fastforce
  obtain r2 d2 where c2: "?c GST_STATE_CHANGE_PAUSED_TO_READY d1 = (r2, d2)" by fastforce
  obtain r3 d3 where c3: "?c GST_STATE_CHANGE_READY_TO_PAUSED d2 = (r3, d3)" by fastforce
  have n: "\<not> isOpen (pd_client demo_push_delegate)"
    by (simp add: isOpen_def demo_push_delegate_def PushModeAudioPlaybackDelegate_def GStreamerWebAudioPlayerClient_def)
  have "\<not> m_isOpen (pd_client d3)" using c2 c3 by (auto simp: on_web_def web_close_def)
  then obtain d4 where e: "push_handleEvent (demo_server 1) True (EVENT_CAPS web_caps) d3 = Some (Returns (True, d4))"
    using web_caps_opened [of d3] by auto
  show ?thesis using delayed_play_survives_ready [OF n c1 c2 c3 e] c1 c2 c3 e by auto
qed

end
