(* ===== verification/Web_Audio_Backend.thy ===== *)
theory Web_Audio_Backend
  imports Push_Delegate
begin

text \<open>
  \<open>WebAudioClientBackend.h\<close>: the object between a web audio client and its player. It owns the player of the
  Rialto client library and passes every call on to it, without looking whether there is one.

  The player is not part of the repository: it is a value of a type \<open>'p\<close> with a function that says what a
  call returns and what becomes of the player. A call through a null pointer has the value \<open>None\<close>.
  \<open>web_replay\<close> plays the calls that a web audio client has recorded on an object of the class; the factory
  answers as \<open>wa_create\<close> does after the same calls.

  The operations of the push mode delegate, one after the other, never call through the null pointer. Setting
  the volume, however, tests whether the player is open in one call of the event loop and sets the volume in
  another: a change to READY by another thread in between closes the player.

  The streaming thread waits outside the event loop while the queue of samples is full. Closing the player in
  that state leaves it waiting.
\<close>

section \<open>The class\<close>

datatype player_call =
    WP_play | WP_pause | WP_setEos | WP_getBufferAvailable | WP_getBufferDelay | WP_writeBuffer u32 "u8 list"
  | WP_getDeviceInfo | WP_setVolume real | WP_getVolume

type_synonym ('p, 'r) web_player = "player_call \<Rightarrow> 'p \<Rightarrow> 'r \<times> 'p"

record 'p web_backend_object =
  m_webAudioPlayerBackend :: "'p option"

type_synonym ('p, 'r) web_backend_method = "'p web_backend_object \<Rightarrow> ('r \<times> 'p web_backend_object) option"

definition WebAudioClientBackend :: "'p web_backend_object" where
  "WebAudioClientBackend = \<lparr>m_webAudioPlayerBackend = None\<rparr>"

definition createWebAudioBackend ::
  "(string \<Rightarrow> u32 \<Rightarrow> WebAudioPcmConfig \<Rightarrow> 'p option) \<Rightarrow> string \<Rightarrow> u32 \<Rightarrow> WebAudioPcmConfig \<Rightarrow>
   'p web_backend_object \<Rightarrow> bool \<times> 'p web_backend_object" where
  "createWebAudioBackend create audioMimeType priority config b =
     (let b1 = b\<lparr>m_webAudioPlayerBackend := create audioMimeType priority config\<rparr>
      in if m_webAudioPlayerBackend b1 = None then (False, b1) else (True, b1))"

definition destroyWebAudioBackend :: "'p web_backend_object \<Rightarrow> 'p web_backend_object" where
  "destroyWebAudioBackend b = b\<lparr>m_webAudioPlayerBackend := None\<rparr>"

definition web_forward :: "('p, 'r) web_player \<Rightarrow> player_call \<Rightarrow> ('p, 'r) web_backend_method" where
  "web_forward player c b =
     (case m_webAudioPlayerBackend b of
        None \<Rightarrow> None
      | Some p \<Rightarrow> (case player c p of (r, p1) \<Rightarrow> Some (r, b\<lparr>m_webAudioPlayerBackend := Some p1\<rparr>)))"

definition web_backend_play :: "('p, 'r) web_player \<Rightarrow> ('p, 'r) web_backend_method" where
  "web_backend_play player = web_forward player WP_play"

definition web_backend_pause :: "('p, 'r) web_player \<Rightarrow> ('p, 'r) web_backend_method" where
  "web_backend_pause player = web_forward player WP_pause"

definition web_backend_setEos :: "('p, 'r) web_player \<Rightarrow> ('p, 'r) web_backend_method" where
  "web_backend_setEos player = web_forward player WP_setEos"

definition web_backend_getBufferAvailable :: "('p, 'r) web_player \<Rightarrow> ('p, 'r) web_backend_method" where
  "web_backend_getBufferAvailable player = web_forward player WP_getBufferAvailable"

definition web_backend_getBufferDelay :: "('p, 'r) web_player \<Rightarrow> ('p, 'r) web_backend_method" where
  "web_backend_getBufferDelay player = web_forward player WP_getBufferDelay"

definition web_backend_writeBuffer :: "('p, 'r) web_player \<Rightarrow> u32 \<Rightarrow> u8 list \<Rightarrow> ('p, 'r) web_backend_method" where
  "web_backend_writeBuffer player numberOfFrames bytes = web_forward player (WP_writeBuffer numberOfFrames bytes)"

definition web_backend_getDeviceInfo :: "('p, 'r) web_player \<Rightarrow> ('p, 'r) web_backend_method" where
  "web_backend_getDeviceInfo player = web_forward player WP_getDeviceInfo"

definition web_backend_setVolume :: "('p, 'r) web_player \<Rightarrow> real \<Rightarrow> ('p, 'r) web_backend_method" where
  "web_backend_setVolume player volume = web_forward player (WP_setVolume volume)"

definition web_backend_getVolume :: "('p, 'r) web_player \<Rightarrow> ('p, 'r) web_backend_method" where
  "web_backend_getVolume player = web_forward player WP_getVolume"

section \<open>The calls of a client\<close>

fun web_do ::
  "('p, 'r) web_player \<Rightarrow> (string \<Rightarrow> u32 \<Rightarrow> WebAudioPcmConfig \<Rightarrow> 'p option) \<Rightarrow> wa_call \<Rightarrow>
   'p web_backend_object \<Rightarrow> 'p web_backend_object option" where
  "web_do player create (W_create mime priority config) b = Some (snd (createWebAudioBackend create mime priority config b))"
| "web_do player create W_destroy b = Some (destroyWebAudioBackend b)"
| "web_do player create W_getDeviceInfo b = map_option snd (web_backend_getDeviceInfo player b)"
| "web_do player create W_play b = map_option snd (web_backend_play player b)"
| "web_do player create W_pause b = map_option snd (web_backend_pause player b)"
| "web_do player create W_setEos b = map_option snd (web_backend_setEos player b)"
| "web_do player create W_getBufferAvailable b = map_option snd (web_backend_getBufferAvailable player b)"
| "web_do player create (W_writeBuffer n bytes) b = map_option snd (web_backend_writeBuffer player n bytes b)"
| "web_do player create (W_setVolume volume) b = map_option snd (web_backend_setVolume player volume b)"
| "web_do player create W_getVolume b = map_option snd (web_backend_getVolume player b)"

text \<open>The factory makes the player \<open>new\<close> when the environment says that it makes one.\<close>

definition factory :: "wa_env \<Rightarrow> 'p \<Rightarrow> wa_call list \<Rightarrow> string \<Rightarrow> u32 \<Rightarrow> WebAudioPcmConfig \<Rightarrow> 'p option" where
  "factory e new past mime priority config = (if wa_create e past then Some new else None)"

fun web_replay ::
  "wa_env \<Rightarrow> ('p, 'r) web_player \<Rightarrow> 'p \<Rightarrow> wa_call list \<Rightarrow> wa_call list \<Rightarrow> 'p web_backend_object \<Rightarrow>
   'p web_backend_object option" where
  "web_replay e player new past [] b = Some b"
| "web_replay e player new past (c # cs) b =
     (case web_do player (factory e new past) c b of
        None \<Rightarrow> None
      | Some b1 \<Rightarrow> web_replay e player new (past @ [c]) cs b1)"

definition web_played :: "wa_env \<Rightarrow> ('p, 'r) web_player \<Rightarrow> 'p \<Rightarrow> web_client \<Rightarrow> 'p web_backend_object option" where
  "web_played e player new s = web_replay e player new [] (wa_calls s) WebAudioClientBackend"

text \<open>The player exists exactly while the client says that it is open.\<close>

definition backed :: "wa_env \<Rightarrow> ('p, 'r) web_player \<Rightarrow> 'p \<Rightarrow> web_client \<Rightarrow> bool" where
  "backed e player new s \<longleftrightarrow>
     (\<exists>b. web_played e player new s = Some b \<and> (m_webAudioPlayerBackend b \<noteq> None \<longleftrightarrow> m_isOpen s))"

section \<open>The client keeps its player\<close>

lemma web_replay_snoc:
  "web_replay e player new past (cs @ [c]) b =
     (case web_replay e player new past cs b of
        None \<Rightarrow> None
      | Some b1 \<Rightarrow> web_do player (factory e new (past @ cs)) c b1)"
  by (induction cs arbitrary: past b) (auto split: option.splits)

lemma web_played_ask:
  "web_played e player new (ask c s) =
     (case web_played e player new s of None \<Rightarrow> None | Some b \<Rightarrow> web_do player (factory e new (wa_calls s)) c b)"
  using web_replay_snoc [of e player new "[]" "wa_calls s" c, unfolded append_Nil] by (simp add: web_played_def ask_def)

lemma backed_cong:
  assumes "wa_calls s' = wa_calls s" "m_isOpen s' = m_isOpen s"
  shows "backed e player new s' = backed e player new s"
  unfolding backed_def web_played_def assms ..

lemma backed_updates [simp]:
  "backed e player new (s\<lparr>m_dataBuffers := q\<rparr>) = backed e player new s"
  "backed e player new (s\<lparr>m_pushSamplesTimer := t\<rparr>) = backed e player new s"
  "backed e player new (s\<lparr>web_isEos := x\<rparr>) = backed e player new s"
  by (rule backed_cong; simp)+

fun through :: "wa_call \<Rightarrow> bool" where
  "through (W_create mime priority config) = False" | "through W_destroy = False" | "through _ = True"

lemmas web_backend_methods =
  web_backend_play_def web_backend_pause_def web_backend_setEos_def web_backend_getBufferAvailable_def
  web_backend_writeBuffer_def web_backend_getDeviceInfo_def web_backend_setVolume_def web_backend_getVolume_def

lemma web_do_live:
  "through c \<Longrightarrow> m_webAudioPlayerBackend b = Some p \<Longrightarrow>
     \<exists>b1. web_do player create c b = Some b1 \<and> m_webAudioPlayerBackend b1 \<noteq> None"
  by (cases c) (auto simp: web_backend_methods web_forward_def split: prod.splits)

lemma backed_ask:
  assumes "through c" "m_isOpen s" "backed e player new s"
  shows "backed e player new (ask c s)"
proof -
  obtain b p where "web_played e player new s = Some b" "m_webAudioPlayerBackend b = Some p"
    using assms(2,3) by (auto simp: backed_def)
  with web_do_live [OF assms(1) this(2), of player "factory e new (wa_calls s)"] assms(2) show ?thesis
    by (auto simp: backed_def web_played_ask ask_simps)
qed

lemma backed_open_in_loop:
  assumes "backed e player new s" "open_in_loop e mime pcm s = (r, s')"
  shows "backed e player new s' \<and> (r \<longrightarrow> m_isOpen s')"
proof (cases "m_isOpen s \<longrightarrow> isNewConfig mime pcm s")
  case True
  define s1 where "s1 = (if m_isOpen s then ask W_destroy s else s)"
  define s2 where "s2 = ask (W_create mime 1 pcm) s1"
  obtain b where b: "web_played e player new s1 = Some b"
    using assms(1) by (auto simp: s1_def backed_def web_played_ask)
  then have b2: "web_played e player new s2 =
      Some \<lparr>m_webAudioPlayerBackend = (if wa_create e (wa_calls s1) then Some new else None)\<rparr>"
    by (simp add: s2_def web_played_ask createWebAudioBackend_def factory_def Let_def)
  show ?thesis
  proof (cases "wa_create e (wa_calls s1)")
    case created: True
    then have "backed e player new (s2\<lparr>m_isOpen := True\<rparr>)"
      using b2 by (simp add: backed_def web_played_def)
    then have "backed e player new (ask W_getDeviceInfo (s2\<lparr>m_isOpen := True\<rparr>))"
      by (intro backed_ask) simp_all
    moreover have "wa_calls s' = wa_calls s2 @ [W_getDeviceInfo]" "m_isOpen s'" 
      using assms(2) True created
      by (auto simp: open_in_loop_def Let_def s1_def s2_def split: prod.splits if_splits)
    ultimately show ?thesis
      using backed_cong [of s' "ask W_getDeviceInfo (s2\<lparr>m_isOpen := True\<rparr>)" e player new] by simp
  next
    case False
    then have "r = False" "s' = s2\<lparr>m_isOpen := False\<rparr>"
      using assms(2) True by (auto simp: open_in_loop_def Let_def s1_def s2_def split: if_splits)
    with b2 False show ?thesis by (simp add: backed_def web_played_def)
  qed
next
  case False
  with assms show ?thesis by (simp add: open_in_loop_def)
qed

lemma backed_open:
  assumes "backed e player new s" "web_open e caps s = Returns (r, s')"
  shows "backed e player new s' \<and> (r \<longrightarrow> m_isOpen s')"
  using assms by (auto simp: web_open_def Let_def dest: backed_open_in_loop split: option.splits if_splits prod.splits)

lemma backed_close:
  assumes "backed e player new s"
  shows "backed e player new (snd (web_close s))" "web_played e player new (snd (web_close s)) = Some \<lparr>m_webAudioPlayerBackend = None\<rparr>"
proof -
  obtain b where "web_played e player new s = Some b" using assms by (auto simp: backed_def)
  then have "web_played e player new (ask W_destroy s) = Some \<lparr>m_webAudioPlayerBackend = None\<rparr>"
    by (simp add: web_played_ask destroyWebAudioBackend_def)
  then show "web_played e player new (snd (web_close s)) = Some \<lparr>m_webAudioPlayerBackend = None\<rparr>"
    by (simp add: web_close_def web_played_def)
  then show "backed e player new (snd (web_close s))" by (simp add: backed_def web_close_def)
qed

lemma backed_calls:
  assumes "backed e player new s"
  shows "backed e player new (snd (web_play e s))" "backed e player new (snd (web_pause e s))"
    "m_isOpen s \<Longrightarrow> backed e player new (snd (web_setVolume e v s))" "m_isOpen s \<Longrightarrow> backed e player new (snd (web_getVolume e s))"
  using assms by (simp_all add: web_play_def web_pause_def web_setVolume_def web_getVolume_def backed_ask)

lemma backed_write_front:
  "m_isOpen s \<Longrightarrow> backed e player new s \<Longrightarrow> write_front e n b s = (r, s1) \<Longrightarrow> m_isOpen s1 \<and> backed e player new s1"
  by (auto simp: write_front_def backed_ask split: if_splits)

lemma backed_push_front:
  assumes "m_isOpen s" "backed e player new s"
  shows "backed e player new (push_front e a b rest s)"
proof -
  obtain r s1 where w: "write_front e (min a (of_nat (gst_buffer_get_size b div unat (m_frameSize s)))) b s = (r, s1)"
    by fastforce
  with backed_write_front [OF assms this] show ?thesis by (auto simp: push_front_def Let_def split: list.splits)
qed

lemma backed_push_round:
  assumes "m_isOpen s" "backed e player new s" "push_round e s = Inr (a, s1)"
  shows "m_isOpen s1 \<and> backed e player new s1"
proof -
  have "backed e player new (ask W_getBufferAvailable s)" using assms(1,2) by (simp add: backed_ask)
  with assms show ?thesis
    by (auto simp: push_round_def backed_push_front split: prod.splits bool.splits if_splits list.splits)
qed

lemma backed_push_loop:
  assumes "push_loop e s = Some y"
  shows "\<forall>s'. m_isOpen s \<longrightarrow> backed e player new s \<longrightarrow> y = Inr s' \<longrightarrow> m_isOpen s' \<and> backed e player new s'"
proof (rule push_loop.raw_induct [where P = "\<lambda>e s y. \<forall>s'. m_isOpen s \<longrightarrow> backed e player new s \<longrightarrow> y = Inr s' \<longrightarrow>
      m_isOpen s' \<and> backed e player new s'", OF _ assms])
  fix loop e s y
  assume ih: "\<And>e s y. loop e s = Some y \<Longrightarrow> \<forall>s'. m_isOpen s \<longrightarrow> backed e player new s \<longrightarrow> y = Inr s' \<longrightarrow>
        m_isOpen s' \<and> backed e player new s'"
    and body: "(case push_round e s of Inl f \<Rightarrow> Some (Inl f)
      | Inr (availableFrames, s1) \<Rightarrow>
          if m_dataBuffers s1 \<noteq> [] \<and> availableFrames \<noteq> 0 then loop e s1 else Some (Inr s1)) = Some y"
  show "\<forall>s'. m_isOpen s \<longrightarrow> backed e player new s \<longrightarrow> y = Inr s' \<longrightarrow> m_isOpen s' \<and> backed e player new s'"
    using body ih backed_push_round [of s e player new] by (fastforce split: sum.splits prod.splits if_splits)
qed

lemma backed_pushSamples:
  assumes "backed e player new s" "pushSamples e s = Some (Inr s')"
  shows "backed e player new s'"
proof (cases "m_isOpen s \<and> m_dataBuffers s \<noteq> []")
  case True
  then obtain y where y: "push_loop e s = Some y" "map_sum id after_push y = Inr s'"
    using assms by (auto simp: pushSamples_def)
  then obtain t where "y = Inr t" "s' = after_push t" by (cases y) auto
  with backed_push_loop [OF y(1), of player new] True assms(1) show ?thesis by (auto simp: after_push_def backed_ask)
next
  case False
  with assms show ?thesis by (auto simp: pushSamples_def)
qed

lemma backed_setEos:
  assumes "backed e player new s" "web_setEos e s = Some (Inr (r, s'))"
  shows "backed e player new s'"
proof (cases "m_isOpen s \<and> \<not> web_isEos s \<and> m_dataBuffers s \<noteq> []")
  case True
  then obtain y where y: "pushSamples e (s\<lparr>web_isEos := True\<rparr>) = Some y" "map_sum id (\<lambda>s2. (True, s2)) y = Inr (r, s')"
    using assms(2) by (auto simp: web_setEos_def)
  then have "y = Inr s'" by (cases y) auto
  with y(1) backed_pushSamples [of e player new "s\<lparr>web_isEos := True\<rparr>"] assms(1) show ?thesis by simp
next
  case False
  with assms show ?thesis by (auto simp: web_setEos_def backed_ask split: if_splits)
qed

section \<open>The delegate keeps the player of its client\<close>

lemma on_web_client: "on_web f d = (r, d1) \<Longrightarrow> f (pd_client d) = (r, pd_client d1)"
  by (auto simp: on_web_def split: prod.splits)

lemma backed_on_web:
  "on_web f d = (r, d1) \<Longrightarrow> backed e player new (snd (f (pd_client d))) \<Longrightarrow> backed e player new (pd_client d1)"
  by (auto dest: on_web_client)

lemma client_of_notifications [simp]:
  "pd_client (push_postAsyncStart d) = pd_client d" "pd_client (push_postAsyncDone d) = pd_client d"
  "pd_client (push_handleEos d) = pd_client d" "pd_client (push_handleStateChanged st d) = pd_client d"
  "pd_client (push_handleError m n d) = pd_client d"
  by (simp_all add: push_postAsyncStart_def push_postAsyncDone_def push_handleEos_def push_handleStateChanged_def
      push_handleError_def Let_def)

lemma backed_notifyState: "backed e player new (pd_client d) \<Longrightarrow> backed e player new (pd_client (notifyState st d))"
  by (cases st) (simp_all add: Let_def)

lemma backed_push_async:
  assumes "backed e player new (snd (f (pd_client d)))" "push_async f d = (r, d1)"
  shows "backed e player new (pd_client d1)"
  using assms by (auto simp: push_async_def dest: backed_on_web split: prod.splits bool.splits)

lemma backed_changeState:
  assumes "backed e player new (pd_client d)" "push_changeState running e t d = (r, d1)"
  shows "backed e player new (pd_client d1)"
proof (cases t)
  case GST_STATE_CHANGE_PAUSED_TO_PLAYING
  with assms(2) backed_push_async [of e player new "web_play e" d] backed_calls(1) [OF assms(1)] assms(1)
  show ?thesis by (auto split: if_splits)
next
  case GST_STATE_CHANGE_PLAYING_TO_PAUSED
  with assms(2) backed_push_async [of e player new "web_pause e" d] backed_calls(2) [OF assms(1)]
  show ?thesis by simp
next
  case GST_STATE_CHANGE_PAUSED_TO_READY
  with assms(2) backed_on_web [of web_close d] backed_close(1) [OF assms(1)]
  show ?thesis by (auto split: prod.splits bool.splits)
qed (use assms in \<open>auto split: if_splits\<close>)

lemma backed_caps:
  assumes "backed e player new (pd_client d)" "push_caps e caps d = Returns (r, d1)"
  shows "backed e player new (pd_client d1)"
proof -
  obtain opened s where o: "web_open e caps (pd_client d) = Returns (opened, s)"
    using assms(2) by (auto simp: push_caps_def split: outcome.splits)
  have b: "backed e player new s" "opened \<longrightarrow> m_isOpen s" using backed_open [OF assms(1) o] by simp_all
  show ?thesis
  proof (cases opened)
    case True
    let ?d = "d\<lparr>pd_client := s\<rparr>"
    obtain v d2 where v: "send_queued_volume e ?d = (v, d2)" by fastforce
    have d2: "backed e player new (pd_client d2)"
      using v b True backed_calls(3) [OF b(1), of "pd_volume d"]
      by (auto simp: send_queued_volume_def on_web_def split: if_splits prod.splits bool.splits)
    obtain pl d3 where pl: "play_if_delayed e d2 = (pl, d3)" by fastforce
    have "backed e player new (pd_client d3)"
      using pl d2 backed_calls(1) [OF d2]
      by (auto simp: play_if_delayed_def on_web_def split: if_splits prod.splits bool.splits)
    with assms(2) o v pl True show ?thesis by (simp add: push_caps_def)
  next
    case False
    with assms(2) o b show ?thesis by (auto simp: push_caps_def Let_def)
  qed
qed

lemma backed_event:
  assumes "backed e player new (pd_client d)" "push_handleEvent e pad ev d = Some (Returns (r, d1))"
  shows "backed e player new (pd_client d1)"
proof (cases ev)
  case EVENT_EOS
  with assms(2) obtain y where "web_setEos e (pd_client d) = Some y"
    "(case y of Inl f \<Rightarrow> Faults f | Inr (ok, s) \<Rightarrow> Returns (ok, d\<lparr>pd_client := s\<rparr>)) = Returns (r, d1)" by auto
  with backed_setEos [OF assms(1)] show ?thesis by (auto split: sum.splits)
next
  case (EVENT_CAPS caps)
  with assms backed_caps [OF assms(1)] show ?thesis by simp
qed (use assms in auto)

lemma backed_properties:
  assumes "backed e player new (pd_client d)"
  shows "backed e player new (pd_client (push_setProperty e p v d))"
    "backed e player new (pd_client (snd (push_getProperty e p d)))"
proof -
  have o: "backed e player new (snd (web_setVolume e w (pd_client d)))" "backed e player new (snd (web_getVolume e (pd_client d)))"
    if "isOpen (pd_client d)" for w
    using that backed_calls(3,4) [OF assms] by (simp_all add: isOpen_def)
  show "backed e player new (pd_client (push_setProperty e p v d))"
    using assms o(1) by (simp add: push_setProperty_def Let_def on_web_def case_prod_beta)
  show "backed e player new (pd_client (snd (push_getProperty e p d)))"
    using assms o(2) by (auto simp: push_getProperty_def on_web_def case_prod_beta split: prod.splits bool.splits)
qed

lemma backed_newSample:
  assumes "backed e player new s" "notifyNewSample_in_loop e b s = Some (Inr s')"
  shows "backed e player new s'"
  using assms(2) unfolding notifyNewSample_in_loop_def by (rule backed_pushSamples [rotated]) (simp add: assms(1))

section \<open>Everything that can happen to a push mode delegate\<close>

text \<open>Its methods, the expiry of the timer, a call of \<open>handleBuffer\<close> that has waited for space, the
  notifications of the server and what GStreamer does with the element.\<close>

inductive push_step :: "wa_env \<Rightarrow> push_delegate \<Rightarrow> push_delegate \<Rightarrow> bool" for e where
  state: "push_changeState running e t d = (r, d') \<Longrightarrow> push_step e d d'"
| event: "push_handleEvent e pad_default ev d = Some (Returns (r, d')) \<Longrightarrow> push_step e d d'"
| buffer: "push_handleBuffer e b d = Some (Returns (r, d')) \<Longrightarrow> push_step e d d'"
| buffer_woken: "notifyNewSample_in_loop e b (pd_client d) = Some (Inr s) \<Longrightarrow> push_step e d (d\<lparr>pd_client := s\<rparr>)"
| setProperty: "push_step e d (push_setProperty e p v d)"
| getProperty: "push_getProperty e p d = (v, d') \<Longrightarrow> push_step e d d'"
| timer: "notifyPushSamplesTimerExpired e (pd_client d) = Some (Inr s) \<Longrightarrow> push_step e d (d\<lparr>pd_client := s\<rparr>)"
| notify: "push_step e d (notifyState st d)"
| element: "push_step e d (d\<lparr>pd_sink := sink\<rparr>)"

lemma backed_step:
  assumes "push_step e d d'" "backed e player new (pd_client d)"
  shows "backed e player new (pd_client d')"
  using assms(1)
proof cases
  case (buffer b r)
  then obtain y where "notifyNewSample_in_loop e b (pd_client d) = Some y"
    "(case y of Inl f \<Rightarrow> Faults f | Inr s \<Rightarrow> Returns (GST_FLOW_OK, d\<lparr>pd_client := s\<rparr>)) = Returns (r, d')"
    by (auto simp: push_handleBuffer_def notifyNewSample_def split: if_splits)
  with backed_newSample [OF assms(2)] show ?thesis by (auto split: sum.splits)
next
  case (getProperty p v)
  with backed_properties(2) [OF assms(2), of p] show ?thesis by simp
qed (use assms(2) in \<open>auto dest: backed_changeState backed_event backed_newSample backed_pushSamples
    intro: backed_properties(1) backed_notifyState simp: notifyPushSamplesTimerExpired_def\<close>)

definition new_push_delegate :: "push_delegate \<Rightarrow> bool" where
  "new_push_delegate d \<longleftrightarrow> (\<exists>sink. d = PushModeAudioPlaybackDelegate sink)"

interpretation push_runs: invariant_system new_push_delegate "push_step e" "\<lambda>d. backed e player new (pd_client d)"
  for e :: wa_env and player :: "('p, 'r) web_player" and new :: 'p
proof
  show "backed e player new (pd_client d)" if "new_push_delegate d" for d
    using that by (auto simp: new_push_delegate_def PushModeAudioPlaybackDelegate_def GStreamerWebAudioPlayerClient_def
        backed_def web_played_def WebAudioClientBackend_def)
  show "backed e player new (pd_client d')" if "push_step e d d'" "backed e player new (pd_client d)" for d d'
    using that by (rule backed_step)
qed

section \<open>The queue of samples\<close>

lemma web_queue_kept [simp]:
  "m_dataBuffers (ask c s) = m_dataBuffers s" "m_dataBuffers (snd (web_close s)) = m_dataBuffers s"
  "m_dataBuffers (snd (web_setVolume e v s)) = m_dataBuffers s" "m_isOpen (snd (web_setVolume e v s)) = m_isOpen s"
  "m_dataBuffers (snd (web_getVolume e s)) = m_dataBuffers s" "m_isOpen (snd (web_getVolume e s)) = m_isOpen s"
  by (simp_all add: ask_def web_close_def web_setVolume_def web_getVolume_def)

lemma web_open_queue: "web_open e caps s = Returns (r, s') \<Longrightarrow> m_dataBuffers s' = m_dataBuffers s"
  by (auto simp: web_open_def open_in_loop_def Let_def split: option.splits if_splits prod.splits)

lemma after_open_queue [simp]:
  "m_dataBuffers (pd_client (snd (send_queued_volume e d))) = m_dataBuffers (pd_client d)"
  "m_dataBuffers (pd_client (snd (play_if_delayed e d))) = m_dataBuffers (pd_client d)"
  by (auto simp: send_queued_volume_def play_if_delayed_def on_web_def web_setVolume_def web_play_def
      split: prod.splits bool.splits)

lemma caps_queue:
  assumes "push_caps e caps d = Returns (r, d')"
  shows "m_dataBuffers (pd_client d') = m_dataBuffers (pd_client d)"
proof -
  obtain opened s where o: "web_open e caps (pd_client d) = Returns (opened, s)"
    using assms by (auto simp: push_caps_def split: outcome.splits)
  let ?d1 = "d\<lparr>pd_client := s\<rparr>"
  have "d' = (if opened then snd (play_if_delayed e (snd (send_queued_volume e ?d1))) else ?d1)"
    using assms o by (simp add: push_caps_def Let_def split: if_splits prod.splits)
  with web_open_queue [OF o] show ?thesis by simp
qed

section \<open>Properties\<close>

text \<open>
  C34. The calls of a web audio sink reach its player. Whatever is done with a push mode delegate, one
  operation after the other (state changes, caps, end of stream, buffers, volume, the expiry of the timer,
  notifications of the server), the calls that its client makes can be executed on an object of the class
  \<open>WebAudioClientBackend\<close> without a call through its null pointer, for every behaviour of the player, and the
  object has a player exactly while the client says that it is open.
\<close>

theorem web_calls_reach_player:
  fixes player :: "('p, 'r) web_player" and new :: 'p
  assumes "(push_step e)\<^sup>*\<^sup>* (PushModeAudioPlaybackDelegate sink) d"
  shows "\<exists>b. web_replay e player new [] (wa_calls (pd_client d)) WebAudioClientBackend = Some b \<and>
    (m_webAudioPlayerBackend b \<noteq> None \<longleftrightarrow> isOpen (pd_client d))"
  using push_runs.inv_reachable [OF _ assms, of player new]
  by (auto simp: new_push_delegate_def backed_def web_played_def isOpen_def)

text \<open>A delegate whose player was opened by a CAPS event.\<close>

lemma demo_opened:
  obtains d where "(push_step (demo_server a))\<^sup>*\<^sup>* (PushModeAudioPlaybackDelegate sink) d" "isOpen (pd_client d)"
    "m_dataBuffers (pd_client d) = []"
proof -
  let ?d0 = "PushModeAudioPlaybackDelegate sink"
  have "\<not> m_isOpen (pd_client ?d0)" by (simp add: PushModeAudioPlaybackDelegate_def GStreamerWebAudioPlayerClient_def)
  from web_caps_opened [OF this] obtain d where d: "push_caps (demo_server a) web_caps ?d0 = Returns (True, d)" by blast
  then have "push_step (demo_server a) ?d0 d" using push_step.event [of "demo_server a" True "EVENT_CAPS web_caps" ?d0 True d] by simp
  moreover have "isOpen (pd_client d)"
    using d by (auto simp: push_caps_def web_open_def web_caps_def named_structure_def parseGstStructureFormat_def open_in_loop_def
        Let_def demo_server_def send_queued_volume_def play_if_delayed_def isOpen_def PushModeAudioPlaybackDelegate_def
        GStreamerWebAudioPlayerClient_def)
  moreover have "m_dataBuffers (pd_client d) = []"
    using caps_queue [OF d] by (simp add: PushModeAudioPlaybackDelegate_def GStreamerWebAudioPlayerClient_def)
  ultimately show thesis using that by blast
qed

theorem web_calls_reach_player_witness:
  "\<exists>d b. (push_step (demo_server 1))\<^sup>*\<^sup>* demo_push_delegate d \<and>
     web_replay (demo_server 1) (\<lambda>c n. ((), Suc n)) 0 [] (wa_calls (pd_client d)) WebAudioClientBackend = Some b \<and>
     m_webAudioPlayerBackend b \<noteq> None"
proof -
  obtain d where d: "(push_step (demo_server 1))\<^sup>*\<^sup>* demo_push_delegate d" "isOpen (pd_client d)"
    unfolding demo_push_delegate_def by (rule demo_opened)
  note live = web_calls_reach_player [OF d(1) [unfolded demo_push_delegate_def], of "\<lambda>c n. ((), Suc n)" 0]
  with d show ?thesis by blast
qed

text \<open>The two calls of the event loop in which \<open>setProperty\<close> sets the volume.\<close>

definition volume_test :: "real \<Rightarrow> push_delegate \<Rightarrow> bool \<times> push_delegate" where
  "volume_test volume d = (let d1 = d\<lparr>pd_volume := volume\<rparr> in (isOpen (pd_client d1), d1))"

definition volume_send :: "wa_env \<Rightarrow> push_delegate \<Rightarrow> push_delegate" where
  "volume_send e d = snd (on_web (web_setVolume e (pd_volume d)) d)"

lemma volume_in_two_calls:
  "push_setProperty e Volume (V_double volume) d =
     (case volume_test volume d of (opened, d1) \<Rightarrow> if opened then volume_send e d1 else d1\<lparr>pd_isVolumeQueued := True\<rparr>)"
  by (simp add: push_setProperty_def volume_test_def volume_send_def Let_def)

text \<open>
  C35. Setting the volume races with closing the player. When another thread takes an open web audio sink
  from PAUSED to READY between the two calls of the event loop that \<open>setProperty\<close> makes for a volume, the
  test has said that the player is open, the change of the state succeeds, and the second call goes through
  the null pointer of \<open>WebAudioClientBackend\<close>.
\<close>

theorem volume_races_with_close:
  fixes player :: "('p, 'r) web_player" and new :: 'p
  assumes "(push_step e)\<^sup>*\<^sup>* (PushModeAudioPlaybackDelegate sink) d" "isOpen (pd_client d)"
    and "volume_test volume d = (opened, d1)"
    and "push_changeState running e GST_STATE_CHANGE_PAUSED_TO_READY d1 = (r, d2)"
  shows "opened \<and> r = GST_STATE_CHANGE_SUCCESS \<and>
    web_replay e player new [] (wa_calls (pd_client (volume_send e d2))) WebAudioClientBackend = None"
proof -
  have b: "backed e player new (pd_client d)"
    by (rule push_runs.inv_reachable [OF _ assms(1)]) (auto simp: new_push_delegate_def)
  have d1: "opened" "pd_client d1 = pd_client d" using assms(2,3) by (auto simp: volume_test_def Let_def)
  have d2: "r = GST_STATE_CHANGE_SUCCESS" "pd_client d2 = snd (web_close (pd_client d))"
    using assms(4) d1(2) by (auto simp: on_web_def web_close_def)
  have "pd_client (volume_send e d2) = ask (W_setVolume (pd_volume d2)) (pd_client d2)"
    by (simp add: volume_send_def on_web_def web_setVolume_def)
  then have "web_played e player new (pd_client (volume_send e d2)) = None"
    using backed_close(2) [OF b] d2(2) by (simp add: web_played_ask web_backend_setVolume_def web_forward_def)
  with d1 d2 show ?thesis by (simp add: web_played_def)
qed

theorem volume_races_with_close_witness:
  "\<exists>d d1 d2. isOpen (pd_client d) \<and> volume_test 1 d = (True, d1) \<and>
     push_changeState True (demo_server 1) GST_STATE_CHANGE_PAUSED_TO_READY d1 = (GST_STATE_CHANGE_SUCCESS, d2) \<and>
     web_replay (demo_server 1) (\<lambda>c n. ((), Suc n)) 0 [] (wa_calls (pd_client (volume_send (demo_server 1) d2)))
       WebAudioClientBackend = None"
proof -
  obtain d where d: "(push_step (demo_server 1))\<^sup>*\<^sup>* (PushModeAudioPlaybackDelegate sink) d" "isOpen (pd_client d)"
    by (rule demo_opened)
  obtain opened d1 where v: "volume_test 1 d = (opened, d1)" by fastforce
  obtain r d2 where c: "push_changeState True (demo_server 1) GST_STATE_CHANGE_PAUSED_TO_READY d1 = (r, d2)" by fastforce
  note race = volume_races_with_close [OF d v c, of "\<lambda>c n. ((), Suc n)" 0]
  with d v c show ?thesis by (intro exI [of _ d] exI [of _ d1] exI [of _ d2]) simp
qed

section \<open>Closing a player with a full queue\<close>

text \<open>The delegate whose player is closed while the queue of samples is full, and a step that does not
  open the player again.\<close>

definition stranded :: "push_delegate \<Rightarrow> bool" where
  "stranded d \<longleftrightarrow> \<not> isOpen (pd_client d) \<and> kMaxQueueSize \<le> length (m_dataBuffers (pd_client d))"

definition closed_step :: "wa_env \<Rightarrow> push_delegate \<Rightarrow> push_delegate \<Rightarrow> bool" where
  "closed_step e d d' \<longleftrightarrow> push_step e d d' \<and> \<not> isOpen (pd_client d')"

lemma closed_simps [simp]:
  "\<not> m_isOpen s \<Longrightarrow> pushSamples e s = Some (Inr s)"
  "\<not> m_isOpen s \<Longrightarrow> web_setEos e s = Some (Inr (False, s))"
  "\<not> m_isOpen s \<Longrightarrow> web_play e s = (False, s)" "\<not> m_isOpen s \<Longrightarrow> web_pause e s = (False, s)"
  by (simp_all add: pushSamples_def web_setEos_def web_play_def web_pause_def)

text \<open>Only a CAPS event opens a player, and no step of a closed one takes a sample out.\<close>

lemma closed_push_step:
  assumes "push_step e d d'" "\<not> isOpen (pd_client d)"
  shows "length (m_dataBuffers (pd_client d)) \<le> length (m_dataBuffers (pd_client d')) \<and>
    (isOpen (pd_client d') \<longrightarrow> (\<exists>caps r. push_handleEvent e True (EVENT_CAPS caps) d = Some (Returns (r, d'))))"
  using assms(1)
proof cases
  case (state running t r)
  with assms(2) show ?thesis
    by (cases t) (auto simp: isOpen_def push_async_def on_web_def push_postAsyncStart_def web_close_def split: if_splits)
next
  case (event pad_default ev r)
  show ?thesis
  proof (cases "\<exists>caps. ev = EVENT_CAPS caps")
    case True
    with event caps_queue show ?thesis by fastforce
  next
    case False
    with event assms(2) show ?thesis by (cases ev) (simp_all add: isOpen_def)
  qed
next
  case (buffer b r)
  with assms(2) show ?thesis
    by (auto simp: isOpen_def push_handleBuffer_def notifyNewSample_def notifyNewSample_in_loop_def split: if_splits)
next
  case (notify st)
  then show ?thesis using assms(2)
    by (cases st) (auto simp: push_handleEos_def push_handleError_def push_handleStateChanged_def push_postAsyncDone_def
        isOpen_def Let_def)
qed (use assms(2) in \<open>auto simp: isOpen_def notifyNewSample_in_loop_def notifyPushSamplesTimerExpired_def
      push_setProperty_def push_getProperty_def on_web_def Let_def split: if_splits prod.splits bool.splits\<close>)

lemma stranded_steps: "(closed_step e)\<^sup>*\<^sup>* d d' \<Longrightarrow> stranded d \<Longrightarrow> stranded d'"
proof (induction rule: rtranclp_induct)
  case (step d1 d2)
  then show ?case using closed_push_step [of e d1 d2] by (auto simp: stranded_def closed_step_def)
qed simp

text \<open>
  C36. Closing a web audio player strands the streaming thread. \<open>notifyNewSample\<close> waits for space in the
  queue of samples before it enters the event loop. When the sink goes from PAUSED to READY with a full queue,
  \<open>close\<close> drops the timer and the player but neither empties the queue nor notifies: whatever is done with the
  delegate from then on, the queue stays full and \<open>handleBuffer\<close> waits, until a CAPS event opens the player
  again, which GStreamer delivers on the thread that waits.
\<close>

theorem close_strands_streaming_thread:
  assumes "kMaxQueueSize \<le> length (m_dataBuffers (pd_client d))"
    and "push_changeState running e GST_STATE_CHANGE_PAUSED_TO_READY d = (r, d1)"
    and "(closed_step e)\<^sup>*\<^sup>* d1 d2"
  shows "r = GST_STATE_CHANGE_SUCCESS \<and> push_handleBuffer e b d2 = Some Waits \<and>
    (\<forall>d3. push_step e d2 d3 \<longrightarrow> closed_step e d2 d3 \<or>
       (\<exists>caps r. push_handleEvent e True (EVENT_CAPS caps) d2 = Some (Returns (r, d3))))"
proof -
  have "r = GST_STATE_CHANGE_SUCCESS" "stranded d1"
    using assms(1,2) by (auto simp: on_web_def web_close_def stranded_def isOpen_def)
  then have "stranded d2" using stranded_steps [OF assms(3)] by simp
  then have "push_handleBuffer e b d2 = Some Waits"
    by (simp add: stranded_def push_handleBuffer_def notifyNewSample_def)
  with \<open>stranded d2\<close> \<open>r = GST_STATE_CHANGE_SUCCESS\<close> closed_push_step [of e d2] show ?thesis
    by (auto simp: stranded_def closed_step_def)
qed

text \<open>The queue fills up while the server has no room.\<close>

lemma queue_fills:
  assumes "isOpen (pd_client d)" "m_dataBuffers (pd_client d) = []" "n \<le> kMaxQueueSize"
  shows "\<exists>d'. (push_step (demo_server 0))\<^sup>*\<^sup>* d d' \<and> isOpen (pd_client d') \<and> length (m_dataBuffers (pd_client d')) = n"
  using assms(3)
proof (induction n)
  case 0
  with assms(1,2) show ?case by (intro exI [of _ d]) simp
next
  case (Suc n)
  then obtain d1 where d1: "(push_step (demo_server 0))\<^sup>*\<^sup>* d d1" "isOpen (pd_client d1)"
    "length (m_dataBuffers (pd_client d1)) = n" by auto
  let ?b = "demo_buffer None []"
  let ?s = "(ask W_getBufferAvailable ((pd_client d1)\<lparr>m_pushSamplesTimer := False,
    m_dataBuffers := m_dataBuffers (pd_client d1) @ [?b]\<rparr>))\<lparr>m_pushSamplesTimer := True\<rparr>"
  have "notifyNewSample (demo_server 0) ?b (pd_client d1) = Returns (Some (Inr ?s))"
    using d1(2,3) Suc.prems
    by (simp add: notifyNewSample_def notifyNewSample_in_loop_def pushSamples_def isOpen_def push_loop.simps
        push_round_def demo_server_def after_push_def)
  then have "push_handleBuffer (demo_server 0) ?b d1 = Some (Returns (GST_FLOW_OK, d1\<lparr>pd_client := ?s\<rparr>))"
    by (simp add: push_handleBuffer_def)
  then have "push_step (demo_server 0) d1 (d1\<lparr>pd_client := ?s\<rparr>)" by (rule push_step.buffer)
  with d1 show ?case
    by (intro exI [of _ "d1\<lparr>pd_client := ?s\<rparr>"]) (auto simp: isOpen_def ask_def)
qed

theorem close_strands_streaming_thread_witness:
  "\<exists>d d1. (push_step (demo_server 0))\<^sup>*\<^sup>* demo_push_delegate d \<and>
     push_changeState True (demo_server 0) GST_STATE_CHANGE_PAUSED_TO_READY d = (GST_STATE_CHANGE_SUCCESS, d1) \<and>
     push_handleBuffer (demo_server 0) (demo_buffer None []) d1 = Some Waits"
proof -
  obtain d0 where d0: "(push_step (demo_server 0))\<^sup>*\<^sup>* demo_push_delegate d0" "isOpen (pd_client d0)"
    "m_dataBuffers (pd_client d0) = []"
    unfolding demo_push_delegate_def by (rule demo_opened)
  obtain d where "(push_step (demo_server 0))\<^sup>*\<^sup>* d0 d" and d2: "length (m_dataBuffers (pd_client d)) = kMaxQueueSize"
    using queue_fills [OF d0(2,3) order_refl] by blast
  with d0(1) have d: "(push_step (demo_server 0))\<^sup>*\<^sup>* demo_push_delegate d" by (meson rtranclp_trans)
  obtain r d1 where "push_changeState True (demo_server 0) GST_STATE_CHANGE_PAUSED_TO_READY d = (r, d1)" by fastforce
  from close_strands_streaming_thread [OF _ this rtranclp.rtrancl_refl, of "demo_buffer None []"] this d d2
  show ?thesis by auto
qed

end
