(* ===== verification/Property_Queue.thy ===== *)
theory Property_Queue
  imports Sink_System Push_Delegate
begin

text \<open>
  The properties that are set on a sink before it has a delegate. \<open>std::map\<close> keeps the last value of
  every property and iterates over the properties in the order of the enumeration.

  The locale \<open>playback_delegate\<close> states what the sinks rely on of a delegate that is not attached to a
  client: setting a property returns, a second value replaces the first, and different properties do not
  disturb each other. From these laws it follows that the queue is invisible for values that the delegate
  accepts: handing over the queue has the effect of all the calls that filled it, in their order. What
  ignored values change is in \<open>Sink_Start\<close>. The laws are proved for the three pull mode
  delegates and the push mode delegate.
\<close>

section \<open>The order of the properties\<close>

definition all_properties :: "Property list" where
  "all_properties =
     [IsSinglePathStream, NumberOfStreams, HasDrm, Stats, EnableLastSample, LastSample, Volume, Mute, Gap,
      LowLatency, Sync, SyncOff, StreamSyncMode, AudioFade, FadeVolume, LimitBufferingMs, UseBuffering, Async,
      WindowSet, MaxVideoWidth, MaxVideoHeight, FrameStepOnPreroll, ImmediateOutput, SyncmodeStreaming,
      ShowVideoWindow, VideoPts, TextTrackIdentifier, WindowId, TsOffset]"

fun index_of :: "'a \<Rightarrow> 'a list \<Rightarrow> nat" where
  "index_of x [] = 0"
| "index_of x (y # ys) = (if x = y then 0 else Suc (index_of x ys))"

lemma index_of_inj: "x \<in> set xs \<Longrightarrow> index_of x xs = index_of y xs \<Longrightarrow> x = y"
  by (induction xs) (auto split: if_splits)

lemma all_properties_complete [simp]: "p \<in> set all_properties"
  by (cases p) (simp_all add: all_properties_def)

lemma all_properties_distinct [simp]: "distinct all_properties"
  by (simp add: all_properties_def)

text \<open>The comparison of enumerators.\<close>

instantiation Property :: linorder
begin

definition less_eq_Property :: "Property \<Rightarrow> Property \<Rightarrow> bool" where
  "p \<le> q \<longleftrightarrow> index_of p all_properties \<le> index_of q all_properties"

definition less_Property :: "Property \<Rightarrow> Property \<Rightarrow> bool" where
  "p < q \<longleftrightarrow> index_of p all_properties < index_of q all_properties"

instance
  by standard (auto simp: less_eq_Property_def less_Property_def intro: index_of_inj [OF all_properties_complete])

end

lemma all_properties_sorted: "sorted_wrt (<) all_properties"
  by (simp add: all_properties_def less_Property_def)

section \<open>The queue\<close>

type_synonym property_queue = "Property \<Rightarrow> GValue option"

text \<open>The entries of the map in the order of the iteration.\<close>

definition queue_entries :: "property_queue \<Rightarrow> (Property \<times> GValue) list" where
  "queue_entries q = [(p, the (q p)). p \<leftarrow> all_properties, q p \<noteq> None]"

fun set_all :: "(Property \<Rightarrow> GValue \<Rightarrow> 'd \<Rightarrow> 'd outcome) \<Rightarrow> (Property \<times> GValue) list \<Rightarrow> 'd \<Rightarrow> 'd outcome" where
  "set_all set_prop [] d = Returns d"
| "set_all set_prop ((p, v) # rest) d = and_then (set_prop p v d) (set_all set_prop rest)"

definition queue_of :: "(Property \<times> GValue) list \<Rightarrow> property_queue" where
  "queue_of xs = fold (\<lambda>(p, v) q. q(p \<mapsto> v)) xs Map.empty"

lemma queue_of_snoc: "queue_of (xs @ [(p, v)]) = (queue_of xs)(p \<mapsto> v)"
  by (simp add: queue_of_def)

lemma and_then_assoc: "and_then (and_then x f) g = and_then x (\<lambda>y. and_then (f y) g)"
  by (cases x) simp_all

lemma and_then_Returns [simp]: "and_then x Returns = x"
  by (cases x) simp_all

lemma and_then_cong: "(\<And>y. x = Returns y \<Longrightarrow> f y = g y) \<Longrightarrow> and_then x f = and_then x g"
  by (cases x) simp_all

lemma set_all_Nil [simp]: "set_all f [] = Returns"
  by (simp add: fun_eq_iff)

lemma set_all_one [simp]: "set_all f [(p, v)] = f p v"
  by (simp add: fun_eq_iff)

lemma set_all_append: "set_all f (xs @ ys) d = and_then (set_all f xs d) (set_all f ys)"
  by (induction f xs d rule: set_all.induct) (auto simp: and_then_assoc intro: and_then_cong)

lemma queue_of_mem: "queue_of xs p = Some v \<Longrightarrow> (p, v) \<in> set xs"
  by (induction xs rule: rev_induct) (auto simp: queue_of_def split: if_splits)

lemma queue_entries_empty [simp]: "queue_entries (queue_of []) = []"
  by (simp add: queue_of_def queue_entries_def all_properties_def)

lemma queue_entries_mem: "(p, v) \<in> set (queue_entries q) \<longleftrightarrow> q p = Some v"
  by (auto simp: queue_entries_def split: if_splits)

lemma queue_entries_sorted: "sorted_wrt (<) (map fst (queue_entries q))"
proof -
  have "map fst (concat (map (\<lambda>p. if q p \<noteq> None then [(p, the (q p))] else []) ps)) = filter (\<lambda>p. q p \<noteq> None) ps" for ps
    by (induction ps) auto
  then have "map fst (queue_entries q) = filter (\<lambda>p. q p \<noteq> None) all_properties"
    by (simp add: queue_entries_def)
  then show ?thesis using all_properties_sorted by (simp add: sorted_wrt_filter)
qed

text \<open>The entry of one property, and the entries before and after it.\<close>

lemma queue_entries_split:
  obtains before after where
    "p \<notin> fst ` set before" "p \<notin> fst ` set after"
    "queue_entries q = before @ (case q p of None \<Rightarrow> [] | Some v \<Rightarrow> [(p, v)]) @ after"
    "\<And>v. queue_entries (q(p \<mapsto> v)) = before @ (p, v) # after"
proof -
  obtain xs ys where ps: "all_properties = xs @ p # ys" "p \<notin> set xs"
    using split_list_first [OF all_properties_complete [of p]] by blast
  have "p \<notin> set ys" using all_properties_distinct unfolding ps by simp
  define e where "e = (\<lambda>q r. if q r \<noteq> None then [(r :: Property, the (q r) :: GValue)] else [])"
  have other: "concat (map (e (q(p \<mapsto> v))) zs) = concat (map (e q) zs)" if "p \<notin> set zs" for zs v
    using that by (induction zs) (auto simp: e_def)
  have entries: "queue_entries r = concat (map (e r) xs) @ e r p @ concat (map (e r) ys)" for r
    by (simp add: queue_entries_def ps(1) e_def)
  show ?thesis
  proof (rule that)
    show "p \<notin> fst ` set (concat (map (e q) xs))" "p \<notin> fst ` set (concat (map (e q) ys))"
      using ps(2) \<open>p \<notin> set ys\<close> by (auto simp: e_def split: if_splits)
    show "queue_entries q = concat (map (e q) xs) @ (case q p of None \<Rightarrow> [] | Some v \<Rightarrow> [(p, v)]) @ concat (map (e q) ys)"
      by (simp add: entries e_def split: option.splits)
    show "queue_entries (q(p \<mapsto> v)) = concat (map (e q) xs) @ (p, v) # concat (map (e q) ys)" for v
      using other [OF ps(2)] other [OF \<open>p \<notin> set ys\<close>] by (simp add: entries) (simp add: e_def)
  qed
qed

section \<open>What a delegate promises\<close>

locale playback_delegate =
  fixes set_prop :: "Property \<Rightarrow> GValue \<Rightarrow> 'd \<Rightarrow> 'd outcome"
    and get_prop :: "Property \<Rightarrow> 'd \<Rightarrow> GValue option"
    and unattached :: "'d \<Rightarrow> bool"
    and accepts :: "Property \<Rightarrow> GValue \<Rightarrow> bool"
    and keeps :: "Property \<Rightarrow> GValue \<Rightarrow> bool"
  assumes set_returns: "unattached d \<Longrightarrow> accepts p v \<Longrightarrow> \<exists>d'. set_prop p v d = Returns d' \<and> unattached d'"
    and set_twice: "unattached d \<Longrightarrow> accepts p v \<Longrightarrow> accepts p u \<Longrightarrow>
      and_then (set_prop p v d) (set_prop p u) = set_prop p u d"
    and set_commute: "unattached d \<Longrightarrow> accepts p v \<Longrightarrow> accepts q u \<Longrightarrow> p \<noteq> q \<Longrightarrow>
      and_then (set_prop p v d) (set_prop q u) = and_then (set_prop q u d) (set_prop p v)"
    and set_get: "unattached d \<Longrightarrow> accepts p v \<Longrightarrow> keeps p v \<Longrightarrow> set_prop p v d = Returns d' \<Longrightarrow> get_prop p d' = Some v"
begin

definition all_accepted :: "(Property \<times> GValue) list \<Rightarrow> bool" where
  "all_accepted xs \<longleftrightarrow> (\<forall>(p, v) \<in> set xs. accepts p v)"

lemma all_accepted_simps [simp]:
  "all_accepted []" "all_accepted ((p, v) # xs) \<longleftrightarrow> accepts p v \<and> all_accepted xs"
  "all_accepted (xs @ ys) \<longleftrightarrow> all_accepted xs \<and> all_accepted ys"
  by (auto simp: all_accepted_def)

lemma set_all_returns: "unattached d \<Longrightarrow> all_accepted xs \<Longrightarrow> \<exists>d'. set_all set_prop xs d = Returns d' \<and> unattached d'"
proof (induction xs arbitrary: d)
  case (Cons x xs)
  obtain p v where x: "x = (p, v)" by (cases x)
  then obtain d1 where "set_prop p v d = Returns d1" "unattached d1"
    using set_returns [OF Cons.prems(1)] Cons.prems(2) by auto
  with Cons.IH [of d1] Cons.prems(2) x show ?case by simp
qed simp

text \<open>A call can be moved behind the calls for other properties.\<close>

lemma set_all_move:
  "unattached d \<Longrightarrow> accepts p v \<Longrightarrow> all_accepted xs \<Longrightarrow> p \<notin> fst ` set xs \<Longrightarrow>
   and_then (set_prop p v d) (set_all set_prop xs) = and_then (set_all set_prop xs d) (set_prop p v)"
proof (induction xs arbitrary: d)
  case (Cons x xs)
  obtain q u where x: "x = (q, u)" by (cases x)
  with Cons.prems have q: "accepts q u" "q \<noteq> p" "all_accepted xs" "p \<notin> fst ` set xs" by auto
  obtain d1 where d1: "set_prop q u d = Returns d1" "unattached d1" using set_returns [OF Cons.prems(1) q(1)] by auto
  have "and_then (set_prop p v d) (set_all set_prop (x # xs)) =
      and_then (and_then (set_prop p v d) (set_prop q u)) (set_all set_prop xs)"
    by (auto simp: x and_then_assoc intro: and_then_cong)
  also have "\<dots> = and_then (set_prop p v d1) (set_all set_prop xs)"
    using set_commute [OF Cons.prems(1,2) q(1)] q(2) d1(1) by auto
  also have "\<dots> = and_then (set_all set_prop xs d1) (set_prop p v)"
    using Cons.IH [OF d1(2) Cons.prems(2) q(3,4)] .
  finally have "and_then (set_prop p v d) (set_all set_prop (x # xs)) = and_then (set_all set_prop xs d1) (set_prop p v)" .
  moreover have "set_all set_prop (x # xs) d = set_all set_prop xs d1" by (simp add: x d1(1))
  ultimately show ?case by (simp only:)
qed simp

lemma set_all_update:
  assumes d: "unattached d" and v: "accepts p v" and q: "all_accepted (queue_entries q)"
  shows "set_all set_prop (queue_entries (q(p \<mapsto> v))) d = and_then (set_all set_prop (queue_entries q) d) (set_prop p v)"
proof -
  obtain before after where p: "p \<notin> fst ` set after"
    and old: "queue_entries q = before @ (case q p of None \<Rightarrow> [] | Some v \<Rightarrow> [(p, v)]) @ after"
    and new: "queue_entries (q(p \<mapsto> v)) = before @ (p, v) # after"
    using queue_entries_split [of p q] by metis
  have acc: "all_accepted before" "all_accepted after" and u: "q p = Some u \<Longrightarrow> accepts p u" for u
    using q unfolding old by (auto split: option.splits)
  obtain d1 where d1: "set_all set_prop before d = Returns d1" "unattached d1" using set_all_returns [OF d acc(1)] by auto
  have move: "and_then (set_prop p x d1) (set_all set_prop after) = and_then (set_all set_prop after d1) (set_prop p x)"
    if "accepts p x" for x using set_all_move [OF d1(2) that acc(2) p] .
  obtain d2 where d2: "set_all set_prop after d1 = Returns d2" "unattached d2" using set_all_returns [OF d1(2) acc(2)] by auto
  show ?thesis
  proof (cases "q p")
    case None
    then show ?thesis using move [OF v] by (simp add: old new set_all_append d1)
  next
    case (Some u0)
    have "and_then (and_then (set_prop p u0 d1) (set_all set_prop after)) (set_prop p v) = set_prop p v d2"
      using move [OF u [OF Some]] set_twice [OF d2(2) u [OF Some] v] d2(1) by simp
    then show ?thesis using move [OF v] Some d2(1) by (simp add: old new set_all_append d1)
  qed
qed

theorem queue_invisible:
  "unattached d \<Longrightarrow> all_accepted xs \<Longrightarrow> set_all set_prop (queue_entries (queue_of xs)) d = set_all set_prop xs d"
proof (induction xs rule: rev_induct)
  case Nil
  show ?case by simp
next
  case (snoc x xs)
  obtain p v where x: "x = (p, v)" by (cases x)
  have "all_accepted (queue_entries (queue_of xs))"
    using snoc.prems(2) by (auto simp: all_accepted_def queue_entries_mem dest!: queue_of_mem)
  from set_all_update [OF snoc.prems(1) _ this, of p v] snoc.IH snoc.prems
  show ?case unfolding x queue_of_snoc set_all_append set_all_one by (simp only: all_accepted_simps)
qed

text \<open>The last value of a property is read back.\<close>

theorem set_all_get:
  assumes "unattached d" "all_accepted xs" "queue_of xs p = Some v" "keeps p v" "set_all set_prop xs d = Returns d'"
  shows "get_prop p d' = Some v"
proof -
  have v: "accepts p v" using assms(2) queue_of_mem [OF assms(3)] by (auto simp: all_accepted_def)
  define q where "q = (queue_of xs)(p := None)"
  have upd: "queue_of xs = q(p \<mapsto> v)" using assms(3) by (auto simp: q_def)
  have "all_accepted (queue_entries q)"
    using assms(2) by (auto simp: all_accepted_def queue_entries_mem q_def dest!: queue_of_mem split: if_splits)
  from set_all_update [OF assms(1) v this] have "and_then (set_all set_prop (queue_entries q) d) (set_prop p v) = Returns d'"
    using queue_invisible [OF assms(1,2)] assms(5) by (simp add: upd)
  moreover obtain d1 where "set_all set_prop (queue_entries q) d = Returns d1" "unattached d1"
    using set_all_returns [OF assms(1) \<open>all_accepted (queue_entries q)\<close>] by auto
  ultimately show ?thesis using set_get [OF _ v assms(4)] by auto
qed

end

end
