(* ===== verification/Delegate_Laws.thy ===== *)
theory Delegate_Laws
  imports Property_Queue
begin

text \<open>
  The delegates fulfil \<open>playback_delegate\<close>. Without a client a setter of a pull mode delegate only
  stores the value and marks it, so that its whole effect is a function on the delegate
  (\<open>stored_audio\<close>, \<open>stored_video\<close>, \<open>stored_subtitle\<close>); the laws are laws about these functions.
\<close>

section \<open>Values\<close>

datatype GType = G_TYPE_BOOLEAN | G_TYPE_INT | G_TYPE_UINT | G_TYPE_INT64 | G_TYPE_DOUBLE | G_TYPE_STRING
  | GST_TYPE_STRUCTURE | G_TYPE_POINTER | GST_TYPE_SAMPLE

fun G_VALUE_TYPE :: "GValue \<Rightarrow> GType" where
  "G_VALUE_TYPE (V_boolean _) = G_TYPE_BOOLEAN"
| "G_VALUE_TYPE (V_int _) = G_TYPE_INT"
| "G_VALUE_TYPE (V_uint _) = G_TYPE_UINT"
| "G_VALUE_TYPE (V_int64 _) = G_TYPE_INT64"
| "G_VALUE_TYPE (V_double _) = G_TYPE_DOUBLE"
| "G_VALUE_TYPE (V_string _) = G_TYPE_STRING"
| "G_VALUE_TYPE (V_boxed _) = GST_TYPE_STRUCTURE"
| "G_VALUE_TYPE (V_stats _ _) = G_TYPE_POINTER"
| "G_VALUE_TYPE (V_sample _) = GST_TYPE_SAMPLE"

text \<open>The type of the values of a property, as in the parameter specifications of all sinks.\<close>

fun property_type :: "Property \<Rightarrow> GType" where
  "property_type NumberOfStreams = G_TYPE_INT"
| "property_type Stats = G_TYPE_POINTER"
| "property_type LastSample = GST_TYPE_SAMPLE"
| "property_type Volume = G_TYPE_DOUBLE"
| "property_type Gap = GST_TYPE_STRUCTURE"
| "property_type StreamSyncMode = G_TYPE_INT"
| "property_type AudioFade = G_TYPE_STRING"
| "property_type FadeVolume = G_TYPE_UINT"
| "property_type LimitBufferingMs = G_TYPE_UINT"
| "property_type WindowSet = G_TYPE_STRING"
| "property_type MaxVideoWidth = G_TYPE_UINT"
| "property_type MaxVideoHeight = G_TYPE_UINT"
| "property_type VideoPts = G_TYPE_INT64"
| "property_type TextTrackIdentifier = G_TYPE_STRING"
| "property_type WindowId = G_TYPE_UINT"
| "property_type TsOffset = G_TYPE_INT64"
| "property_type _ = G_TYPE_BOOLEAN"

lemma value_types [simp]:
  "G_TYPE_BOOLEAN = G_VALUE_TYPE v \<longleftrightarrow> (\<exists>b. v = V_boolean b)" "G_TYPE_INT = G_VALUE_TYPE v \<longleftrightarrow> (\<exists>i. v = V_int i)"
  "G_TYPE_UINT = G_VALUE_TYPE v \<longleftrightarrow> (\<exists>i. v = V_uint i)" "G_TYPE_INT64 = G_VALUE_TYPE v \<longleftrightarrow> (\<exists>i. v = V_int64 i)"
  "G_TYPE_DOUBLE = G_VALUE_TYPE v \<longleftrightarrow> (\<exists>r. v = V_double r)" "G_TYPE_STRING = G_VALUE_TYPE v \<longleftrightarrow> (\<exists>s. v = V_string s)"
  by (cases v; simp)+

text \<open>The values for which a setter without a client neither stops the process nor ignores the value:
  no gap, which needs a client, no null string and no fade that cannot be parsed.\<close>

definition acceptable :: "Property \<Rightarrow> GValue \<Rightarrow> bool" where
  "acceptable p v =
     (case p of
        Gap \<Rightarrow> False
      | AudioFade \<Rightarrow> (case g_value_get_string v of None \<Rightarrow> False | Some s \<Rightarrow> parse_fade s \<noteq> None)
      | WindowSet \<Rightarrow> g_value_get_string v \<noteq> None
      | TextTrackIdentifier \<Rightarrow> g_value_get_string v \<noteq> None
      | _ \<Rightarrow> True)"

text \<open>The properties that are read back from the members of a delegate.\<close>

definition stored_properties :: "MediaSourceType \<Rightarrow> Property list" where
  "stored_properties type =
     [IsSinglePathStream, NumberOfStreams, HasDrm, EnableLastSample] @
     (case type of
        MST_AUDIO \<Rightarrow> [Volume, Mute, Sync, StreamSyncMode, LimitBufferingMs, UseBuffering]
      | MST_VIDEO \<Rightarrow> [WindowSet, MaxVideoWidth, MaxVideoHeight, FrameStepOnPreroll, ImmediateOutput]
      | _ \<Rightarrow> [Mute, TextTrackIdentifier, WindowId, Async])"

definition read_back :: "Property list \<Rightarrow> Property \<Rightarrow> GValue \<Rightarrow> bool" where
  "read_back ps p v \<longleftrightarrow> p \<in> set ps \<and> property_type p = G_VALUE_TYPE v"

section \<open>Pull mode\<close>

definition stored_base :: "Property \<Rightarrow> GValue \<Rightarrow> delegate \<Rightarrow> delegate" where
  "stored_base p v d =
     (case p of
        IsSinglePathStream \<Rightarrow> d\<lparr>m_isSinglePathStream := g_value_get_boolean v\<rparr>
      | NumberOfStreams \<Rightarrow> d\<lparr>m_numOfStreams := g_value_get_int v\<rparr>
      | HasDrm \<Rightarrow> d\<lparr>m_hasDrm := g_value_get_boolean v\<rparr>
      | EnableLastSample \<Rightarrow> d\<lparr>m_enableLastSample := g_value_get_boolean v\<rparr>
      | _ \<Rightarrow> d)"

definition stored_audio :: "Property \<Rightarrow> GValue \<Rightarrow> delegate \<Rightarrow> delegate" where
  "stored_audio p v =
     (case p of
        Volume \<Rightarrow> upd_a (\<lambda>a. a\<lparr>a_targetVolume := g_value_get_double v, a_isVolumeQueued := True\<rparr>)
      | Mute \<Rightarrow> upd_a (\<lambda>a. a\<lparr>a_mute := g_value_get_boolean v, a_isMuteQueued := True\<rparr>)
      | LowLatency \<Rightarrow> upd_a (\<lambda>a. a\<lparr>a_lowLatency := g_value_get_boolean v, a_isLowLatencyQueued := True\<rparr>)
      | Sync \<Rightarrow> upd_a (\<lambda>a. a\<lparr>a_sync := g_value_get_boolean v, a_isSyncQueued := True\<rparr>)
      | SyncOff \<Rightarrow> upd_a (\<lambda>a. a\<lparr>a_syncOff := g_value_get_boolean v, a_isSyncOffQueued := True\<rparr>)
      | StreamSyncMode \<Rightarrow> upd_a (\<lambda>a. a\<lparr>a_streamSyncMode := g_value_get_int v, a_isStreamSyncModeQueued := True\<rparr>)
      | AudioFade \<Rightarrow> upd_a (\<lambda>a. a\<lparr>a_audioFadeConfig := the (parse_fade (the (g_value_get_string v))),
          a_isAudioFadeQueued := True\<rparr>)
      | LimitBufferingMs \<Rightarrow> upd_a (\<lambda>a. a\<lparr>a_bufferingLimit := g_value_get_uint v, a_isBufferingLimitQueued := True\<rparr>)
      | UseBuffering \<Rightarrow> upd_a (\<lambda>a. a\<lparr>a_useBuffering := g_value_get_boolean v, a_isUseBufferingQueued := True\<rparr>)
      | _ \<Rightarrow> stored_base p v)"

definition stored_video :: "Property \<Rightarrow> GValue \<Rightarrow> delegate \<Rightarrow> delegate" where
  "stored_video p v =
     (case p of
        WindowSet \<Rightarrow> upd_v (\<lambda>x. x\<lparr>v_videoRectangle := the (g_value_get_string v), v_rectangleSettingQueued := True\<rparr>)
      | MaxVideoWidth \<Rightarrow> upd_v (\<lambda>x. x\<lparr>v_maxWidth := g_value_get_uint v\<rparr>)
      | MaxVideoHeight \<Rightarrow> upd_v (\<lambda>x. x\<lparr>v_maxHeight := g_value_get_uint v\<rparr>)
      | FrameStepOnPreroll \<Rightarrow> upd_v (\<lambda>x. x\<lparr>v_stepOnPrerollEnabled := g_value_get_boolean v\<rparr>)
      | ImmediateOutput \<Rightarrow> upd_v (\<lambda>x. x\<lparr>v_immediateOutput := g_value_get_boolean v, v_immediateOutputQueued := True\<rparr>)
      | SyncmodeStreaming \<Rightarrow>
          upd_v (\<lambda>x. x\<lparr>v_syncmodeStreaming := g_value_get_boolean v, v_syncmodeStreamingQueued := True\<rparr>)
      | ShowVideoWindow \<Rightarrow> upd_v (\<lambda>x. x\<lparr>v_videoMute := \<not> g_value_get_boolean v, v_videoMuteQueued := True\<rparr>)
      | _ \<Rightarrow> stored_base p v)"

definition stored_subtitle :: "Property \<Rightarrow> GValue \<Rightarrow> delegate \<Rightarrow> delegate" where
  "stored_subtitle p v =
     (case p of
        Mute \<Rightarrow> upd_s (\<lambda>x. x\<lparr>s_isMuted := g_value_get_boolean v, s_isMuteQueued := True\<rparr>)
      | TextTrackIdentifier \<Rightarrow>
          upd_s (\<lambda>x. x\<lparr>s_textTrackIdentifier := the (g_value_get_string v), s_isTextTrackIdentifierQueued := True\<rparr>)
      | WindowId \<Rightarrow> upd_s (\<lambda>x. x\<lparr>s_videoId := g_value_get_uint v\<rparr>)
      | Async \<Rightarrow> (\<lambda>d. d\<lparr>m_isAsync := g_value_get_boolean v\<rparr>)
      | _ \<Rightarrow> stored_base p v)"

definition stored :: "MediaSourceType \<Rightarrow> Property \<Rightarrow> GValue \<Rightarrow> delegate \<Rightarrow> delegate" where
  "stored type = (case type of MST_AUDIO \<Rightarrow> stored_audio | MST_VIDEO \<Rightarrow> stored_video | _ \<Rightarrow> stored_subtitle)"

text \<open>A pull mode delegate before it has a client.\<close>

definition detached_delegate :: "MediaSourceType \<Rightarrow> nat \<Rightarrow> world \<Rightarrow> bool" where
  "detached_delegate type h w \<longleftrightarrow>
     m_mediaPlayerManager (w_delegates w h) = detached \<and> m_mediaSourceType (w_delegates w h) = type \<and>
     m_lastBuffer (w_delegates w h) = None"

lemma detached_client [simp]: "m_mediaPlayerManager (w_delegates w h) = detached \<Longrightarrow> getMediaPlayerClient h w = None"
  by (simp add: getMediaPlayerClient_def the_manager_def)

lemma upd_d_upd_d: "upd_d h f (upd_d h g w) = upd_d h (f \<circ> g) w"
  by (simp add: upd_d_def)

lemma set_or_queue_detached:
  "m_mediaPlayerManager (w_delegates w h) = detached \<Longrightarrow> set_or_queue h b store mark act w = upd_d h (mark \<circ> store) w"
  by (simp add: set_or_queue_def upd_d_upd_d)

lemma upd_a_comp [simp]: "upd_a f \<circ> upd_a g = upd_a (f \<circ> g)" "upd_a f (upd_a g d) = upd_a (f \<circ> g) d"
  by (simp_all add: upd_a_def fun_eq_iff)
lemma upd_v_comp [simp]: "upd_v f' \<circ> upd_v g' = upd_v (f' \<circ> g')" "upd_v f' (upd_v g' d) = upd_v (f' \<circ> g') d"
  by (simp_all add: upd_v_def fun_eq_iff)
lemma upd_s_comp [simp]: "upd_s f'' \<circ> upd_s g'' = upd_s (f'' \<circ> g'')" "upd_s f'' (upd_s g'' d) = upd_s (f'' \<circ> g'') d"
  by (simp_all add: upd_s_def fun_eq_iff)

lemma upd_d_cong: "f (w_delegates w h) = g (w_delegates w h) \<Longrightarrow> upd_d h f w = upd_d h g w"
  by (simp add: upd_d_def)

lemma no_last_buffer: "m_lastBuffer d = None \<Longrightarrow> d\<lparr>m_enableLastSample := b, m_lastBuffer := None\<rparr> = d\<lparr>m_enableLastSample := b\<rparr>"
  by (cases d) simp

lemma base_setProperty_detached:
  "m_lastBuffer (w_delegates w h) = None \<Longrightarrow> base_setProperty h p v w = upd_d h (stored_base p v) w"
  by (cases p) (auto simp: base_setProperty_def stored_base_def upd_d_def Let_def fun_upd_idem no_last_buffer)

lemma comp_lambda [simp]: "(\<lambda>x. f x) \<circ> (\<lambda>x. g x) = (\<lambda>x. f (g x))"
  by (simp add: fun_eq_iff)

lemma delegate_setProperty_detached:
  assumes "detached_delegate type h w" "acceptable p v"
  shows "delegate_setProperty g h p v w = Returns (upd_d h (stored type p v) w)"
proof -
  note d = assms(1) [unfolded detached_delegate_def]
  have id: "upd_d h (stored_base Async v) w = w" by (simp add: upd_d_def stored_base_def)
  have "audio_setProperty g h p v w = Returns (upd_d h (stored_audio p v) w)"
    using d assms(2)
    by (cases p) (auto simp: audio_setProperty_def stored_audio_def acceptable_def base_setProperty_detached set_or_queue_detached
        id split: option.splits)
  moreover have "video_setProperty g h p v w = upd_d h (stored_video p v) w"
    using d assms(2)
    by (cases p) (auto simp: video_setProperty_def stored_video_def acceptable_def base_setProperty_detached set_or_queue_detached
        split: option.splits)
  moreover have "subtitle_setProperty h p v w = upd_d h (stored_subtitle p v) w"
    using d assms(2)
    by (cases p) (auto simp: subtitle_setProperty_def stored_subtitle_def acceptable_def base_setProperty_detached set_or_queue_detached
        split: option.splits)
  ultimately show ?thesis
    using d by (auto simp: delegate_setProperty_def stored_def split: MediaSourceType.splits)
qed

lemma stored_base_keeps [simp]:
  "m_mediaPlayerManager (stored_base p v d) = m_mediaPlayerManager d"
  "m_mediaSourceType (stored_base p v d) = m_mediaSourceType d" "m_lastBuffer (stored_base p v d) = m_lastBuffer d"
  by (cases p; simp add: stored_base_def)+

lemma stored_keeps [simp]:
  "m_mediaPlayerManager (stored type p v d) = m_mediaPlayerManager d"
  "m_mediaSourceType (stored type p v d) = m_mediaSourceType d" "m_lastBuffer (stored type p v d) = m_lastBuffer d"
  by (cases type; cases p;
      simp add: stored_def stored_audio_def stored_video_def stored_subtitle_def upd_a_def upd_v_def upd_s_def)+

lemma stored_twice: "stored type p u (stored type p v d) = stored type p u d"
  by (cases type; cases p;
      simp add: stored_def stored_audio_def stored_video_def stored_subtitle_def stored_base_def upd_a_def upd_v_def upd_s_def)

lemma stored_base_commute: "p \<noteq> q \<Longrightarrow> stored_base p v (stored_base q u d) = stored_base q u (stored_base p v d)"
  by (cases p; cases q; simp add: stored_base_def)

text \<open>The members of the base class and those of the subclasses are apart.\<close>

lemma stored_base_apart:
  "stored_base p v (upd_a f d) = upd_a f (stored_base p v d)" "stored_base p v (upd_v f' d) = upd_v f' (stored_base p v d)"
  "stored_base p v (upd_s f'' d) = upd_s f'' (stored_base p v d)"
  "stored_base p v (d\<lparr>m_isAsync := b\<rparr>) = (stored_base p v d)\<lparr>m_isAsync := b\<rparr>"
  "upd_s f'' (d\<lparr>m_isAsync := b\<rparr>) = (upd_s f'' d)\<lparr>m_isAsync := b\<rparr>"
  by (cases p; simp add: stored_base_def upd_a_def upd_v_def upd_s_def)+

lemma stored_audio_commute: "p \<noteq> q \<Longrightarrow> stored_audio p v (stored_audio q u d) = stored_audio q u (stored_audio p v d)"
  by (cases p; cases q; simp add: stored_audio_def stored_base_apart stored_base_commute; simp add: upd_a_def)

lemma stored_video_commute: "p \<noteq> q \<Longrightarrow> stored_video p v (stored_video q u d) = stored_video q u (stored_video p v d)"
  by (cases p; cases q; simp add: stored_video_def stored_base_apart stored_base_commute; simp add: upd_v_def)

lemma stored_subtitle_commute:
  "p \<noteq> q \<Longrightarrow> stored_subtitle p v (stored_subtitle q u d) = stored_subtitle q u (stored_subtitle p v d)"
  by (cases p; cases q; simp add: stored_subtitle_def stored_base_apart stored_base_commute; simp add: upd_s_def)

lemma stored_commute: "p \<noteq> q \<Longrightarrow> stored type p v (stored type q u d) = stored type q u (stored type p v d)"
  by (simp add: stored_def stored_audio_commute stored_video_commute stored_subtitle_commute split: MediaSourceType.splits)

lemma detached_stored: "detached_delegate type h w \<Longrightarrow> detached_delegate type h (upd_d h (stored type p v) w)"
  by (simp add: detached_delegate_def upd_d_def)

lemma upd_d_stored:
  "upd_d h (stored type p u) (upd_d h (stored type p v) w) = upd_d h (stored type p u) w"
  "p \<noteq> q \<Longrightarrow> upd_d h (stored type p v) (upd_d h (stored type q u) w) = upd_d h (stored type q u) (upd_d h (stored type p v) w)"
  by (simp_all add: upd_d_def stored_twice stored_commute)

lemma delegate_getProperty_stored:
  assumes "detached_delegate type h w" "w_delegates w h = stored type p v d" "acceptable p v"
    "read_back (stored_properties type) p v"
  shows "fst (delegate_getProperty g percent h p w) = Some v"
proof -
  have c: "getMediaPlayerClient h w = None" and t: "m_mediaSourceType d = type"
    using assms(1) by (simp_all add: detached_delegate_def assms(2))
  show ?thesis
    using assms(3,4) t
    by (cases type)
      (auto simp: delegate_getProperty_def c assms(2) read_back_def stored_properties_def audio_getProperty_def
        video_getProperty_def subtitle_getProperty_def base_getProperty_def stored_def stored_audio_def stored_video_def
        stored_subtitle_def stored_base_def upd_a_def upd_v_def upd_s_def acceptable_def)
qed

interpretation pull: playback_delegate
  "delegate_setProperty g h" "\<lambda>p w. fst (delegate_getProperty g percent h p w)" "detached_delegate type h"
  acceptable "read_back (stored_properties type)"
  for g percent h type
proof
  fix p q v u w w'
  assume d: "detached_delegate type h w" and v: "acceptable p v"
  note setp = delegate_setProperty_detached
  show "\<exists>w'. delegate_setProperty g h p v w = Returns w' \<and> detached_delegate type h w'"
    using setp [OF d v, of g] detached_stored [OF d] by simp
  show "and_then (delegate_setProperty g h p v w) (delegate_setProperty g h p u) = delegate_setProperty g h p u w"
    if "acceptable p u"
    using setp [OF d v] setp [OF detached_stored [OF d] that] setp [OF d that] by (simp add: upd_d_stored)
  show "and_then (delegate_setProperty g h p v w) (delegate_setProperty g h q u) =
      and_then (delegate_setProperty g h q u w) (delegate_setProperty g h p v)"
    if "acceptable q u" "p \<noteq> q"
    using setp [OF d v] setp [OF detached_stored [OF d] that(1)] setp [OF d that(1)] setp [OF detached_stored [OF d] v]
      upd_d_stored(2) [OF that(2)] by simp
  show "fst (delegate_getProperty g percent h p w') = Some v"
    if "read_back (stored_properties type) p v" "delegate_setProperty g h p v w = Returns w'"
    using setp [OF d v, of g] that delegate_getProperty_stored [OF detached_stored [OF d] _ v that(1)]
    by (auto simp: upd_d_def)
qed

section \<open>Push mode\<close>

interpretation push: playback_delegate
  "\<lambda>p v d. Returns (push_setProperty e p v d)" "\<lambda>p d. fst (push_getProperty e p d)" "\<lambda>d. \<not> isOpen (pd_client d)"
  acceptable "read_back [Volume]"
  for e
  by unfold_locales (auto simp: push_setProperty_def push_getProperty_def read_back_def Let_def)

end
