(* ===== verification/Base_Sink.thy ===== *)
theory Base_Sink
  imports Delegate_Laws
begin

text \<open>
  \<open>RialtoGStreamerMSEBaseSink.cpp\<close>, \<open>RialtoGStreamerMSEAudioSink.cpp\<close>,
  \<open>RialtoGStreamerMSEVideoSink.cpp\<close> and \<open>RialtoGStreamerMSESubtitleSink.cpp\<close>: the GStreamer elements.
  An element owns its delegate between the change to READY and the change to NULL and passes every call
  on to it; properties set at other times are queued.

  A pull mode delegate lives in the \<open>world\<close> under its handle; a push mode delegate is private to its
  sink. The fields of the \<open>GstElement\<close> are kept by the delegate while there is one (\<open>sink_element\<close>).
  Handles are the addresses of new objects, so that the functions that construct a delegate take one.

  \<open>sink_env\<close> collects the answers of the delegates' environments, of the parent class \<open>GstElement\<close> and of
  the capabilities of the Rialto server.
\<close>

section \<open>State\<close>

datatype PlaybackMode = Pull | Push

datatype delegate_ref = PullDelegate nat | PushDelegate push_delegate

record base_sink =
  b_element :: GstElement
  b_sinkPad :: bool
  b_delegate :: "delegate_ref option"
  b_queuedProperties :: property_queue
  b_playbackMode :: PlaybackMode

record sink_env =
  pull_env :: gst_env
  push_env :: wa_env
  fade_percent :: "real \<Rightarrow> u32"
  initial_segment :: GstSegment
  parent_change_state :: "GstStateChange \<Rightarrow> GstStateChangeReturn"
  parent_query :: "GstQuery \<Rightarrow> bool \<times> query_answer"
  isVideoMaster :: "bool option"

section \<open>The methods of the delegate\<close>

text \<open>Calls through \<open>IPlaybackDelegate\<close>. The outer \<open>None\<close> is a call that never returns.\<close>

fun call_setProperty :: "sink_env \<Rightarrow> Property \<Rightarrow> GValue \<Rightarrow> delegate_ref \<times> world \<Rightarrow> (delegate_ref \<times> world) outcome" where
  "call_setProperty E p v (PullDelegate h, w) =
     and_then (delegate_setProperty (pull_env E) h p v w) (\<lambda>w1. Returns (PullDelegate h, w1))"
| "call_setProperty E p v (PushDelegate d, w) = Returns (PushDelegate (push_setProperty (push_env E) p v d), w)"

fun call_getProperty :: "sink_env \<Rightarrow> Property \<Rightarrow> delegate_ref \<times> world \<Rightarrow> GValue option \<times> delegate_ref \<times> world" where
  "call_getProperty E p (PullDelegate h, w) =
     (case delegate_getProperty (pull_env E) (fade_percent E) h p w of (v, w1) \<Rightarrow> (v, PullDelegate h, w1))"
| "call_getProperty E p (PushDelegate d, w) =
     (case push_getProperty (push_env E) p d of (v, d1) \<Rightarrow> (v, PushDelegate d1, w))"

fun call_changeState ::
  "sink_env \<Rightarrow> GstStateChange \<Rightarrow> delegate_ref \<times> world \<Rightarrow> GstStateChangeReturn \<times> delegate_ref \<times> world" where
  "call_changeState E t (PullDelegate h, w) =
     (case delegate_changeState (pull_env E) h t w of (r, w1) \<Rightarrow> (r, PullDelegate h, w1))"
| "call_changeState E t (PushDelegate d, w) =
     (case push_changeState (control_running (pull_env E)) (push_env E) t d of (r, d1) \<Rightarrow> (r, PushDelegate d1, w))"

fun call_handleEvent :: "sink_env \<Rightarrow> GstEvent \<Rightarrow> delegate_ref \<times> world \<Rightarrow> (bool \<times> delegate_ref \<times> world) outcome option" where
  "call_handleEvent E event (PullDelegate h, w) =
     Some (and_then (delegate_handleEvent (pull_env E) h event w) (\<lambda>(r, w1). Returns (r, PullDelegate h, w1)))"
| "call_handleEvent E event (PushDelegate d, w) =
     map_option (\<lambda>x. and_then x (\<lambda>(r, d1). Returns (r, PushDelegate d1, w)))
       (push_handleEvent (push_env E) (pad_accepts_event (pull_env E)) event d)"

fun call_handleSendEvent :: "sink_env \<Rightarrow> send_event \<Rightarrow> delegate_ref \<times> world \<Rightarrow> bool \<times> delegate_ref \<times> world" where
  "call_handleSendEvent E event (PullDelegate h, w) =
     (case handleSendEvent (pull_env E) h event w of (r, w1) \<Rightarrow> (r, PullDelegate h, w1))"
| "call_handleSendEvent E event (PushDelegate d, w) =
     (case push_handleSendEvent event d of (r, d1) \<Rightarrow> (r, PushDelegate d1, w))"

fun call_handleBuffer :: "sink_env \<Rightarrow> GstBuffer \<Rightarrow> delegate_ref \<times> world \<Rightarrow> (GstFlowReturn \<times> delegate_ref \<times> world) outcome option" where
  "call_handleBuffer E buf (PullDelegate h, w) =
     Some (and_then (handleBuffer (pull_env E) h buf w) (\<lambda>(r, w1). Returns (r, PullDelegate h, w1)))"
| "call_handleBuffer E buf (PushDelegate d, w) =
     map_option (\<lambda>x. and_then x (\<lambda>(r, d1). Returns (r, PushDelegate d1, w))) (push_handleBuffer (push_env E) buf d)"

fun call_handleQuery :: "sink_env \<Rightarrow> GstQuery \<Rightarrow> delegate_ref \<times> world \<Rightarrow> bool option \<times> query_answer" where
  "call_handleQuery E query (PullDelegate h, w) = handleQuery (pull_env E) h query w"
| "call_handleQuery E query (PushDelegate d, w) = push_handleQuery query d"

text \<open>The last reference to a delegate goes away.\<close>

fun release_ref :: "sink_env \<Rightarrow> delegate_ref \<times> world \<Rightarrow> world" where
  "release_ref E (PullDelegate h, w) = delete_delegate (backend (pull_env E)) h w"
| "release_ref E (PushDelegate d, w) = w"

fun ref_element :: "delegate_ref \<times> world \<Rightarrow> GstElement" where
  "ref_element (PullDelegate h, w) = m_sink (w_delegates w h)"
| "ref_element (PushDelegate d, w) = pd_sink d"

definition sink_element :: "base_sink \<Rightarrow> world \<Rightarrow> GstElement" where
  "sink_element s w = (case b_delegate s of None \<Rightarrow> b_element s | Some d \<Rightarrow> ref_element (d, w))"

section \<open>The base class\<close>

text \<open>A new delegate takes the place of an old one, which is destroyed, and gets the queued properties.\<close>

definition rialto_mse_base_sink_initialise_delegate ::
  "sink_env \<Rightarrow> delegate_ref \<Rightarrow> base_sink \<Rightarrow> world \<Rightarrow> (base_sink \<times> world) outcome" where
  "rialto_mse_base_sink_initialise_delegate E d s w =
     (let w1 = (case b_delegate s of None \<Rightarrow> w | Some old \<Rightarrow> release_ref E (old, w))
      in and_then (set_all (call_setProperty E) (queue_entries (b_queuedProperties s)) (d, w1))
           (\<lambda>(d1, w2). Returns (s\<lparr>b_delegate := Some d1, b_queuedProperties := Map.empty\<rparr>, w2)))"

definition rialto_mse_base_sink_send_event ::
  "sink_env \<Rightarrow> send_event \<Rightarrow> base_sink \<Rightarrow> world \<Rightarrow> bool \<times> base_sink \<times> world" where
  "rialto_mse_base_sink_send_event E event s w =
     (case b_delegate s of
        Some d \<Rightarrow> (case call_handleSendEvent E event (d, w) of (r, d1, w1) \<Rightarrow> (r, s\<lparr>b_delegate := Some d1\<rparr>, w1))
      | None \<Rightarrow> (False, s, w))"

definition rialto_mse_base_sink_event ::
  "sink_env \<Rightarrow> GstEvent \<Rightarrow> base_sink \<Rightarrow> world \<Rightarrow> (bool \<times> base_sink \<times> world) outcome option" where
  "rialto_mse_base_sink_event E event s w =
     (case b_delegate s of
        Some d \<Rightarrow> map_option (\<lambda>x. and_then x (\<lambda>(r, d1, w1). Returns (r, s\<lparr>b_delegate := Some d1\<rparr>, w1)))
                   (call_handleEvent E event (d, w))
      | None \<Rightarrow> Some (Returns (False, s, w)))"

definition rialto_mse_base_sink_chain ::
  "sink_env \<Rightarrow> GstBuffer \<Rightarrow> base_sink \<Rightarrow> world \<Rightarrow> (GstFlowReturn \<times> base_sink \<times> world) outcome option" where
  "rialto_mse_base_sink_chain E buf s w =
     (case b_delegate s of
        Some d \<Rightarrow> map_option (\<lambda>x. and_then x (\<lambda>(r, d1, w1). Returns (r, s\<lparr>b_delegate := Some d1\<rparr>, w1)))
                   (call_handleBuffer E buf (d, w))
      | None \<Rightarrow> Some (Returns (GST_FLOW_ERROR, s, w)))"

definition rialto_mse_base_sink_query :: "sink_env \<Rightarrow> GstQuery \<Rightarrow> base_sink \<Rightarrow> world \<Rightarrow> bool \<times> query_answer" where
  "rialto_mse_base_sink_query E query s w =
     (case b_delegate s of
        Some d \<Rightarrow> (case call_handleQuery E query (d, w) of
                     (Some result, answer) \<Rightarrow> (result, answer)
                   | (None, _) \<Rightarrow> parent_query E query)
      | None \<Rightarrow> (False, NOT_SET))"

definition rialto_mse_base_sink_change_state ::
  "sink_env \<Rightarrow> GstStateChange \<Rightarrow> base_sink \<Rightarrow> world \<Rightarrow> GstStateChangeReturn \<times> base_sink \<times> world" where
  "rialto_mse_base_sink_change_state E t s w =
     (case b_delegate s of
        Some d \<Rightarrow>
          (case call_changeState E t (d, w) of
             (status, d1, w1) \<Rightarrow>
               if status \<noteq> GST_STATE_CHANGE_FAILURE
               then (let result = parent_change_state E t;
                         (s2, w2) = (if t = GST_STATE_CHANGE_READY_TO_NULL
                                     then (s\<lparr>b_element := ref_element (d1, w1), b_delegate := None\<rparr>, release_ref E (d1, w1))
                                     else (s\<lparr>b_delegate := Some d1\<rparr>, w1))
                     in (if result = GST_STATE_CHANGE_FAILURE \<or> result = GST_STATE_CHANGE_ASYNC then result else status, s2, w2))
               else (status, s\<lparr>b_delegate := Some d1\<rparr>, w1))
      | None \<Rightarrow> (GST_STATE_CHANGE_FAILURE, s, w))"

text \<open>\<open>value\<close> is what the \<open>GValue\<close> holds before the call.\<close>

definition rialto_mse_base_sink_handle_get_property ::
  "sink_env \<Rightarrow> Property \<Rightarrow> GValue \<Rightarrow> base_sink \<Rightarrow> world \<Rightarrow> GValue \<times> base_sink \<times> world" where
  "rialto_mse_base_sink_handle_get_property E p value s w =
     (case b_delegate s of
        Some d \<Rightarrow>
          (case call_getProperty E p (d, w) of
             (r, d1, w1) \<Rightarrow> (case r of None \<Rightarrow> value | Some v \<Rightarrow> v, s\<lparr>b_delegate := Some d1\<rparr>, w1))
      | None \<Rightarrow> (case b_queuedProperties s p of None \<Rightarrow> value | Some v \<Rightarrow> v, s, w))"

definition rialto_mse_base_sink_handle_set_property ::
  "sink_env \<Rightarrow> Property \<Rightarrow> GValue \<Rightarrow> base_sink \<Rightarrow> world \<Rightarrow> (base_sink \<times> world) outcome" where
  "rialto_mse_base_sink_handle_set_property E p value s w =
     (case b_delegate s of
        Some d \<Rightarrow> and_then (call_setProperty E p value (d, w)) (\<lambda>(d1, w1). Returns (s\<lparr>b_delegate := Some d1\<rparr>, w1))
      | None \<Rightarrow> Returns (s\<lparr>b_queuedProperties := (b_queuedProperties s)(p \<mapsto> value)\<rparr>, w))"

text \<open>The initialisation of an instance, of the base class first. The pad is made from the template that the
  class has added, if it has; \<open>pad_created\<close> is the answer of \<open>gst_pad_new_from_template\<close>.\<close>

definition rialto_mse_base_sink_init :: "GstElement \<Rightarrow> base_sink" where
  "rialto_mse_base_sink_init element =
     \<lparr>b_element = element, b_sinkPad = False, b_delegate = None, b_queuedProperties = Map.empty, b_playbackMode = Pull\<rparr>"

definition rialto_mse_base_sink_initialise_sinkpad :: "bool \<Rightarrow> bool \<Rightarrow> base_sink \<Rightarrow> bool \<times> base_sink" where
  "rialto_mse_base_sink_initialise_sinkpad pad_template pad_created s =
     (if \<not> pad_template then (False, s)
      else if \<not> pad_created then (False, s)
      else (True, s\<lparr>b_sinkPad := True\<rparr>))"

text \<open>With a pad, the three classes also set its functions to \<open>rialto_mse_base_sink_chain\<close> and
  \<open>rialto_mse_base_sink_event\<close>; without one these are not called.\<close>

definition rialto_mse_audio_sink_init :: "bool \<Rightarrow> bool \<Rightarrow> base_sink \<Rightarrow> base_sink" where
  "rialto_mse_audio_sink_init pad_template pad_created s =
     (case rialto_mse_base_sink_initialise_sinkpad pad_template pad_created s of (ok, s1) \<Rightarrow> s1)"

definition rialto_mse_video_sink_init :: "bool \<Rightarrow> bool \<Rightarrow> base_sink \<Rightarrow> base_sink" where
  "rialto_mse_video_sink_init pad_template pad_created s =
     (case rialto_mse_base_sink_initialise_sinkpad pad_template pad_created s of (ok, s1) \<Rightarrow> s1)"

definition rialto_mse_subtitle_sink_init :: "bool \<Rightarrow> bool \<Rightarrow> base_sink \<Rightarrow> base_sink" where
  "rialto_mse_subtitle_sink_init pad_template pad_created s =
     (case rialto_mse_base_sink_initialise_sinkpad pad_template pad_created s of (ok, s1) \<Rightarrow> s1)"

text \<open>The end of an instance, which releases its delegate.\<close>

definition rialto_mse_base_sink_finalize :: "sink_env \<Rightarrow> base_sink \<Rightarrow> world \<Rightarrow> world" where
  "rialto_mse_base_sink_finalize E s w = (case b_delegate s of None \<Rightarrow> w | Some d \<Rightarrow> release_ref E (d, w))"

lemmas sink_init_defs =
  rialto_mse_base_sink_init_def rialto_mse_base_sink_initialise_sinkpad_def rialto_mse_audio_sink_init_def
  rialto_mse_video_sink_init_def rialto_mse_subtitle_sink_init_def

section \<open>State changes of the audio, video and subtitle sinks\<close>

definition new_pull_delegate ::
  "sink_env \<Rightarrow> MediaSourceType \<Rightarrow> nat \<Rightarrow> base_sink \<Rightarrow> world \<Rightarrow> (base_sink \<times> world) outcome" where
  "new_pull_delegate E type h s w =
     rialto_mse_base_sink_initialise_delegate E (PullDelegate h) s
       (new_delegate h (PullModePlaybackDelegate (initial_segment E) type (sink_element s w) (b_sinkPad s)) w)"

definition rialto_mse_audio_sink_change_state ::
  "sink_env \<Rightarrow> nat \<Rightarrow> GstStateChange \<Rightarrow> base_sink \<Rightarrow> world \<Rightarrow> (GstStateChangeReturn \<times> base_sink \<times> world) outcome" where
  "rialto_mse_audio_sink_change_state E h t s w =
     and_then
       (if t = GST_STATE_CHANGE_NULL_TO_READY
        then (if b_playbackMode s = Pull then new_pull_delegate E MST_AUDIO h s w
              else rialto_mse_base_sink_initialise_delegate E (PushDelegate (PushModeAudioPlaybackDelegate (sink_element s w))) s w)
        else Returns (s, w))
       (\<lambda>(s1, w1). Returns (rialto_mse_base_sink_change_state E t s1 w1))"

definition rialto_mse_video_sink_change_state ::
  "sink_env \<Rightarrow> nat \<Rightarrow> GstStateChange \<Rightarrow> base_sink \<Rightarrow> world \<Rightarrow> (GstStateChangeReturn \<times> base_sink \<times> world) outcome" where
  "rialto_mse_video_sink_change_state E h t s w =
     and_then (if t = GST_STATE_CHANGE_NULL_TO_READY then new_pull_delegate E MST_VIDEO h s w else Returns (s, w))
       (\<lambda>(s1, w1). Returns (rialto_mse_base_sink_change_state E t s1 w1))"

definition rialto_mse_subtitle_sink_change_state ::
  "sink_env \<Rightarrow> nat \<Rightarrow> GstStateChange \<Rightarrow> base_sink \<Rightarrow> world \<Rightarrow> (GstStateChangeReturn \<times> base_sink \<times> world) outcome" where
  "rialto_mse_subtitle_sink_change_state E h t s w =
     and_then (if t = GST_STATE_CHANGE_NULL_TO_READY then new_pull_delegate E MST_SUBTITLE h s w else Returns (s, w))
       (\<lambda>(s1, w1). Returns (rialto_mse_base_sink_change_state E t s1 w1))"

text \<open>The virtual method of an element of one of the three classes.\<close>

datatype sink_class = AUDIO_SINK | VIDEO_SINK | SUBTITLE_SINK

fun sink_change_state ::
  "sink_class \<Rightarrow> sink_env \<Rightarrow> nat \<Rightarrow> GstStateChange \<Rightarrow> base_sink \<Rightarrow> world \<Rightarrow> (GstStateChangeReturn \<times> base_sink \<times> world) outcome" where
  "sink_change_state AUDIO_SINK = rialto_mse_audio_sink_change_state"
| "sink_change_state VIDEO_SINK = rialto_mse_video_sink_change_state"
| "sink_change_state SUBTITLE_SINK = rialto_mse_subtitle_sink_change_state"

end
