(* ===== verification/Sink_Classes.thy ===== *)
theory Sink_Classes
  imports Base_Sink
begin

text \<open>
  The GObject properties of the sinks: the switches of \<open>get_property\<close> and \<open>set_property\<close> of the base,
  audio, video and subtitle sinks and the parameter specifications that their \<open>class_init\<close> functions
  install. GObject calls the methods of the class that installed a property, with a value of the type of
  its specification.

  The getters and setters give \<open>None\<close> where the code reports an invalid property id. A getter is given
  the initial content of the \<open>GValue\<close>.
\<close>

section \<open>Parameter specifications\<close>

datatype GParamFlags = G_PARAM_READABLE | G_PARAM_WRITABLE | G_PARAM_READWRITE

record GParamSpec =
  ps_name :: string
  ps_type :: GType
  ps_range :: "(GValue \<times> GValue) option"
  ps_default :: "GValue option"
  ps_flags :: GParamFlags

definition readable :: "GParamSpec \<Rightarrow> bool" where
  "readable sp \<longleftrightarrow> ps_flags sp \<noteq> G_PARAM_WRITABLE"

definition writable :: "GParamSpec \<Rightarrow> bool" where
  "writable sp \<longleftrightarrow> ps_flags sp \<noteq> G_PARAM_READABLE"

definition g_param_spec_boolean :: "string \<Rightarrow> bool \<Rightarrow> GParamFlags \<Rightarrow> GParamSpec" where
  "g_param_spec_boolean name initial flags =
     \<lparr>ps_name = name, ps_type = G_TYPE_BOOLEAN, ps_range = None, ps_default = Some (V_boolean initial), ps_flags = flags\<rparr>"

definition g_param_spec_int :: "string \<Rightarrow> int \<Rightarrow> int \<Rightarrow> int \<Rightarrow> GParamFlags \<Rightarrow> GParamSpec" where
  "g_param_spec_int name lo hi initial flags =
     \<lparr>ps_name = name, ps_type = G_TYPE_INT, ps_range = Some (V_int lo, V_int hi), ps_default = Some (V_int initial),
      ps_flags = flags\<rparr>"

definition g_param_spec_uint :: "string \<Rightarrow> u32 \<Rightarrow> u32 \<Rightarrow> u32 \<Rightarrow> GParamFlags \<Rightarrow> GParamSpec" where
  "g_param_spec_uint name lo hi initial flags =
     \<lparr>ps_name = name, ps_type = G_TYPE_UINT, ps_range = Some (V_uint lo, V_uint hi), ps_default = Some (V_uint initial),
      ps_flags = flags\<rparr>"

definition g_param_spec_int64 :: "string \<Rightarrow> int \<Rightarrow> int \<Rightarrow> int \<Rightarrow> GParamFlags \<Rightarrow> GParamSpec" where
  "g_param_spec_int64 name lo hi initial flags =
     \<lparr>ps_name = name, ps_type = G_TYPE_INT64, ps_range = Some (V_int64 lo, V_int64 hi), ps_default = Some (V_int64 initial),
      ps_flags = flags\<rparr>"

definition g_param_spec_double :: "string \<Rightarrow> real \<Rightarrow> real \<Rightarrow> real \<Rightarrow> GParamFlags \<Rightarrow> GParamSpec" where
  "g_param_spec_double name lo hi initial flags =
     \<lparr>ps_name = name, ps_type = G_TYPE_DOUBLE, ps_range = Some (V_double lo, V_double hi),
      ps_default = Some (V_double initial), ps_flags = flags\<rparr>"

definition g_param_spec_string :: "string \<Rightarrow> string option \<Rightarrow> GParamFlags \<Rightarrow> GParamSpec" where
  "g_param_spec_string name initial flags =
     \<lparr>ps_name = name, ps_type = G_TYPE_STRING, ps_range = None, ps_default = Some (V_string initial), ps_flags = flags\<rparr>"

definition g_param_spec_other :: "string \<Rightarrow> GType \<Rightarrow> GParamFlags \<Rightarrow> GParamSpec" where
  "g_param_spec_other name type flags =
     \<lparr>ps_name = name, ps_type = type, ps_range = None, ps_default = None, ps_flags = flags\<rparr>"

lemmas param_spec_defs = g_param_spec_boolean_def g_param_spec_int_def g_param_spec_uint_def g_param_spec_int64_def
  g_param_spec_double_def g_param_spec_string_def g_param_spec_other_def readable_def writable_def

definition G_MAXINT :: int where "G_MAXINT = 2147483647"
definition G_MININT64 :: int where "G_MININT64 = - 9223372036854775808"
definition G_MAXINT64 :: int where "G_MAXINT64 = 9223372036854775807"

text \<open>A class: its properties and the caps of its pad template. The capabilities are the mime types and
  the properties that the server supports, or \<open>None\<close> when they are not available.\<close>

record 'p element_class =
  ec_properties :: "('p \<times> GParamSpec) list"
  ec_pad_caps :: "string list option"

type_synonym capabilities = "(string list \<times> string list) option"

text \<open>A getter sets a default and asks the delegate or the queue.\<close>

abbreviation read_property where
  "read_property E p value s w \<equiv> Some (rialto_mse_base_sink_handle_get_property E p value s w)"

abbreviation write_property where
  "write_property E p value s w \<equiv> Some (rialto_mse_base_sink_handle_set_property E p value s w)"

section \<open>The base sink\<close>

datatype base_prop = PROP_IS_SINGLE_PATH_STREAM | PROP_N_STREAMS | PROP_HAS_DRM | PROP_STATS | PROP_LAST_SAMPLE
  | PROP_ENABLE_LAST_SAMPLE

fun rialto_mse_base_sink_get_property ::
  "sink_env \<Rightarrow> base_prop \<Rightarrow> GValue \<Rightarrow> base_sink \<Rightarrow> world \<Rightarrow> (GValue \<times> base_sink \<times> world) option" where
  "rialto_mse_base_sink_get_property E PROP_IS_SINGLE_PATH_STREAM value s w =
     read_property E IsSinglePathStream (V_boolean False) s w"
| "rialto_mse_base_sink_get_property E PROP_N_STREAMS value s w = read_property E NumberOfStreams (V_int 1) s w"
| "rialto_mse_base_sink_get_property E PROP_HAS_DRM value s w = read_property E HasDrm (V_boolean True) s w"
| "rialto_mse_base_sink_get_property E PROP_STATS value s w = read_property E Stats value s w"
| "rialto_mse_base_sink_get_property E PROP_ENABLE_LAST_SAMPLE value s w = read_property E EnableLastSample value s w"
| "rialto_mse_base_sink_get_property E PROP_LAST_SAMPLE value s w = read_property E LastSample value s w"

fun rialto_mse_base_sink_set_property ::
  "sink_env \<Rightarrow> base_prop \<Rightarrow> GValue \<Rightarrow> base_sink \<Rightarrow> world \<Rightarrow> (base_sink \<times> world) outcome option" where
  "rialto_mse_base_sink_set_property E PROP_IS_SINGLE_PATH_STREAM value s w = write_property E IsSinglePathStream value s w"
| "rialto_mse_base_sink_set_property E PROP_N_STREAMS value s w = write_property E NumberOfStreams value s w"
| "rialto_mse_base_sink_set_property E PROP_HAS_DRM value s w = write_property E HasDrm value s w"
| "rialto_mse_base_sink_set_property E PROP_ENABLE_LAST_SAMPLE value s w = write_property E EnableLastSample value s w"
| "rialto_mse_base_sink_set_property E _ value s w = None"

definition rialto_mse_base_sink_class_init :: "base_prop element_class" where
  "rialto_mse_base_sink_class_init =
     \<lparr>ec_properties =
       [(PROP_IS_SINGLE_PATH_STREAM, g_param_spec_boolean ''single-path-stream'' False G_PARAM_READWRITE),
        (PROP_N_STREAMS, g_param_spec_int ''streams-number'' 1 G_MAXINT 1 G_PARAM_READWRITE),
        (PROP_HAS_DRM, g_param_spec_boolean ''has-drm'' True G_PARAM_READWRITE),
        (PROP_STATS, g_param_spec_other ''stats'' G_TYPE_POINTER G_PARAM_READABLE),
        (PROP_ENABLE_LAST_SAMPLE, g_param_spec_boolean ''enable-last-sample'' False G_PARAM_READWRITE),
        (PROP_LAST_SAMPLE, g_param_spec_other ''last-sample'' GST_TYPE_SAMPLE G_PARAM_READABLE)],
      ec_pad_caps = None\<rparr>"

section \<open>The audio sink\<close>

datatype audio_prop = PROP_VOLUME | PROP_MUTE | PROP_GAP | PROP_LOW_LATENCY | PROP_SYNC | PROP_SYNC_OFF
  | PROP_STREAM_SYNC_MODE | PROP_AUDIO_FADE | PROP_FADE_VOLUME | PROP_LIMIT_BUFFERING_MS | PROP_USE_BUFFERING
  | PROP_ASYNC | PROP_WEBAUDIO

fun rialto_mse_audio_sink_get_property ::
  "sink_env \<Rightarrow> audio_prop \<Rightarrow> GValue \<Rightarrow> base_sink \<Rightarrow> world \<Rightarrow> (GValue \<times> base_sink \<times> world) option" where
  "rialto_mse_audio_sink_get_property E PROP_VOLUME value s w = read_property E Volume (V_double kDefaultVolume) s w"
| "rialto_mse_audio_sink_get_property E PROP_MUTE value s w = read_property E Mute (V_boolean False) s w"
| "rialto_mse_audio_sink_get_property E PROP_SYNC value s w = read_property E Sync (V_boolean kDefaultSync) s w"
| "rialto_mse_audio_sink_get_property E PROP_STREAM_SYNC_MODE value s w =
     read_property E StreamSyncMode (V_int kDefaultStreamSyncMode) s w"
| "rialto_mse_audio_sink_get_property E PROP_FADE_VOLUME value s w = read_property E FadeVolume (V_uint kDefaultFadeVolume) s w"
| "rialto_mse_audio_sink_get_property E PROP_LIMIT_BUFFERING_MS value s w =
     read_property E LimitBufferingMs (V_uint kDefaultBufferingLimit) s w"
| "rialto_mse_audio_sink_get_property E PROP_USE_BUFFERING value s w =
     read_property E UseBuffering (V_boolean kDefaultUseBuffering) s w"
| "rialto_mse_audio_sink_get_property E PROP_ASYNC value s w = read_property E Async (V_boolean True) s w"
| "rialto_mse_audio_sink_get_property E PROP_WEBAUDIO value s w = Some (V_boolean (b_playbackMode s = Push), s, w)"
| "rialto_mse_audio_sink_get_property E _ value s w = None"

text \<open>The playback mode can be changed in the state NULL only.\<close>

fun rialto_mse_audio_sink_set_property ::
  "sink_env \<Rightarrow> audio_prop \<Rightarrow> GValue \<Rightarrow> base_sink \<Rightarrow> world \<Rightarrow> (base_sink \<times> world) outcome option" where
  "rialto_mse_audio_sink_set_property E PROP_VOLUME value s w = write_property E Volume value s w"
| "rialto_mse_audio_sink_set_property E PROP_MUTE value s w = write_property E Mute value s w"
| "rialto_mse_audio_sink_set_property E PROP_GAP value s w = write_property E Gap value s w"
| "rialto_mse_audio_sink_set_property E PROP_LOW_LATENCY value s w = write_property E LowLatency value s w"
| "rialto_mse_audio_sink_set_property E PROP_SYNC value s w = write_property E Sync value s w"
| "rialto_mse_audio_sink_set_property E PROP_SYNC_OFF value s w = write_property E SyncOff value s w"
| "rialto_mse_audio_sink_set_property E PROP_STREAM_SYNC_MODE value s w = write_property E StreamSyncMode value s w"
| "rialto_mse_audio_sink_set_property E PROP_AUDIO_FADE value s w = write_property E AudioFade value s w"
| "rialto_mse_audio_sink_set_property E PROP_LIMIT_BUFFERING_MS value s w = write_property E LimitBufferingMs value s w"
| "rialto_mse_audio_sink_set_property E PROP_USE_BUFFERING value s w = write_property E UseBuffering value s w"
| "rialto_mse_audio_sink_set_property E PROP_ASYNC value s w = write_property E Async value s w"
| "rialto_mse_audio_sink_set_property E PROP_WEBAUDIO value s w =
     (if GST_STATE (sink_element s w) \<noteq> GST_STATE_VOID_PENDING \<and> GST_STATE (sink_element s w) \<noteq> GST_STATE_NULL
      then Some (Returns (s, w))
      else Some (Returns (s\<lparr>b_playbackMode := (if g_value_get_boolean value then Push else Pull)\<rparr>, w)))"
| "rialto_mse_audio_sink_set_property E PROP_FADE_VOLUME value s w = None"

text \<open>The specification of a supported property, or \<open>None\<close> for an unexpected name.\<close>

definition audio_supported :: "string \<Rightarrow> (audio_prop \<times> GParamSpec) option" where
  "audio_supported name =
     (if name = ''low-latency'' then Some (PROP_LOW_LATENCY, g_param_spec_boolean name False G_PARAM_WRITABLE)
      else if name = ''sync'' then Some (PROP_SYNC, g_param_spec_boolean name kDefaultSync G_PARAM_READWRITE)
      else if name = ''sync-off'' then Some (PROP_SYNC_OFF, g_param_spec_boolean name False G_PARAM_WRITABLE)
      else if name = ''stream-sync-mode''
      then Some (PROP_STREAM_SYNC_MODE, g_param_spec_int name 0 G_MAXINT kDefaultStreamSyncMode G_PARAM_READWRITE)
      else if name = ''audio-fade'' then Some (PROP_AUDIO_FADE, g_param_spec_string name (Some ''100,0,L'') G_PARAM_WRITABLE)
      else if name = ''fade-volume''
      then Some (PROP_FADE_VOLUME, g_param_spec_uint name 0 100 kDefaultFadeVolume G_PARAM_READABLE)
      else if name = ''limit-buffering-ms''
      then Some (PROP_LIMIT_BUFFERING_MS, g_param_spec_uint name 0 20000 kDefaultBufferingLimit G_PARAM_READWRITE)
      else None)"

definition rialto_mse_audio_sink_class_init :: "capabilities \<Rightarrow> audio_prop element_class" where
  "rialto_mse_audio_sink_class_init caps =
     (let installed =
        [(PROP_VOLUME, g_param_spec_double ''volume'' 0 1 kDefaultVolume G_PARAM_READWRITE),
         (PROP_MUTE, g_param_spec_boolean ''mute'' False G_PARAM_READWRITE),
         (PROP_GAP, g_param_spec_other ''gap'' GST_TYPE_STRUCTURE G_PARAM_WRITABLE),
         (PROP_USE_BUFFERING, g_param_spec_boolean ''use-buffering'' kDefaultUseBuffering G_PARAM_READWRITE),
         (PROP_ASYNC, g_param_spec_boolean ''async'' False G_PARAM_READWRITE),
         (PROP_WEBAUDIO, g_param_spec_boolean ''web-audio'' False G_PARAM_READWRITE)]
      in case caps of
           Some (supportedMimeTypes, supportedProperties) \<Rightarrow>
             \<lparr>ec_properties = installed @ List.map_filter audio_supported supportedProperties,
              ec_pad_caps = Some (rialto_mse_sink_setup_supported_caps supportedMimeTypes)\<rparr>
         | None \<Rightarrow> \<lparr>ec_properties = installed, ec_pad_caps = None\<rparr>)"

section \<open>The video sink\<close>

datatype video_prop = PROP_WINDOW_SET | PROP_MAX_VIDEO_WIDTH | PROP_MAX_VIDEO_HEIGHT | PROP_MAX_VIDEO_WIDTH_DEPRECATED
  | PROP_MAX_VIDEO_HEIGHT_DEPRECATED | PROP_FRAME_STEP_ON_PREROLL | PROP_IMMEDIATE_OUTPUT | PROP_SYNCMODE_STREAMING
  | PROP_SHOW_VIDEO_WINDOW | PROP_IS_MASTER | PROP_VIDEO_PTS

fun rialto_mse_video_sink_get_property ::
  "sink_env \<Rightarrow> video_prop \<Rightarrow> GValue \<Rightarrow> base_sink \<Rightarrow> world \<Rightarrow> (GValue \<times> base_sink \<times> world) option" where
  "rialto_mse_video_sink_get_property E PROP_WINDOW_SET value s w =
     read_property E WindowSet (V_string (Some ''0,0,1920,1080'')) s w"
| "rialto_mse_video_sink_get_property E PROP_MAX_VIDEO_WIDTH_DEPRECATED value s w = read_property E MaxVideoWidth (V_uint 0) s w"
| "rialto_mse_video_sink_get_property E PROP_MAX_VIDEO_WIDTH value s w = read_property E MaxVideoWidth (V_uint 0) s w"
| "rialto_mse_video_sink_get_property E PROP_MAX_VIDEO_HEIGHT_DEPRECATED value s w = read_property E MaxVideoHeight (V_uint 0) s w"
| "rialto_mse_video_sink_get_property E PROP_MAX_VIDEO_HEIGHT value s w = read_property E MaxVideoHeight (V_uint 0) s w"
| "rialto_mse_video_sink_get_property E PROP_FRAME_STEP_ON_PREROLL value s w =
     read_property E FrameStepOnPreroll (V_boolean False) s w"
| "rialto_mse_video_sink_get_property E PROP_IMMEDIATE_OUTPUT value s w = read_property E ImmediateOutput (V_boolean False) s w"
| "rialto_mse_video_sink_get_property E PROP_IS_MASTER value s w =
     Some (V_boolean (case isVideoMaster E of Some isMaster \<Rightarrow> isMaster | None \<Rightarrow> True), s, w)"
| "rialto_mse_video_sink_get_property E PROP_VIDEO_PTS value s w = read_property E VideoPts (V_int64 0) s w"
| "rialto_mse_video_sink_get_property E _ value s w = None"

fun rialto_mse_video_sink_set_property ::
  "sink_env \<Rightarrow> video_prop \<Rightarrow> GValue \<Rightarrow> base_sink \<Rightarrow> world \<Rightarrow> (base_sink \<times> world) outcome option" where
  "rialto_mse_video_sink_set_property E PROP_WINDOW_SET value s w = write_property E WindowSet value s w"
| "rialto_mse_video_sink_set_property E PROP_MAX_VIDEO_WIDTH value s w = write_property E MaxVideoWidth value s w"
| "rialto_mse_video_sink_set_property E PROP_MAX_VIDEO_WIDTH_DEPRECATED value s w = write_property E MaxVideoWidth value s w"
| "rialto_mse_video_sink_set_property E PROP_MAX_VIDEO_HEIGHT value s w = write_property E MaxVideoHeight value s w"
| "rialto_mse_video_sink_set_property E PROP_MAX_VIDEO_HEIGHT_DEPRECATED value s w = write_property E MaxVideoHeight value s w"
| "rialto_mse_video_sink_set_property E PROP_FRAME_STEP_ON_PREROLL value s w = write_property E FrameStepOnPreroll value s w"
| "rialto_mse_video_sink_set_property E PROP_IMMEDIATE_OUTPUT value s w = write_property E ImmediateOutput value s w"
| "rialto_mse_video_sink_set_property E PROP_SYNCMODE_STREAMING value s w = write_property E SyncmodeStreaming value s w"
| "rialto_mse_video_sink_set_property E PROP_SHOW_VIDEO_WINDOW value s w = write_property E ShowVideoWindow value s w"
| "rialto_mse_video_sink_set_property E _ value s w = None"

definition video_supported :: "string \<Rightarrow> (video_prop \<times> GParamSpec) option" where
  "video_supported name =
     (if name = ''immediate-output'' then Some (PROP_IMMEDIATE_OUTPUT, g_param_spec_boolean name True G_PARAM_READWRITE)
      else if name = ''syncmode-streaming'' then Some (PROP_SYNCMODE_STREAMING, g_param_spec_boolean name False G_PARAM_WRITABLE)
      else if name = ''show-video-window'' then Some (PROP_SHOW_VIDEO_WINDOW, g_param_spec_boolean name True G_PARAM_WRITABLE)
      else None)"

definition rialto_mse_video_sink_class_init :: "capabilities \<Rightarrow> video_prop element_class" where
  "rialto_mse_video_sink_class_init caps =
     (let installed =
        [(PROP_WINDOW_SET, g_param_spec_string ''rectangle'' None G_PARAM_READWRITE),
         (PROP_MAX_VIDEO_WIDTH, g_param_spec_uint ''max-video-width'' 0 3840 DEFAULT_MAX_VIDEO_WIDTH G_PARAM_READWRITE),
         (PROP_MAX_VIDEO_HEIGHT, g_param_spec_uint ''max-video-height'' 0 2160 DEFAULT_MAX_VIDEO_HEIGHT G_PARAM_READWRITE),
         (PROP_MAX_VIDEO_WIDTH_DEPRECATED, g_param_spec_uint ''maxVideoWidth'' 0 3840 DEFAULT_MAX_VIDEO_WIDTH G_PARAM_READWRITE),
         (PROP_MAX_VIDEO_HEIGHT_DEPRECATED, g_param_spec_uint ''maxVideoHeight'' 0 2160 DEFAULT_MAX_VIDEO_HEIGHT G_PARAM_READWRITE),
         (PROP_FRAME_STEP_ON_PREROLL, g_param_spec_boolean ''frame-step-on-preroll'' False G_PARAM_READWRITE),
         (PROP_IS_MASTER, g_param_spec_boolean ''is-master'' True G_PARAM_READABLE),
         (PROP_VIDEO_PTS, g_param_spec_int64 ''video_pts'' G_MININT64 G_MAXINT64 0 G_PARAM_READABLE)]
      in case caps of
           Some (supportedMimeTypes, supportedProperties) \<Rightarrow>
             \<lparr>ec_properties = installed @ List.map_filter video_supported supportedProperties,
              ec_pad_caps = Some (rialto_mse_sink_setup_supported_caps supportedMimeTypes)\<rparr>
         | None \<Rightarrow> \<lparr>ec_properties = installed, ec_pad_caps = None\<rparr>)"

section \<open>The subtitle sink\<close>

datatype subtitle_prop = SUB_PROP_MUTE | PROP_TEXT_TRACK_IDENTIFIER | PROP_WINDOW_ID | SUB_PROP_ASYNC

fun rialto_mse_subtitle_sink_get_property ::
  "sink_env \<Rightarrow> subtitle_prop \<Rightarrow> GValue \<Rightarrow> base_sink \<Rightarrow> world \<Rightarrow> (GValue \<times> base_sink \<times> world) option" where
  "rialto_mse_subtitle_sink_get_property E SUB_PROP_MUTE value s w = read_property E Mute (V_boolean False) s w"
| "rialto_mse_subtitle_sink_get_property E PROP_TEXT_TRACK_IDENTIFIER value s w =
     read_property E TextTrackIdentifier (V_string (Some [])) s w"
| "rialto_mse_subtitle_sink_get_property E PROP_WINDOW_ID value s w = read_property E WindowId (V_uint 0) s w"
| "rialto_mse_subtitle_sink_get_property E SUB_PROP_ASYNC value s w = read_property E Async (V_boolean False) s w"

fun rialto_mse_subtitle_sink_set_property ::
  "sink_env \<Rightarrow> subtitle_prop \<Rightarrow> GValue \<Rightarrow> base_sink \<Rightarrow> world \<Rightarrow> (base_sink \<times> world) outcome option" where
  "rialto_mse_subtitle_sink_set_property E SUB_PROP_MUTE value s w = write_property E Mute value s w"
| "rialto_mse_subtitle_sink_set_property E PROP_TEXT_TRACK_IDENTIFIER value s w = write_property E TextTrackIdentifier value s w"
| "rialto_mse_subtitle_sink_set_property E PROP_WINDOW_ID value s w = write_property E WindowId value s w"
| "rialto_mse_subtitle_sink_set_property E SUB_PROP_ASYNC value s w = write_property E Async value s w"

definition rialto_mse_subtitle_sink_class_init :: "capabilities \<Rightarrow> subtitle_prop element_class" where
  "rialto_mse_subtitle_sink_class_init caps =
     \<lparr>ec_properties =
        [(SUB_PROP_MUTE, g_param_spec_boolean ''mute'' False G_PARAM_READWRITE),
         (PROP_TEXT_TRACK_IDENTIFIER, g_param_spec_string ''text-track-identifier'' None G_PARAM_READWRITE),
         (PROP_WINDOW_ID, g_param_spec_uint ''window-id'' 0 256 0 G_PARAM_READWRITE),
         (SUB_PROP_ASYNC, g_param_spec_boolean ''async'' False G_PARAM_READWRITE)],
      ec_pad_caps = map_option (\<lambda>(supportedMimeTypes, _). rialto_mse_sink_setup_supported_caps supportedMimeTypes) caps\<rparr>"

section \<open>Values have the types of their specifications\<close>

definition queue_typed :: "property_queue \<Rightarrow> bool" where
  "queue_typed q \<longleftrightarrow> (\<forall>p v. q p = Some v \<longrightarrow> G_VALUE_TYPE v = property_type p)"

lemma base_getProperty_typed: "base_getProperty g h p w = Some v \<Longrightarrow> G_VALUE_TYPE v = property_type p"
  by (cases p) (auto simp: base_getProperty_def Let_def split: option.splits prod.splits bool.splits)

lemma audio_getProperty_typed: "fst (audio_getProperty g percent h p w) = Some v \<Longrightarrow> G_VALUE_TYPE v = property_type p"
  by (cases p) (auto simp: audio_getProperty_def Let_def dest: base_getProperty_typed
      split: option.splits prod.splits bool.splits)

lemma video_getProperty_typed: "fst (video_getProperty g h p w) = Some v \<Longrightarrow> G_VALUE_TYPE v = property_type p"
  by (cases p) (auto simp: video_getProperty_def Let_def dest: base_getProperty_typed split: option.splits prod.splits)

lemma subtitle_getProperty_typed: "subtitle_getProperty g h p w = Some v \<Longrightarrow> G_VALUE_TYPE v = property_type p"
  by (cases p) (auto simp: subtitle_getProperty_def Let_def dest: base_getProperty_typed split: option.splits prod.splits)

lemma push_getProperty_typed: "fst (push_getProperty e p d) = Some v \<Longrightarrow> G_VALUE_TYPE v = property_type p"
  by (auto simp: push_getProperty_def split: if_splits prod.splits bool.splits)

lemmas getProperty_typed = audio_getProperty_typed video_getProperty_typed subtitle_getProperty_typed push_getProperty_typed

lemma delegate_getProperty_typed:
  "fst (delegate_getProperty g percent h p w) = Some v \<Longrightarrow> G_VALUE_TYPE v = property_type p"
  by (auto simp: delegate_getProperty_def intro: getProperty_typed split: MediaSourceType.splits)

lemma call_getProperty_typed: "fst (call_getProperty E p (d, w)) = Some v \<Longrightarrow> G_VALUE_TYPE v = property_type p"
proof (cases d)
  case (PullDelegate h)
  moreover assume "fst (call_getProperty E p (d, w)) = Some v"
  ultimately have "fst (delegate_getProperty (pull_env E) (fade_percent E) h p w) = Some v" by (simp split: prod.splits)
  then show ?thesis by (rule delegate_getProperty_typed)
next
  case (PushDelegate pd)
  moreover assume "fst (call_getProperty E p (d, w)) = Some v"
  ultimately have "fst (push_getProperty (push_env E) p pd) = Some v" by (simp split: prod.splits)
  then show ?thesis by (rule push_getProperty_typed)
qed

definition typed_result :: "GType \<Rightarrow> GValue \<times> base_sink \<times> world \<Rightarrow> bool" where
  "typed_result t r \<longleftrightarrow> G_VALUE_TYPE (fst r) = t \<and> queue_typed (b_queuedProperties (fst (snd r)))"

definition typed_outcome :: "(base_sink \<times> world) outcome \<Rightarrow> bool" where
  "typed_outcome r = (case r of Returns (s, w) \<Rightarrow> queue_typed (b_queuedProperties s) | _ \<Rightarrow> True)"

lemma typed_simps [simp]:
  "typed_result t (v, s, w) \<longleftrightarrow> G_VALUE_TYPE v = t \<and> queue_typed (b_queuedProperties s)"
  "typed_outcome (Returns (s, w)) \<longleftrightarrow> queue_typed (b_queuedProperties s)"
  by (simp_all add: typed_result_def typed_outcome_def)

lemma read_typed:
  assumes "queue_typed (b_queuedProperties s)" "G_VALUE_TYPE value = t" "property_type p = t"
  shows "typed_result t (rialto_mse_base_sink_handle_get_property E p value s w)"
proof (cases "b_delegate s")
  case None
  with assms show ?thesis
    by (auto simp: rialto_mse_base_sink_handle_get_property_def typed_result_def queue_typed_def split: option.splits)
next
  case (Some d)
  with assms call_getProperty_typed [of E p d w] show ?thesis
    by (auto simp: rialto_mse_base_sink_handle_get_property_def typed_result_def split: option.splits prod.splits)
qed

lemma write_typed:
  assumes "queue_typed (b_queuedProperties s)" "property_type p = G_VALUE_TYPE value"
  shows "typed_outcome (rialto_mse_base_sink_handle_set_property E p value s w)"
proof (cases "b_delegate s")
  case None
  with assms show ?thesis
    by (simp add: rialto_mse_base_sink_handle_set_property_def typed_outcome_def queue_typed_def)
next
  case (Some d)
  with assms show ?thesis
    by (cases "call_setProperty E p value (d, w)")
      (auto simp: rialto_mse_base_sink_handle_set_property_def typed_outcome_def split: prod.splits)
qed

text \<open>The switches of a class fit its specifications: a readable property has a getter, which returns a
  value of its type, and a writable property has a setter, which takes such a value.\<close>

definition switches_fit ::
  "('p \<times> GParamSpec) list \<Rightarrow>
   (sink_env \<Rightarrow> 'p \<Rightarrow> GValue \<Rightarrow> base_sink \<Rightarrow> world \<Rightarrow> (GValue \<times> base_sink \<times> world) option) \<Rightarrow>
   (sink_env \<Rightarrow> 'p \<Rightarrow> GValue \<Rightarrow> base_sink \<Rightarrow> world \<Rightarrow> (base_sink \<times> world) outcome option) \<Rightarrow> base_sink \<Rightarrow> bool" where
  "switches_fit props getter setter s \<longleftrightarrow>
     (\<forall>(i, sp) \<in> set props. \<forall>E w value. G_VALUE_TYPE value = ps_type sp \<longrightarrow>
        (readable sp \<longrightarrow> (\<exists>r. getter E i value s w = Some r \<and> typed_result (ps_type sp) r)) \<and>
        (writable sp \<longrightarrow> (\<exists>r. setter E i value s w = Some r \<and> typed_outcome r)))"

text \<open>It is enough to know the types of the property ids and the ids that occur in the switches.\<close>

lemma switches_fitI:
  assumes "list_all (\<lambda>(i, sp). ps_type sp = type i \<and> (readable sp \<longrightarrow> gets i) \<and> (writable sp \<longrightarrow> sets i)) props"
    "\<And>E i value w. gets i \<Longrightarrow> G_VALUE_TYPE value = type i \<Longrightarrow> \<exists>r. getter E i value s w = Some r \<and> typed_result (type i) r"
    "\<And>E i value w. sets i \<Longrightarrow> G_VALUE_TYPE value = type i \<Longrightarrow> \<exists>r. setter E i value s w = Some r \<and> typed_outcome r"
  shows "switches_fit props getter setter s"
  using assms unfolding switches_fit_def list_all_iff by fastforce

fun base_type :: "base_prop \<Rightarrow> GType" where
  "base_type PROP_N_STREAMS = G_TYPE_INT"
| "base_type PROP_STATS = G_TYPE_POINTER"
| "base_type PROP_LAST_SAMPLE = GST_TYPE_SAMPLE"
| "base_type _ = G_TYPE_BOOLEAN"

lemma base_specs:
  "list_all (\<lambda>(i, sp). ps_type sp = base_type i \<and> (readable sp \<longrightarrow> True) \<and> (writable sp \<longrightarrow> i \<notin> {PROP_STATS, PROP_LAST_SAMPLE}))
     (ec_properties rialto_mse_base_sink_class_init)"
  by (simp add: rialto_mse_base_sink_class_init_def param_spec_defs)

lemma base_fits:
  assumes q: "queue_typed (b_queuedProperties s)"
  shows "switches_fit (ec_properties rialto_mse_base_sink_class_init) rialto_mse_base_sink_get_property
     rialto_mse_base_sink_set_property s"
  by (rule switches_fitI [OF base_specs]; case_tac i; simp add: read_typed [OF q] write_typed [OF q])

fun audio_type :: "audio_prop \<Rightarrow> GType" where
  "audio_type PROP_VOLUME = G_TYPE_DOUBLE"
| "audio_type PROP_GAP = GST_TYPE_STRUCTURE"
| "audio_type PROP_STREAM_SYNC_MODE = G_TYPE_INT"
| "audio_type PROP_AUDIO_FADE = G_TYPE_STRING"
| "audio_type PROP_FADE_VOLUME = G_TYPE_UINT"
| "audio_type PROP_LIMIT_BUFFERING_MS = G_TYPE_UINT"
| "audio_type _ = G_TYPE_BOOLEAN"

lemma audio_specs:
  "list_all (\<lambda>(i, sp). ps_type sp = audio_type i \<and>
       (readable sp \<longrightarrow> i \<notin> {PROP_GAP, PROP_LOW_LATENCY, PROP_SYNC_OFF, PROP_AUDIO_FADE}) \<and>
       (writable sp \<longrightarrow> i \<noteq> PROP_FADE_VOLUME))
     (ec_properties (rialto_mse_audio_sink_class_init caps))"
proof -
  have "list_all (\<lambda>(i, sp). ps_type sp = audio_type i \<and>
       (readable sp \<longrightarrow> i \<notin> {PROP_GAP, PROP_LOW_LATENCY, PROP_SYNC_OFF, PROP_AUDIO_FADE}) \<and>
       (writable sp \<longrightarrow> i \<noteq> PROP_FADE_VOLUME)) (List.map_filter audio_supported names)" for names
    by (induction names) (auto simp: List.map_filter_def audio_supported_def param_spec_defs)
  then show ?thesis
    by (auto simp: rialto_mse_audio_sink_class_init_def param_spec_defs Let_def split: option.splits)
qed

lemma audio_fits:
  assumes q: "queue_typed (b_queuedProperties s)"
  shows "switches_fit (ec_properties (rialto_mse_audio_sink_class_init caps)) rialto_mse_audio_sink_get_property
     rialto_mse_audio_sink_set_property s"
  by (rule switches_fitI [OF audio_specs]; case_tac i; simp add: read_typed [OF q] write_typed [OF q] q)

fun video_type :: "video_prop \<Rightarrow> GType" where
  "video_type PROP_WINDOW_SET = G_TYPE_STRING"
| "video_type PROP_MAX_VIDEO_WIDTH = G_TYPE_UINT"
| "video_type PROP_MAX_VIDEO_HEIGHT = G_TYPE_UINT"
| "video_type PROP_MAX_VIDEO_WIDTH_DEPRECATED = G_TYPE_UINT"
| "video_type PROP_MAX_VIDEO_HEIGHT_DEPRECATED = G_TYPE_UINT"
| "video_type PROP_VIDEO_PTS = G_TYPE_INT64"
| "video_type _ = G_TYPE_BOOLEAN"

lemma video_specs:
  "list_all (\<lambda>(i, sp). ps_type sp = video_type i \<and>
       (readable sp \<longrightarrow> i \<notin> {PROP_SYNCMODE_STREAMING, PROP_SHOW_VIDEO_WINDOW}) \<and>
       (writable sp \<longrightarrow> i \<notin> {PROP_IS_MASTER, PROP_VIDEO_PTS}))
     (ec_properties (rialto_mse_video_sink_class_init caps))"
proof -
  have "list_all (\<lambda>(i, sp). ps_type sp = video_type i \<and>
       (readable sp \<longrightarrow> i \<notin> {PROP_SYNCMODE_STREAMING, PROP_SHOW_VIDEO_WINDOW}) \<and>
       (writable sp \<longrightarrow> i \<notin> {PROP_IS_MASTER, PROP_VIDEO_PTS})) (List.map_filter video_supported names)" for names
    by (induction names) (auto simp: List.map_filter_def video_supported_def param_spec_defs)
  then show ?thesis
    by (auto simp: rialto_mse_video_sink_class_init_def param_spec_defs Let_def split: option.splits)
qed

lemma video_fits:
  assumes q: "queue_typed (b_queuedProperties s)"
  shows "switches_fit (ec_properties (rialto_mse_video_sink_class_init caps)) rialto_mse_video_sink_get_property
     rialto_mse_video_sink_set_property s"
  by (rule switches_fitI [OF video_specs]; case_tac i; simp add: read_typed [OF q] write_typed [OF q] q)

fun subtitle_type :: "subtitle_prop \<Rightarrow> GType" where
  "subtitle_type PROP_TEXT_TRACK_IDENTIFIER = G_TYPE_STRING"
| "subtitle_type PROP_WINDOW_ID = G_TYPE_UINT"
| "subtitle_type _ = G_TYPE_BOOLEAN"

lemma subtitle_specs:
  "list_all (\<lambda>(i, sp). ps_type sp = subtitle_type i \<and> (readable sp \<longrightarrow> True) \<and> (writable sp \<longrightarrow> True))
     (ec_properties (rialto_mse_subtitle_sink_class_init caps))"
  by (simp add: rialto_mse_subtitle_sink_class_init_def param_spec_defs)

lemma subtitle_fits:
  assumes q: "queue_typed (b_queuedProperties s)"
  shows "switches_fit (ec_properties (rialto_mse_subtitle_sink_class_init caps)) rialto_mse_subtitle_sink_get_property
     rialto_mse_subtitle_sink_set_property s"
  by (rule switches_fitI [OF subtitle_specs]; case_tac i; simp add: read_typed [OF q] write_typed [OF q])

text \<open>
  C40. Properties have the types of their specifications. For every sink class and whatever mime types and
  properties the server supports, each property that is installed as readable has a case in the getter,
  which returns a value of the type of its specification, from the defaults, the queue or the delegate;
  and each property that is installed as writable has a case in the setter, which leaves only values of
  the right types in the queue. The values given to the setters have the types of the specifications.
\<close>

theorem property_values_typed:
  assumes "queue_typed (b_queuedProperties s)"
  shows "switches_fit (ec_properties rialto_mse_base_sink_class_init)
      rialto_mse_base_sink_get_property rialto_mse_base_sink_set_property s \<and>
    switches_fit (ec_properties (rialto_mse_audio_sink_class_init caps))
      rialto_mse_audio_sink_get_property rialto_mse_audio_sink_set_property s \<and>
    switches_fit (ec_properties (rialto_mse_video_sink_class_init caps))
      rialto_mse_video_sink_get_property rialto_mse_video_sink_set_property s \<and>
    switches_fit (ec_properties (rialto_mse_subtitle_sink_class_init caps))
      rialto_mse_subtitle_sink_get_property rialto_mse_subtitle_sink_set_property s"
  using assms base_fits audio_fits video_fits subtitle_fits by blast

theorem property_values_typed_witness:
  "switches_fit (ec_properties (rialto_mse_audio_sink_class_init (Some ([''audio/mp4''], [''sync'', ''fade-volume'']))))
     rialto_mse_audio_sink_get_property rialto_mse_audio_sink_set_property
     ((rialto_mse_audio_sink_init True True (rialto_mse_base_sink_init (changing_sink GST_STATE_NULL GST_STATE_READY)))
        \<lparr>b_queuedProperties := [Volume \<mapsto> V_double 0]\<rparr>)"
proof -
  have "queue_typed (b_queuedProperties ((rialto_mse_audio_sink_init True True (rialto_mse_base_sink_init (changing_sink GST_STATE_NULL GST_STATE_READY)))
        \<lparr>b_queuedProperties := [Volume \<mapsto> V_double 0]\<rparr>))"
    by (simp add: queue_typed_def)
  from property_values_typed [OF this] show ?thesis by blast
qed

end
