(* ===== verification/Sink_Start.thy ===== *)
theory Sink_Start
  imports Base_Sink Sink_Properties
begin

text \<open>
  Properties of a sink around the change from NULL to READY, in which the delegate is made: when the
  queue of properties cannot be observed, that the values that were set are read back before and after,
  and what happens when the change fails.
\<close>

section \<open>The delegate behind a reference\<close>

text \<open>The kind of a delegate: the type of a pull mode delegate, or \<open>None\<close> in push mode.\<close>

fun unattached_ref :: "MediaSourceType option \<Rightarrow> delegate_ref \<times> world \<Rightarrow> bool" where
  "unattached_ref (Some type) (PullDelegate h, w) = detached_delegate type h w"
| "unattached_ref None (PushDelegate d, w) = (\<not> isOpen (pd_client d))"
| "unattached_ref _ _ = False"

definition kept_properties :: "MediaSourceType option \<Rightarrow> Property list" where
  "kept_properties k = (case k of None \<Rightarrow> [Volume] | Some type \<Rightarrow> stored_properties type)"

lemma unattached_cases:
  assumes "unattached_ref k x"
  obtains (pull) type h w where "k = Some type" "x = (PullDelegate h, w)" "detached_delegate type h w"
  | (push) d w where "k = None" "x = (PushDelegate d, w)" "\<not> isOpen (pd_client d)"
  using assms by (cases "(k, x)" rule: unattached_ref.cases) auto

interpretation ref: playback_delegate
  "call_setProperty E" "\<lambda>p x. fst (call_getProperty E p x)" "unattached_ref k" acceptable "read_back (kept_properties k)"
  for E k
proof
  fix p q v u x x'
  assume x: "unattached_ref k x" and v: "acceptable p v"
  show "\<exists>x'. call_setProperty E p v x = Returns x' \<and> unattached_ref k x'"
    using x
  proof (cases rule: unattached_cases)
    case (pull type h w)
    then show ?thesis using pull.set_returns [OF pull(3) v, of "pull_env E"] by auto
  qed (use push.set_returns [OF _ v, of _ "push_env E"] in auto)
  show "and_then (call_setProperty E p v x) (call_setProperty E p u) = call_setProperty E p u x" if "acceptable p u"
    using x
  proof (cases rule: unattached_cases)
    case (pull type h w)
    then show ?thesis
      using pull.set_twice [OF pull(3) v that, of "pull_env E"] pull.set_returns [OF pull(3) v, of "pull_env E"] by auto
  qed (use push.set_twice [OF _ v that, of _ "push_env E"] in auto)
  show "and_then (call_setProperty E p v x) (call_setProperty E q u) = and_then (call_setProperty E q u x) (call_setProperty E p v)"
    if "acceptable q u" "p \<noteq> q"
    using x
  proof (cases rule: unattached_cases)
    case (pull type h w)
    then show ?thesis
      using pull.set_commute [OF pull(3) v that, of "pull_env E"] pull.set_returns [OF pull(3) v, of "pull_env E"]
        pull.set_returns [OF pull(3) that(1), of "pull_env E"] by auto
  qed (use push.set_commute [OF _ v that, of _ "push_env E"] in auto)
  show "fst (call_getProperty E p x') = Some v"
    if r: "read_back (kept_properties k) p v" "call_setProperty E p v x = Returns x'"
    using x
  proof (cases rule: unattached_cases)
    case (pull type h w)
    then obtain w1 where "delegate_setProperty (pull_env E) h p v w = Returns w1" "x' = (PullDelegate h, w1)"
      using r(2) pull.set_returns [OF pull(3) v, of "pull_env E"] by auto
    then show ?thesis
      using pull pull.set_get [OF pull(3) v, where d' = w1 and g = "pull_env E" and percent = "fade_percent E"] r(1)
      by (auto simp: kept_properties_def split: prod.splits)
  next
    case (push d w)
    then show ?thesis
      using r push.set_get [OF push(3) v, where e = "push_env E"] by (auto simp: kept_properties_def split: prod.splits)
  qed
qed

section \<open>Setting properties on a sink\<close>

lemma queue_of_map_of: "queue_of xs = map_of (rev xs)"
  by (induction xs rule: rev_induct) (auto simp: queue_of_snoc fun_eq_iff queue_of_def)

text \<open>
  Values that a setter does not take: it ignores them, or, for some properties, it stops the process.
  The queue does not know which values these are, and an ignored value replaces an earlier one in it.
  Where this does not happen to a value that the setter takes, the queue is invisible also for such
  sequences.
\<close>

locale ignoring_delegate = playback_delegate +
  fixes stops :: "Property \<Rightarrow> GValue \<Rightarrow> bool"
  assumes set_ignored: "unattached d \<Longrightarrow> \<not> accepts p v \<Longrightarrow> \<not> stops p v \<Longrightarrow> set_prop p v d = Returns d"
begin

definition taken :: "(Property \<times> GValue) list \<Rightarrow> (Property \<times> GValue) list" where
  "taken xs = filter (\<lambda>(p, v). accepts p v) xs"

lemma accepted_part_simps [simp]:
  "taken [] = []" "taken ((p, v) # xs) = (if accepts p v then (p, v) # taken xs else taken xs)"
  "all_accepted (taken xs)"
  by (auto simp: taken_def all_accepted_def)

lemma set_all_taken:
  "unattached d \<Longrightarrow> list_all (\<lambda>(p, v). \<not> stops p v) xs \<Longrightarrow> set_all set_prop xs d = set_all set_prop (taken xs) d"
proof (induction xs arbitrary: d)
  case (Cons x xs)
  obtain p v where x: "x = (p, v)" by (cases x)
  show ?case
  proof (cases "accepts p v")
    case True
    then obtain d1 where "set_prop p v d = Returns d1" "unattached d1" using set_returns [OF Cons.prems(1)] by blast
    with Cons True x show ?thesis by simp
  next
    case False
    with Cons x set_ignored [OF Cons.prems(1) False] show ?thesis by simp
  qed
qed simp

lemma queue_of_taken:
  assumes "list_all (\<lambda>(p, v). accepts p v \<longrightarrow> accepts p (the (queue_of xs p))) xs"
  shows "queue_of (taken xs) p = (case queue_of xs p of None \<Rightarrow> None | Some v \<Rightarrow> if accepts p v then Some v else None)"
proof -
  have first: "map_of ys p = Some v \<Longrightarrow> accepts p v \<Longrightarrow> map_of (taken ys) p = Some v" for ys v
    by (induction ys) (auto split: if_splits)
  have none: "(\<And>v. (p, v) \<in> set ys \<Longrightarrow> \<not> accepts p v) \<Longrightarrow> map_of (taken ys) p = None" for ys
    by (force simp: map_of_eq_None_iff taken_def)
  have r: "rev (taken xs) = taken (rev xs)" by (simp add: taken_def rev_filter)
  show ?thesis
  proof (cases "queue_of xs p")
    case None
    then have "p \<notin> fst ` set xs" by (simp add: queue_of_map_of map_of_eq_None_iff)
    then have "map_of (taken (rev xs)) p = None" by (intro none) force
    with None show ?thesis by (simp add: queue_of_map_of [of "taken xs"] r)
  next
    case (Some v)
    show ?thesis
    proof (cases "accepts p v")
      case True
      with Some first [of "rev xs" v] show ?thesis by (simp add: queue_of_map_of r)
    next
      case False
      then have "\<not> accepts p u" if "(p, u) \<in> set xs" for u
        using assms that Some by (auto simp: list_all_iff)
      then have "map_of (taken (rev xs)) p = None" by (intro none) simp
      with Some False show ?thesis by (simp add: queue_of_map_of [of "taken xs"] r)
    qed
  qed
qed

lemma taken_entries:
  assumes "list_all (\<lambda>(p, v). accepts p v \<longrightarrow> accepts p (the (queue_of xs p))) xs"
  shows "taken (queue_entries (queue_of xs)) = queue_entries (queue_of (taken xs))"
proof -
  let ?e = "\<lambda>q p. if q p \<noteq> None then [(p, the (q p))] else []"
  have "taken (ys @ zs) = taken ys @ taken zs" for ys zs by (simp add: taken_def)
  moreover have "taken (?e (queue_of xs) p) = ?e (queue_of (taken xs)) p" for p
    using queue_of_taken [OF assms, of p] by (auto split: option.splits)
  ultimately have "taken (concat (map (?e (queue_of xs)) ps)) = concat (map (?e (queue_of (taken xs))) ps)" for ps
    by (induction ps) (simp_all del: not_None_eq)
  then show ?thesis by (simp add: queue_entries_def)
qed

lemma queue_invisible_ignoring:
  assumes d: "unattached d" and stop: "list_all (\<lambda>(p, v). \<not> stops p v) xs"
    and safe: "list_all (\<lambda>(p, v). accepts p v \<longrightarrow> accepts p (the (queue_of xs p))) xs"
  shows "set_all set_prop (queue_entries (queue_of xs)) d = set_all set_prop xs d"
proof -
  have "list_all (\<lambda>(p, v). \<not> stops p v) (queue_entries (queue_of xs))"
    using stop by (auto simp: list_all_iff queue_entries_mem dest!: queue_of_mem)
  with stop set_all_taken [OF d] taken_entries [OF safe] queue_invisible [OF d, of "taken xs"] show ?thesis by simp
qed

end

text \<open>
  The values that stop the process when a delegate without a client gets them: a gap, for which the audio
  delegate calls its client, and a null string as fade, which it gives to \<open>sscanf\<close>.
\<close>

definition stops_process :: "MediaSourceType option \<Rightarrow> Property \<Rightarrow> GValue \<Rightarrow> bool" where
  "stops_process k p v \<longleftrightarrow> k = Some MST_AUDIO \<and> (p = Gap \<or> p = AudioFade \<and> g_value_get_string v = None)"

lemma delegate_setProperty_ignored:
  assumes "detached_delegate type h w" "\<not> acceptable p v" "\<not> stops_process (Some type) p v"
  shows "delegate_setProperty g h p v w = Returns w"
proof -
  note d = assms(1) [unfolded detached_delegate_def]
  have id: "upd_d h (stored_base p v) w = w" if "p \<in> {Gap, AudioFade, WindowSet, TextTrackIdentifier}"
    using that by (auto simp: upd_d_def stored_base_def)
  have "audio_setProperty g h p v w = Returns w" if "type = MST_AUDIO"
    using d assms(2,3) id that
    by (cases p) (auto simp: audio_setProperty_def acceptable_def stops_process_def base_setProperty_detached split: option.splits)
  moreover have "video_setProperty g h p v w = w"
    using d assms(2) id by (cases p) (auto simp: video_setProperty_def acceptable_def base_setProperty_detached split: option.splits)
  moreover have "subtitle_setProperty h p v w = w"
    using d assms(2) id by (cases p) (auto simp: subtitle_setProperty_def acceptable_def base_setProperty_detached split: option.splits)
  ultimately show ?thesis
    using d by (auto simp: delegate_setProperty_def split: MediaSourceType.splits)
qed

interpretation ign: ignoring_delegate
  "call_setProperty E" "\<lambda>p x. fst (call_getProperty E p x)" "unattached_ref k" acceptable "read_back (kept_properties k)"
  "stops_process k"
  for E k
proof
  fix p v x
  assume x: "unattached_ref k x" and v: "\<not> acceptable p v" "\<not> stops_process k p v"
  show "call_setProperty E p v x = Returns x"
    using x
  proof (cases rule: unattached_cases)
    case (pull type h w)
    then show ?thesis using delegate_setProperty_ignored [OF pull(3) v(1), of "pull_env E"] v(2) by simp
  next
    case (push d w)
    have "p \<noteq> Volume" using v(1) by (auto simp: acceptable_def)
    with push show ?thesis by (simp add: push_setProperty_def)
  qed
qed

definition sink_set :: "sink_env \<Rightarrow> Property \<Rightarrow> GValue \<Rightarrow> base_sink \<times> world \<Rightarrow> (base_sink \<times> world) outcome" where
  "sink_set E p v = (\<lambda>(s, w). rialto_mse_base_sink_handle_set_property E p v s w)"

lemma sink_set_apply: "sink_set E p v (s, w) = rialto_mse_base_sink_handle_set_property E p v s w"
  by (simp add: sink_set_def)

lemma sink_set_queued:
  "b_delegate s = None \<Longrightarrow> b_queuedProperties s = queue_of ys \<Longrightarrow>
   set_all (sink_set E) xs (s, w) = Returns (s\<lparr>b_queuedProperties := queue_of (ys @ xs)\<rparr>, w)"
proof (induction xs arbitrary: s ys)
  case (Cons x xs)
  obtain p v where x: "x = (p, v)" by (cases x)
  let ?s = "s\<lparr>b_queuedProperties := (b_queuedProperties s)(p \<mapsto> v)\<rparr>"
  have "set_all (sink_set E) xs (?s, w) = Returns (?s\<lparr>b_queuedProperties := queue_of ((ys @ [(p, v)]) @ xs)\<rparr>, w)"
    using Cons.prems by (intro Cons.IH) (simp_all add: queue_of_snoc)
  then show ?case
    using Cons.prems by (simp add: x sink_set_apply rialto_mse_base_sink_handle_set_property_def)
qed simp

lemma sink_set_delegate:
  "b_delegate s = Some d \<Longrightarrow>
   set_all (sink_set E) xs (s, w) =
     and_then (set_all (call_setProperty E) xs (d, w)) (\<lambda>(d1, w1). Returns (s\<lparr>b_delegate := Some d1\<rparr>, w1))"
proof (induction xs arbitrary: s d w)
  case (Cons x xs)
  obtain p v where x: "x = (p, v)" by (cases x)
  show ?case
    using Cons.prems
    by (cases "call_setProperty E p v (d, w)")
      (auto simp: x sink_set_apply rialto_mse_base_sink_handle_set_property_def Cons.IH split: prod.splits)
qed simp

section \<open>The change to READY\<close>

text \<open>The status of NULL to READY; nothing else changes.\<close>

definition ready_status :: "sink_env \<Rightarrow> bool \<Rightarrow> GstStateChangeReturn" where
  "ready_status E ok =
     (if \<not> ok then GST_STATE_CHANGE_FAILURE
      else let result = parent_change_state E GST_STATE_CHANGE_NULL_TO_READY
           in if result = GST_STATE_CHANGE_FAILURE \<or> result = GST_STATE_CHANGE_ASYNC then result else GST_STATE_CHANGE_SUCCESS)"

fun can_start :: "sink_env \<Rightarrow> delegate_ref \<times> world \<Rightarrow> bool" where
  "can_start E (PullDelegate h, w) = (m_sinkPad (w_delegates w h) \<and> control_running (pull_env E))"
| "can_start E (PushDelegate d, w) = control_running (pull_env E)"

lemma base_ready:
  assumes "b_delegate s = Some d"
  shows "rialto_mse_base_sink_change_state E GST_STATE_CHANGE_NULL_TO_READY s w = (ready_status E (can_start E (d, w)), s, w)"
proof -
  have "s\<lparr>b_delegate := Some d\<rparr> = s" using assms by (cases s) simp
  then show ?thesis
    using assms
    by (cases d) (auto simp: rialto_mse_base_sink_change_state_def ready_status_def delegate_changeState_base Let_def)
qed

lemma stored_pad [simp]: "m_sinkPad (stored type p v d) = m_sinkPad d"
  by (cases type; cases p;
      simp add: stored_def stored_audio_def stored_video_def stored_subtitle_def stored_base_def upd_a_def upd_v_def upd_s_def)

lemma can_start_set:
  "unattached_ref k x \<Longrightarrow> acceptable p v \<Longrightarrow> call_setProperty E p v x = Returns x' \<Longrightarrow> can_start E' x' = can_start E' x"
  by (elim unattached_cases) (auto simp: delegate_setProperty_detached upd_d_def)

lemma can_start_set_all:
  "unattached_ref k x \<Longrightarrow> ref.all_accepted xs \<Longrightarrow> set_all (call_setProperty E) xs x = Returns x' \<Longrightarrow>
   can_start E' x' = can_start E' x"
proof (induction xs arbitrary: x)
  case (Cons y ys)
  obtain p v where y: "y = (p, v)" by (cases y)
  obtain x1 where "call_setProperty E p v x = Returns x1" "unattached_ref k x1"
    using ref.set_returns [OF Cons.prems(1), of p v E] Cons.prems(2) by (auto simp: y)
  with Cons show ?case using can_start_set [OF Cons.prems(1), of p v E x1 E'] by (auto simp: y)
qed simp

text \<open>The delegate that a sink of a class makes, and its kind.\<close>

definition made_kind :: "sink_class \<Rightarrow> base_sink \<Rightarrow> MediaSourceType option" where
  "made_kind c s =
     (case c of AUDIO_SINK \<Rightarrow> if b_playbackMode s = Pull then Some MST_AUDIO else None
      | VIDEO_SINK \<Rightarrow> Some MST_VIDEO | SUBTITLE_SINK \<Rightarrow> Some MST_SUBTITLE)"

definition made_delegate :: "sink_env \<Rightarrow> sink_class \<Rightarrow> nat \<Rightarrow> base_sink \<Rightarrow> world \<Rightarrow> delegate_ref \<times> world" where
  "made_delegate E c h s w =
     (case made_kind c s of
        Some type \<Rightarrow>
          (PullDelegate h,
           new_delegate h (PullModePlaybackDelegate (initial_segment E) type (sink_element s w) (b_sinkPad s)) w)
      | None \<Rightarrow> (PushDelegate (PushModeAudioPlaybackDelegate (sink_element s w)), w))"

lemma made_unattached: "unattached_ref (made_kind c s) (made_delegate E c h s w)"
  by (auto simp: made_delegate_def made_kind_def detached_delegate_def new_delegate_def PullModePlaybackDelegate_def
      PushModeAudioPlaybackDelegate_def GStreamerWebAudioPlayerClient_def isOpen_def split: sink_class.splits)

lemma made_queue [simp]:
  "made_kind c (s\<lparr>b_queuedProperties := q\<rparr>) = made_kind c s"
  "made_delegate E c h (s\<lparr>b_queuedProperties := q\<rparr>) w = made_delegate E c h s w"
proof -
  show kind: "made_kind c (s\<lparr>b_queuedProperties := q\<rparr>) = made_kind c s" by (simp add: made_kind_def)
  show "made_delegate E c h (s\<lparr>b_queuedProperties := q\<rparr>) w = made_delegate E c h s w"
    unfolding made_delegate_def kind by (simp add: sink_element_def split: option.split)
qed

text \<open>NULL to READY of a sink without a delegate: the queue is handed to the new delegate.\<close>

lemma sink_ready:
  assumes "b_delegate s = None"
  shows "sink_change_state c E h GST_STATE_CHANGE_NULL_TO_READY s w =
    and_then (set_all (call_setProperty E) (queue_entries (b_queuedProperties s)) (made_delegate E c h s w))
      (\<lambda>(d, w1). Returns (ready_status E (can_start E (d, w1)),
          s\<lparr>b_delegate := Some d, b_queuedProperties := Map.empty\<rparr>, w1))"
  using assms
  by (cases c) (auto simp: rialto_mse_audio_sink_change_state_def rialto_mse_video_sink_change_state_def
      rialto_mse_subtitle_sink_change_state_def new_pull_delegate_def rialto_mse_base_sink_initialise_delegate_def
      made_delegate_def made_kind_def and_then_assoc base_ready Let_def intro!: and_then_cong split: prod.splits)

lemma sink_get_delegate:
  "b_delegate s = Some d \<Longrightarrow>
   fst (rialto_mse_base_sink_handle_get_property E p value s w) =
     (case fst (call_getProperty E p (d, w)) of None \<Rightarrow> value | Some v \<Rightarrow> v)"
  by (simp add: rialto_mse_base_sink_handle_get_property_def split: prod.splits)

section \<open>A sink in the state NULL\<close>

definition demo_sink_env :: sink_env where
  "demo_sink_env = \<lparr>pull_env = demo_gst, push_env = demo_server 1, fade_percent = (\<lambda>_. 0), initial_segment = start_segment,
     parent_change_state = (\<lambda>_. GST_STATE_CHANGE_SUCCESS), parent_query = (\<lambda>_. (True, NOT_SET)), isVideoMaster = Some True\<rparr>"

definition demo_sink :: base_sink where
  "demo_sink = rialto_mse_audio_sink_init True True (rialto_mse_base_sink_init (changing_sink GST_STATE_NULL GST_STATE_READY))"

definition demo_settings :: "(Property \<times> GValue) list" where
  "demo_settings = [(Volume, V_double (1 / 2)), (HasDrm, V_boolean False), (Mute, V_boolean True), (Volume, V_double (1 / 4))]"

lemma demo_sink_simps [simp]:
  "b_delegate demo_sink = None" "b_queuedProperties demo_sink = Map.empty" "b_playbackMode demo_sink = Pull"
  "list_all (\<lambda>(p, v). acceptable p v) demo_settings" "map_of (rev demo_settings) Volume = Some (V_double (1 / 4))"
  by (simp_all add: demo_sink_def sink_init_defs demo_settings_def acceptable_def)

text \<open>Settings with fades: nothing of the first can be parsed, the second is one to 5 percent.\<close>

definition no_fade :: GValue where
  "no_fade = V_string (Some ''none'')"

definition low_fade :: GValue where
  "low_fade = V_string (Some ''5'')"

lemma fades_parsed [simp]: "\<not> acceptable AudioFade no_fade" "acceptable AudioFade low_fade"
  "g_value_get_string no_fade = Some ''none''" "g_value_get_string low_fade = Some ''5''"
proof -
  have "fst (sscanf_fade ''none'' 100 kDefaultVolumeDuration (CHR ''L'')) = 0"
    "fst (sscanf_fade ''5'' 100 kDefaultVolumeDuration (CHR ''L'')) = 1"
    by (simp_all add: sscanf_fade_def scan_uint_def scan_comma_uint_def scan_char_def is_space_def is_digit_def char_code_def)
  then show "\<not> acceptable AudioFade no_fade" "acceptable AudioFade low_fade"
    by (auto simp: acceptable_def no_fade_def low_fade_def parse_fade_def Let_def split: prod.splits)
qed (simp_all add: no_fade_def low_fade_def)

section \<open>What can be observed of the queue\<close>

text \<open>
  C39. Where the queue of properties cannot be observed. Setting properties on a sink that has no delegate
  (a sink in the state NULL, unless an earlier change to READY failed) and then changing it to READY gives
  the same result, the same delegate and the same world as changing it to READY first and setting the
  properties on the delegate in the same order, although the queue keeps only the last value of a property
  and hands the values over in the order of the enumeration. This holds for all sinks and both playback
  modes, and also when the change to READY fails. Two kinds of sequences are left out. One has a value that
  stops the process when it reaches the audio delegate before there is a client: a gap or a null string as
  fade. In the other the last value of a property is one that its setter ignores, a fade that cannot be
  parsed or a null string, while an earlier value of that property is not: the queue forgets the earlier
  value, as the lemma below shows. Ignored values that replace no other are allowed.
\<close>

theorem queued_properties_invisible:
  assumes "b_delegate s = None" "b_queuedProperties s = Map.empty"
    "list_all (\<lambda>(p, v). \<not> stops_process (made_kind c s) p v) xs"
    "list_all (\<lambda>(p, v). acceptable p v \<longrightarrow> acceptable p (the (map_of (rev xs) p))) xs"
  shows "and_then (set_all (sink_set E) xs (s, w)) (\<lambda>(s1, w1). sink_change_state c E h GST_STATE_CHANGE_NULL_TO_READY s1 w1) =
    and_then (sink_change_state c E h GST_STATE_CHANGE_NULL_TO_READY s w)
      (\<lambda>(r, s1, w1). and_then (set_all (sink_set E) xs (s1, w1)) (\<lambda>(s2, w2). Returns (r, s2, w2)))"
proof -
  let ?k = "made_kind c s" and ?m = "made_delegate E c h s w"
  have safe: "list_all (\<lambda>(p, v). acceptable p v \<longrightarrow> acceptable p (the (queue_of xs p))) xs"
    using assms(4) by (simp add: queue_of_map_of)
  have empty: "b_queuedProperties s = queue_of []" using assms(2) by (simp add: queue_of_def)
  have m: "unattached_ref ?k ?m" by (rule made_unattached)
  have all: "set_all (call_setProperty E) xs ?m = set_all (call_setProperty E) (ign.taken xs) ?m"
    by (rule ign.set_all_taken [OF m assms(3)])
  obtain d1 w1 where d1: "set_all (call_setProperty E) xs ?m = Returns (d1, w1)"
    using ref.set_all_returns [OF m, of "ign.taken xs" E] all by fastforce
  obtain d w0 where d: "?m = (d, w0)" by (cases ?m)
  have start: "can_start E (d1, w1) = can_start E ?m"
    using can_start_set_all [OF m, of "ign.taken xs" E] d1 all by simp
  have "and_then (set_all (sink_set E) xs (s, w)) (\<lambda>(s1, w1). sink_change_state c E h GST_STATE_CHANGE_NULL_TO_READY s1 w1) =
      Returns (ready_status E (can_start E ?m), s\<lparr>b_delegate := Some d1, b_queuedProperties := Map.empty\<rparr>, w1)"
    using assms(1) ign.queue_invisible_ignoring [OF m assms(3) safe, of E] d1 start
    by (simp add: sink_set_queued [OF assms(1) empty] sink_ready)
  moreover have "sink_change_state c E h GST_STATE_CHANGE_NULL_TO_READY s w =
      Returns (ready_status E (can_start E ?m), s\<lparr>b_delegate := Some d, b_queuedProperties := Map.empty\<rparr>, w0)"
    using assms(1) empty d by (simp add: sink_ready)
  ultimately show ?thesis using d1 d by (simp add: sink_set_delegate)
qed

theorem queued_properties_invisible_witness:
  "and_then (set_all (sink_set demo_sink_env) ((AudioFade, no_fade) # (AudioFade, low_fade) # demo_settings) (demo_sink, empty_world))
      (\<lambda>(s1, w1). sink_change_state AUDIO_SINK demo_sink_env 3 GST_STATE_CHANGE_NULL_TO_READY s1 w1) =
    and_then (sink_change_state AUDIO_SINK demo_sink_env 3 GST_STATE_CHANGE_NULL_TO_READY demo_sink empty_world)
      (\<lambda>(r, s1, w1). and_then (set_all (sink_set demo_sink_env) ((AudioFade, no_fade) # (AudioFade, low_fade) # demo_settings) (s1, w1))
        (\<lambda>(s2, w2). Returns (r, s2, w2)))"
  by (rule queued_properties_invisible)
    (simp_all add: demo_settings_def stops_process_def acceptable_def [of Volume] acceptable_def [of Mute]
      acceptable_def [of HasDrm])

text \<open>
  A value that is ignored makes the queue forget the value before it: the sink becomes as if neither had
  been set, whereas a delegate that is there keeps the first.
\<close>

lemma queue_forgets_value:
  assumes "b_delegate s = None" "b_queuedProperties s = Map.empty" "acceptable p v"
    "\<not> acceptable p u" "\<not> stops_process (made_kind c s) p u"
  shows "and_then (set_all (sink_set E) [(p, v), (p, u)] (s, w))
      (\<lambda>(s1, w1). sink_change_state c E h GST_STATE_CHANGE_NULL_TO_READY s1 w1) =
      sink_change_state c E h GST_STATE_CHANGE_NULL_TO_READY s w"
    and "and_then (sink_change_state c E h GST_STATE_CHANGE_NULL_TO_READY s w)
      (\<lambda>(r, s1, w1). set_all (sink_set E) [(p, v), (p, u)] (s1, w1)) =
      and_then (sink_change_state c E h GST_STATE_CHANGE_NULL_TO_READY s w) (\<lambda>(r, s1, w1). sink_set E p v (s1, w1))"
proof -
  let ?m = "made_delegate E c h s w"
  have empty: "b_queuedProperties s = queue_of []" using assms(2) by (simp add: queue_of_def)
  have m: "unattached_ref (made_kind c s) ?m" by (rule made_unattached)
  have ignored: "unattached_ref (made_kind c s) x \<Longrightarrow> call_setProperty E p u x = Returns x" for x
    by (rule ign.set_ignored [OF _ assms(4,5)])
  have "queue_of [(p, v), (p, u)] = queue_of [(p, u)]" by (simp add: queue_of_def)
  then have entries: "queue_entries (queue_of [(p, v), (p, u)]) = queue_entries (queue_of [(p, u)])" by simp
  have "set_all (call_setProperty E) (queue_entries (queue_of [(p, u)])) ?m = set_all (call_setProperty E) [(p, u)] ?m"
    by (rule ign.queue_invisible_ignoring [OF m]) (simp_all add: assms(4,5))
  then show "and_then (set_all (sink_set E) [(p, v), (p, u)] (s, w))
      (\<lambda>(s1, w1). sink_change_state c E h GST_STATE_CHANGE_NULL_TO_READY s1 w1) =
      sink_change_state c E h GST_STATE_CHANGE_NULL_TO_READY s w"
    using assms(1) ignored [OF m] empty entries
    by (simp add: sink_set_queued [OF assms(1) empty] sink_ready del: set_all.simps)
  obtain d w0 where d: "?m = (d, w0)" by (cases ?m)
  obtain d1 w1 where d1: "call_setProperty E p v (d, w0) = Returns (d1, w1)" "unattached_ref (made_kind c s) (d1, w1)"
    using ref.set_returns [OF m assms(3), of E] d by fastforce
  show "and_then (sink_change_state c E h GST_STATE_CHANGE_NULL_TO_READY s w)
      (\<lambda>(r, s1, w1). set_all (sink_set E) [(p, v), (p, u)] (s1, w1)) =
      and_then (sink_change_state c E h GST_STATE_CHANGE_NULL_TO_READY s w) (\<lambda>(r, s1, w1). sink_set E p v (s1, w1))"
    using assms(1) empty d d1 ignored [OF d1(2)]
    by (simp add: sink_ready sink_set_apply rialto_mse_base_sink_handle_set_property_def)
qed

text \<open>
  A property is read back. The last value that is set on a sink in the state NULL is what a read
  returns at once, from the queue, and after the change to READY, from the delegate; for the properties
  that the class of the sink keeps.
\<close>

theorem property_read_back:
  assumes "b_delegate s = None" "b_queuedProperties s = Map.empty" "list_all (\<lambda>(p, v). acceptable p v) xs"
    "map_of (rev xs) p = Some v" "read_back (kept_properties (made_kind c s)) p v"
  shows "\<exists>s1 r s2 w2. set_all (sink_set E) xs (s, w) = Returns (s1, w) \<and>
    fst (rialto_mse_base_sink_handle_get_property E p value s1 w) = v \<and>
    sink_change_state c E h GST_STATE_CHANGE_NULL_TO_READY s1 w = Returns (r, s2, w2) \<and>
    fst (rialto_mse_base_sink_handle_get_property E p value s2 w2) = v"
proof -
  let ?m = "made_delegate E c h s w" and ?s1 = "s\<lparr>b_queuedProperties := queue_of xs\<rparr>"
  have acc: "ref.all_accepted xs" using assms(3) by (simp add: ref.all_accepted_def list_all_iff)
  have empty: "b_queuedProperties s = queue_of []" using assms(2) by (simp add: queue_of_def)
  have m: "unattached_ref (made_kind c s) ?m" by (rule made_unattached)
  have last: "queue_of xs p = Some v" using assms(4) queue_of_map_of [of xs] by simp
  obtain d1 w1 where d1: "set_all (call_setProperty E) xs ?m = Returns (d1, w1)"
    using ref.set_all_returns [OF m acc] by fastforce
  let ?s2 = "s\<lparr>b_delegate := Some d1, b_queuedProperties := Map.empty\<rparr>"
  have "set_all (sink_set E) xs (s, w) = Returns (?s1, w)" by (simp add: sink_set_queued [OF assms(1) empty])
  moreover have "fst (rialto_mse_base_sink_handle_get_property E p value ?s1 w) = v"
    using assms(1) last by (simp add: rialto_mse_base_sink_handle_get_property_def)
  moreover have "sink_change_state c E h GST_STATE_CHANGE_NULL_TO_READY ?s1 w =
      Returns (ready_status E (can_start E (d1, w1)), ?s2, w1)"
    using assms(1) ref.queue_invisible [OF m acc, of E] d1 by (simp add: sink_ready)
  moreover have "fst (rialto_mse_base_sink_handle_get_property E p value ?s2 w1) = v"
    using ref.set_all_get [OF m acc last assms(5) d1] by (simp add: sink_get_delegate)
  ultimately show ?thesis by blast
qed

theorem property_read_back_witness:
  "\<exists>s1 r s2 w2. set_all (sink_set demo_sink_env) demo_settings (demo_sink, empty_world) = Returns (s1, empty_world) \<and>
    fst (rialto_mse_base_sink_handle_get_property demo_sink_env Volume (V_double 1) s1 empty_world) = V_double (1 / 4) \<and>
    sink_change_state AUDIO_SINK demo_sink_env 3 GST_STATE_CHANGE_NULL_TO_READY s1 empty_world = Returns (r, s2, w2) \<and>
    fst (rialto_mse_base_sink_handle_get_property demo_sink_env Volume (V_double 1) s2 w2) = V_double (1 / 4)"
  by (rule property_read_back)
    (simp_all add: read_back_def kept_properties_def stored_properties_def made_kind_def)

section \<open>A change to READY that fails\<close>

text \<open>The sink keeps the delegate of a failed change; the next one takes its place.\<close>

lemma sink_ready_again:
  assumes "b_delegate s = Some old" "b_queuedProperties s = Map.empty" "made_delegate E c h s w = (d, w0)"
  shows "sink_change_state c E h GST_STATE_CHANGE_NULL_TO_READY s w =
    Returns (ready_status E (can_start E (d, release_ref E (old, w0))), s\<lparr>b_delegate := Some d\<rparr>, release_ref E (old, w0))"
proof -
  have "queue_entries (b_queuedProperties s) = []" using assms(2) by (simp add: queue_entries_def all_properties_def)
  moreover have "s\<lparr>b_delegate := Some d, b_queuedProperties := Map.empty\<rparr> = s\<lparr>b_delegate := Some d\<rparr>"
    using assms(2) by (cases s) simp
  ultimately show ?thesis
    using assms
    by (cases c; cases old)
      (auto simp: rialto_mse_audio_sink_change_state_def rialto_mse_video_sink_change_state_def
        rialto_mse_subtitle_sink_change_state_def new_pull_delegate_def rialto_mse_base_sink_initialise_delegate_def
        made_delegate_def made_kind_def base_ready Let_def split: if_splits)
qed

lemma delete_detached:
  assumes "m_mediaPlayerManager (w_delegates w h) = detached" "h' \<noteq> h"
  shows "w_delegates (delete_delegate e h w) h' = w_delegates w h'"
  using assms
  by (simp add: delete_delegate_def releaseMediaPlayerClient_def getMediaPlayerClient_def the_manager_def Let_def
      clearBuffersUnlocked_def setLastBuffer_def)

lemma release_keeps:
  assumes "unattached_ref k (old, w)" "\<And>j. old = PullDelegate j \<Longrightarrow> h' \<noteq> j"
  shows "w_delegates (release_ref E (old, w)) h' = w_delegates w h'"
  using assms by (elim unattached_cases) (auto simp: detached_delegate_def delete_detached)

lemma set_all_same_ref:
  "set_all (call_setProperty E) xs (PullDelegate h, w) = Returns (d, w') \<Longrightarrow> d = PullDelegate h"
proof (induction xs arbitrary: w)
  case (Cons x xs)
  obtain p v where "x = (p, v)" by (cases x)
  with Cons show ?case by (cases "delegate_setProperty (pull_env E) h p v w") auto
qed simp

text \<open>The delegate of a second attempt is a new one, whatever the first attempt left.\<close>

lemma second_delegate:
  assumes "unattached_ref k (d1, w1)" "\<And>j. d1 = PullDelegate j \<Longrightarrow> h' \<noteq> j" "made_delegate E AUDIO_SINK h' s w1 = (d2, w2)"
  shows "fst (call_getProperty E Volume (d2, release_ref E (d1, w2))) = Some (V_double kDefaultVolume)"
proof (cases "b_playbackMode s = Pull")
  case True
  then obtain d where d: "d2 = PullDelegate h'" "w2 = new_delegate h' d w1"
    "m_mediaPlayerManager d = detached" "m_mediaSourceType d = MST_AUDIO" "a_targetVolume (audio d) = kDefaultVolume"
    using assms(3) by (auto simp: made_delegate_def made_kind_def PullModePlaybackDelegate_def new_audio_members_def)
  have "unattached_ref k (d1, w2)"
    using assms(1,2) by (elim unattached_cases) (auto simp: d(2) detached_delegate_def new_delegate_def)
  then have "w_delegates (release_ref E (d1, w2)) h' = d" using release_keeps [OF _ assms(2)] by (simp add: d(2) new_delegate_def)
  with d show ?thesis
    by (simp add: delegate_getProperty_def audio_getProperty_def Let_def split: prod.splits)
next
  case False
  with assms(3) show ?thesis
    by (auto simp: made_delegate_def made_kind_def PushModeAudioPlaybackDelegate_def push_getProperty_def
        GStreamerWebAudioPlayerClient_def isOpen_def)
qed

text \<open>
  C25. Settings do not survive a failed start. When Rialto is not running, the change of an audio sink to
  READY fails, but the queue has already gone to the delegate of that attempt. The next attempt, whatever
  its environment, makes another delegate and does not hand over anything: whatever volume was set, the
  sink reads the default volume. The values set before are any that the setters accept without a client
  (\<open>acceptable\<close>: no gap, no null string, no fade that cannot be parsed).
\<close>

theorem failed_start_loses_settings:
  assumes "b_delegate s = None" "b_queuedProperties s = Map.empty" "list_all (\<lambda>(p, v). acceptable p v) xs"
    "\<not> control_running (pull_env E)" "h' \<noteq> h"
  shows "\<exists>s1 s2 w2 r s3 w3. set_all (sink_set E) xs (s, w) = Returns (s1, w) \<and>
    sink_change_state AUDIO_SINK E h GST_STATE_CHANGE_NULL_TO_READY s1 w = Returns (GST_STATE_CHANGE_FAILURE, s2, w2) \<and>
    sink_change_state AUDIO_SINK E' h' GST_STATE_CHANGE_NULL_TO_READY s2 w2 = Returns (r, s3, w3) \<and>
    fst (rialto_mse_base_sink_handle_get_property E' Volume value s3 w3) = V_double kDefaultVolume"
proof -
  let ?k = "made_kind AUDIO_SINK s" and ?m = "made_delegate E AUDIO_SINK h s w"
  have acc: "ref.all_accepted xs" using assms(3) by (simp add: ref.all_accepted_def list_all_iff)
  have empty: "b_queuedProperties s = queue_of []" using assms(2) by (simp add: queue_of_def)
  have m: "unattached_ref ?k ?m" by (rule made_unattached)
  obtain d1 w1 where d1: "set_all (call_setProperty E) xs ?m = Returns (d1, w1)" "unattached_ref ?k (d1, w1)"
    using ref.set_all_returns [OF m acc] by fastforce
  let ?s1 = "s\<lparr>b_queuedProperties := queue_of xs\<rparr>" and ?s2 = "s\<lparr>b_delegate := Some d1, b_queuedProperties := Map.empty\<rparr>"
  have "set_all (sink_set E) xs (s, w) = Returns (?s1, w)" by (simp add: sink_set_queued [OF assms(1) empty])
  moreover have fails: "\<not> can_start E (d1, w1)" using assms(4) by (cases d1) simp_all
  have "sink_change_state AUDIO_SINK E h GST_STATE_CHANGE_NULL_TO_READY ?s1 w = Returns (GST_STATE_CHANGE_FAILURE, ?s2, w1)"
    using assms(1) ref.queue_invisible [OF m acc, of E] d1(1) fails
    by (simp add: sink_ready ready_status_def del: sink_change_state.simps)
  moreover obtain d2 w2 where d2: "made_delegate E' AUDIO_SINK h' ?s2 w1 = (d2, w2)" by fastforce
  let ?w3 = "release_ref E' (d1, w2)" and ?s3 = "?s2\<lparr>b_delegate := Some d2\<rparr>"
  have "sink_change_state AUDIO_SINK E' h' GST_STATE_CHANGE_NULL_TO_READY ?s2 w1 =
      Returns (ready_status E' (can_start E' (d2, ?w3)), ?s3, ?w3)"
    by (rule sink_ready_again [OF _ _ d2]) simp_all
  moreover have "d1 = PullDelegate j \<Longrightarrow> h' \<noteq> j" for j
    using d1 assms(5) by (auto simp: made_delegate_def split: option.splits elim: unattached_cases dest: set_all_same_ref)
  then have "fst (rialto_mse_base_sink_handle_get_property E' Volume value ?s3 ?w3) = V_double kDefaultVolume"
    using second_delegate [OF d1(2) _ d2] by (simp add: sink_get_delegate)
  ultimately show ?thesis by blast
qed

theorem failed_start_loses_settings_witness:
  "\<exists>s1 s2 w2 r s3 w3.
    set_all (sink_set (demo_sink_env\<lparr>pull_env := demo_gst\<lparr>control_running := False\<rparr>\<rparr>)) demo_settings (demo_sink, empty_world) =
      Returns (s1, empty_world) \<and>
    sink_change_state AUDIO_SINK (demo_sink_env\<lparr>pull_env := demo_gst\<lparr>control_running := False\<rparr>\<rparr>) 3
      GST_STATE_CHANGE_NULL_TO_READY s1 empty_world = Returns (GST_STATE_CHANGE_FAILURE, s2, w2) \<and>
    sink_change_state AUDIO_SINK demo_sink_env 4 GST_STATE_CHANGE_NULL_TO_READY s2 w2 = Returns (r, s3, w3) \<and>
    fst (rialto_mse_base_sink_handle_get_property demo_sink_env Volume (V_double 0) s3 w3) = V_double kDefaultVolume"
  by (rule failed_start_loses_settings) simp_all

end
