(* ===== verification/Web_Audio_Sink.thy ===== *)
theory Web_Audio_Sink
  imports Sink_Classes Sink_Start
begin

text \<open>
  \<open>RialtoGStreamerWebAudioSink.cpp\<close>: the element for web audio. It is not a subclass of the base sink but
  repeats its code for a push mode delegate; the delegate is not dropped on the way back to NULL.
\<close>

section \<open>State and calls\<close>

record web_sink =
  ws_element :: GstElement
  ws_sinkPad :: bool
  ws_delegate :: "push_delegate option"
  ws_queuedProperties :: property_queue

definition rialto_web_audio_sink_initialise_sinkpad :: "bool \<Rightarrow> bool \<Rightarrow> web_sink \<Rightarrow> bool \<times> web_sink" where
  "rialto_web_audio_sink_initialise_sinkpad pad_template pad_created s =
     (if \<not> pad_template then (False, s)
      else if \<not> pad_created then (False, s)
      else (True, s\<lparr>ws_sinkPad := True\<rparr>))"

definition rialto_web_audio_sink_init :: "bool \<Rightarrow> bool \<Rightarrow> GstElement \<Rightarrow> web_sink" where
  "rialto_web_audio_sink_init pad_template pad_created element =
     (case rialto_web_audio_sink_initialise_sinkpad pad_template pad_created
        \<lparr>ws_element = element, ws_sinkPad = False, ws_delegate = None, ws_queuedProperties = Map.empty\<rparr> of (ok, s) \<Rightarrow> s)"

definition web_element :: "web_sink \<Rightarrow> GstElement" where
  "web_element s = (case ws_delegate s of None \<Rightarrow> ws_element s | Some d \<Rightarrow> pd_sink d)"

definition rialto_web_audio_sink_initialise_delegate :: "sink_env \<Rightarrow> push_delegate \<Rightarrow> web_sink \<Rightarrow> web_sink outcome" where
  "rialto_web_audio_sink_initialise_delegate E delegate s =
     and_then (set_all (\<lambda>p v d. Returns (push_setProperty (push_env E) p v d)) (queue_entries (ws_queuedProperties s)) delegate)
       (\<lambda>d. Returns (s\<lparr>ws_delegate := Some d, ws_queuedProperties := Map.empty\<rparr>))"

definition rialto_web_audio_sink_handle_get_property ::
  "sink_env \<Rightarrow> Property \<Rightarrow> GValue \<Rightarrow> web_sink \<Rightarrow> GValue \<times> web_sink" where
  "rialto_web_audio_sink_handle_get_property E p value s =
     (case ws_delegate s of
        Some d \<Rightarrow> (case push_getProperty (push_env E) p d of
                     (r, d1) \<Rightarrow> (case r of None \<Rightarrow> value | Some v \<Rightarrow> v, s\<lparr>ws_delegate := Some d1\<rparr>))
      | None \<Rightarrow> (case ws_queuedProperties s p of None \<Rightarrow> value | Some v \<Rightarrow> v, s))"

definition rialto_web_audio_sink_handle_set_property :: "sink_env \<Rightarrow> Property \<Rightarrow> GValue \<Rightarrow> web_sink \<Rightarrow> web_sink" where
  "rialto_web_audio_sink_handle_set_property E p value s =
     (case ws_delegate s of
        Some d \<Rightarrow> s\<lparr>ws_delegate := Some (push_setProperty (push_env E) p value d)\<rparr>
      | None \<Rightarrow> s\<lparr>ws_queuedProperties := (ws_queuedProperties s)(p \<mapsto> value)\<rparr>)"

definition rialto_web_audio_sink_send_event :: "send_event \<Rightarrow> web_sink \<Rightarrow> bool \<times> web_sink" where
  "rialto_web_audio_sink_send_event event s =
     (case ws_delegate s of
        Some d \<Rightarrow> (case push_handleSendEvent event d of (r, d1) \<Rightarrow> (r, s\<lparr>ws_delegate := Some d1\<rparr>))
      | None \<Rightarrow> (False, s))"

definition rialto_web_audio_sink_change_state ::
  "sink_env \<Rightarrow> GstStateChange \<Rightarrow> web_sink \<Rightarrow> (GstStateChangeReturn \<times> web_sink) outcome" where
  "rialto_web_audio_sink_change_state E t s =
     and_then
       (if t = GST_STATE_CHANGE_NULL_TO_READY
        then rialto_web_audio_sink_initialise_delegate E (PushModeAudioPlaybackDelegate (web_element s)) s else Returns s)
       (\<lambda>s1. Returns (case ws_delegate s1 of
          Some d \<Rightarrow>
            (case push_changeState (control_running (pull_env E)) (push_env E) t d of
               (status, d1) \<Rightarrow>
                 (let s2 = s1\<lparr>ws_delegate := Some d1\<rparr>; result = parent_change_state E t
                  in if status \<noteq> GST_STATE_CHANGE_FAILURE \<and>
                        (result = GST_STATE_CHANGE_FAILURE \<or> result = GST_STATE_CHANGE_ASYNC)
                     then (result, s2) else (status, s2)))
        | None \<Rightarrow> (GST_STATE_CHANGE_FAILURE, s1)))"

definition rialto_web_audio_sink_event :: "sink_env \<Rightarrow> GstEvent \<Rightarrow> web_sink \<Rightarrow> (bool \<times> web_sink) outcome option" where
  "rialto_web_audio_sink_event E event s =
     (case ws_delegate s of
        Some d \<Rightarrow> map_option (\<lambda>x. and_then x (\<lambda>(r, d1). Returns (r, s\<lparr>ws_delegate := Some d1\<rparr>)))
                   (push_handleEvent (push_env E) (pad_accepts_event (pull_env E)) event d)
      | None \<Rightarrow> Some (Returns (False, s)))"

definition rialto_web_audio_sink_chain :: "sink_env \<Rightarrow> GstBuffer \<Rightarrow> web_sink \<Rightarrow> (GstFlowReturn \<times> web_sink) outcome option" where
  "rialto_web_audio_sink_chain E buf s =
     (case ws_delegate s of
        Some d \<Rightarrow> map_option (\<lambda>x. and_then x (\<lambda>(r, d1). Returns (r, s\<lparr>ws_delegate := Some d1\<rparr>)))
                   (push_handleBuffer (push_env E) buf d)
      | None \<Rightarrow> Some (Returns (GST_FLOW_ERROR, s)))"

datatype web_prop = PROP_TS_OFFSET | WEB_PROP_VOLUME

fun rialto_web_audio_sink_get_property :: "sink_env \<Rightarrow> web_prop \<Rightarrow> GValue \<Rightarrow> web_sink \<Rightarrow> GValue \<times> web_sink" where
  "rialto_web_audio_sink_get_property E PROP_TS_OFFSET value s = rialto_web_audio_sink_handle_get_property E TsOffset value s"
| "rialto_web_audio_sink_get_property E WEB_PROP_VOLUME value s =
     rialto_web_audio_sink_handle_get_property E Volume (V_double kDefaultVolume) s"

fun rialto_web_audio_sink_set_property :: "sink_env \<Rightarrow> web_prop \<Rightarrow> GValue \<Rightarrow> web_sink \<Rightarrow> web_sink" where
  "rialto_web_audio_sink_set_property E PROP_TS_OFFSET value s = rialto_web_audio_sink_handle_set_property E TsOffset value s"
| "rialto_web_audio_sink_set_property E WEB_PROP_VOLUME value s = rialto_web_audio_sink_handle_set_property E Volume value s"

definition rialto_web_audio_sink_setup_supported_caps :: "string list" where
  "rialto_web_audio_sink_setup_supported_caps = [''audio/x-raw'']"

definition rialto_web_audio_sink_class_init :: "web_prop element_class" where
  "rialto_web_audio_sink_class_init =
     \<lparr>ec_properties =
        [(PROP_TS_OFFSET, g_param_spec_int64 ''ts-offset'' G_MININT64 G_MAXINT64 0 G_PARAM_READWRITE),
         (WEB_PROP_VOLUME, g_param_spec_double ''volume'' 0 1 kDefaultVolume G_PARAM_READWRITE)],
      ec_pad_caps = Some rialto_web_audio_sink_setup_supported_caps\<rparr>"

section \<open>Settings between two sessions\<close>

text \<open>
  A web audio sink loses what is set between two sessions. On the way back to NULL the delegate of the
  session stays in place, so that a volume set in the state NULL goes to it and is read back, but is not
  queued; the change to READY makes a new delegate, which has the default volume. (The audio sink drops
  its delegate and keeps the setting.)
\<close>

theorem web_sink_loses_setting:
  assumes "ws_delegate s = Some d" "ws_queuedProperties s = Map.empty"
    "rialto_web_audio_sink_change_state E GST_STATE_CHANGE_READY_TO_NULL s = Returns (r, s1)" "\<not> isOpen (pd_client d)"
  shows "let s2 = rialto_web_audio_sink_set_property E WEB_PROP_VOLUME (V_double v) s1
    in fst (rialto_web_audio_sink_get_property E WEB_PROP_VOLUME value s2) = V_double v \<and>
       (\<exists>r' s3. rialto_web_audio_sink_change_state E GST_STATE_CHANGE_NULL_TO_READY s2 = Returns (r', s3) \<and>
          fst (rialto_web_audio_sink_get_property E WEB_PROP_VOLUME value s3) = V_double kDefaultVolume)"
proof -
  have s1: "s1 = s\<lparr>ws_delegate := Some (d\<lparr>pd_controlRemoved := True\<rparr>)\<rparr>"
    using assms by (auto simp: rialto_web_audio_sink_change_state_def Let_def split: if_splits)
  have "queue_entries (ws_queuedProperties s) = []" using assms(2) by (simp add: queue_entries_def all_properties_def)
  with assms s1 show ?thesis
    by (auto simp: rialto_web_audio_sink_change_state_def rialto_web_audio_sink_initialise_delegate_def
        rialto_web_audio_sink_handle_set_property_def rialto_web_audio_sink_handle_get_property_def push_setProperty_def
        push_getProperty_def PushModeAudioPlaybackDelegate_def GStreamerWebAudioPlayerClient_def isOpen_def Let_def)
qed

theorem web_sink_loses_setting_witness:
  "\<exists>s1. rialto_web_audio_sink_change_state demo_sink_env GST_STATE_CHANGE_READY_TO_NULL
      ((rialto_web_audio_sink_init True True (changing_sink GST_STATE_READY GST_STATE_NULL))
         \<lparr>ws_delegate := Some (PushModeAudioPlaybackDelegate (changing_sink GST_STATE_READY GST_STATE_NULL))\<rparr>) =
      Returns (GST_STATE_CHANGE_SUCCESS, s1) \<and>
    (let s2 = rialto_web_audio_sink_set_property demo_sink_env WEB_PROP_VOLUME (V_double (1 / 2)) s1
     in fst (rialto_web_audio_sink_get_property demo_sink_env WEB_PROP_VOLUME (V_double 0) s2) = V_double (1 / 2) \<and>
        (\<exists>r' s3. rialto_web_audio_sink_change_state demo_sink_env GST_STATE_CHANGE_NULL_TO_READY s2 = Returns (r', s3) \<and>
           fst (rialto_web_audio_sink_get_property demo_sink_env WEB_PROP_VOLUME (V_double 0) s3) = V_double kDefaultVolume))"
proof -
  let ?d = "PushModeAudioPlaybackDelegate (changing_sink GST_STATE_READY GST_STATE_NULL)"
  let ?s = "(rialto_web_audio_sink_init True True (changing_sink GST_STATE_READY GST_STATE_NULL))\<lparr>ws_delegate := Some ?d\<rparr>"
  let ?s1 = "?s\<lparr>ws_delegate := Some (?d\<lparr>pd_controlRemoved := True\<rparr>)\<rparr>"
  have null: "rialto_web_audio_sink_change_state demo_sink_env GST_STATE_CHANGE_READY_TO_NULL ?s =
      Returns (GST_STATE_CHANGE_SUCCESS, ?s1)"
    by (simp add: rialto_web_audio_sink_change_state_def demo_sink_env_def)
  have "ws_delegate ?s = Some ?d" "ws_queuedProperties ?s = Map.empty" "\<not> isOpen (pd_client ?d)"
    by (simp_all add: rialto_web_audio_sink_init_def rialto_web_audio_sink_initialise_sinkpad_def PushModeAudioPlaybackDelegate_def GStreamerWebAudioPlayerClient_def isOpen_def)
  from web_sink_loses_setting [OF this(1,2) null this(3)] null show ?thesis by blast
qed

end
