(* ===== verification/Control_Backend.thy ===== *)
theory Control_Backend
  imports Push_Delegate
begin

text \<open>
  \<open>ControlBackend.h\<close>: the object through which a sink learns whether the application is running. It registers
  a client with the control service of Rialto, keeps the last state that the service has notified, and lets
  a sink that goes to READY wait up to a second for the state RUNNING.

  The service is not part of the repository: whether it could be created and what it answers to the
  registration are arguments. One thread at a time waits, the one that changes the state of the sink; what
  happens during the wait is a list of events, in the order in which they take the lock. A notification
  changes the state and wakes the waiting thread, which tests the state when it gets the lock, at a later
  event \<open>Woken\<close> (a spurious one is possible at any time); \<open>Timed_Out\<close> is the end of the second.
\<close>

section \<open>State and operations\<close>

record control_backend =
  m_rialtoClientState :: ApplicationState
  m_control :: bool

text \<open>The constructor. \<open>registration\<close> is the result of \<open>registerClient\<close> and the state that it stores.\<close>

definition ControlBackend :: "bool \<Rightarrow> bool \<times> ApplicationState \<Rightarrow> control_backend" where
  "ControlBackend control_created registration =
     (if \<not> control_created then \<lparr>m_rialtoClientState = AS_UNKNOWN, m_control = False\<rparr>
      else \<lparr>m_rialtoClientState = snd registration, m_control = True\<rparr>)"

text \<open>\<open>createControlBackend\<close> of a pull mode delegate, whose member is the null pointer before.\<close>

definition createControlBackend ::
  "bool \<Rightarrow> bool \<times> ApplicationState \<Rightarrow> control_backend option \<Rightarrow> control_backend option" where
  "createControlBackend control_created registration m_rialtoControlClient =
     (if m_rialtoControlClient = None then Some (ControlBackend control_created registration) else m_rialtoControlClient)"

definition removeControlBackend :: "control_backend \<Rightarrow> control_backend" where
  "removeControlBackend b = b\<lparr>m_control := False\<rparr>"

definition onApplicationStateChanged :: "ApplicationState \<Rightarrow> control_backend \<Rightarrow> control_backend" where
  "onApplicationStateChanged state b = b\<lparr>m_rialtoClientState := state\<rparr>"

text \<open>\<open>ControlClient::notifyApplicationState\<close>, which passes the state on to the delegate of a pull mode sink. A push
  mode sink has no delegate for it (\<open>None\<close>), as one that is gone.\<close>

definition ControlClient_notifyApplicationState ::
  "ApplicationState \<Rightarrow> control_backend \<Rightarrow> delegate option \<Rightarrow> control_backend \<times> delegate option" where
  "ControlClient_notifyApplicationState state b client =
     (onApplicationStateChanged state b, map_option (notifyApplicationState state) client)"

datatype wait_event = Notified ApplicationState | Woken | Timed_Out

definition running :: "control_backend \<Rightarrow> bool" where
  "running b \<longleftrightarrow> m_rialtoClientState b = AS_RUNNING"

text \<open>\<open>wait_for\<close> with its predicate; \<open>None\<close> while the thread waits.\<close>

fun wait_for_running :: "wait_event list \<Rightarrow> control_backend \<Rightarrow> (bool \<times> control_backend) option" where
  "wait_for_running [] b = None"
| "wait_for_running (Notified state # events) b = wait_for_running events (onApplicationStateChanged state b)"
| "wait_for_running (Woken # events) b =
     (if running b then Some (running b, b) else wait_for_running events b)"
| "wait_for_running (Timed_Out # events) b = Some (running b, b)"

definition waitForRunning :: "wait_event list \<Rightarrow> control_backend \<Rightarrow> (bool \<times> control_backend) option" where
  "waitForRunning events b = (if running b then Some (True, b) else wait_for_running events b)"

section \<open>The answer\<close>

text \<open>The state after the notifications of a list of events.\<close>

fun notified :: "wait_event list \<Rightarrow> control_backend \<Rightarrow> control_backend" where
  "notified [] b = b"
| "notified (Notified state # events) b = notified events (onApplicationStateChanged state b)"
| "notified (_ # events) b = notified events b"

lemma wait_for_running_answer:
  "wait_for_running events b = Some (r, b') \<Longrightarrow>
     (\<exists>before after. events = before @ after \<and> b' = notified before b \<and> (r \<longleftrightarrow> running b') \<and>
        (\<not> r \<longrightarrow> Timed_Out \<in> set before))"
proof (induction events b rule: wait_for_running.induct)
  case (2 state events b)
  then obtain before after where "events = before @ after" "b' = notified before (onApplicationStateChanged state b)"
    "r \<longleftrightarrow> running b'" "\<not> r \<longrightarrow> Timed_Out \<in> set before" by auto
  then show ?case by (intro exI [of _ "Notified state # before"] exI [of _ after]) simp
next
  case (3 events b)
  show ?case
  proof (cases "running b")
    case True
    with 3 show ?thesis by (intro exI [of _ "[]"] exI [of _ "Woken # events"]) simp
  next
    case False
    with 3 obtain before after where "events = before @ after" "b' = notified before b"
      "r \<longleftrightarrow> running b'" "\<not> r \<longrightarrow> Timed_Out \<in> set before" by auto
    then show ?thesis by (intro exI [of _ "Woken # before"] exI [of _ after]) simp
  qed
next
  case (4 events b)
  then show ?case by (intro exI [of _ "[Timed_Out]"] exI [of _ events]) auto
qed simp

lemma wait_for_running_ends: "Timed_Out \<in> set events \<Longrightarrow> wait_for_running events b \<noteq> None"
  by (induction events b rule: wait_for_running.induct) auto

text \<open>
  Waiting for the application. \<open>waitForRunning\<close> returns at the latest when its second is over; it returns true
  exactly when the application is running at that moment, false only after the second, and at once when
  the application was already running or when it is notified as running and not changed again before the
  thread is awake.
\<close>

theorem waiting_for_running:
  shows "Timed_Out \<in> set events \<Longrightarrow> waitForRunning events b \<noteq> None"
    and "waitForRunning events b = Some (r, b') \<Longrightarrow> (r \<longleftrightarrow> running b') \<and> (\<not> r \<longrightarrow> Timed_Out \<in> set events)"
    and "\<exists>b'. waitForRunning (Notified AS_RUNNING # Woken # events) b = Some (True, b')"
proof -
  show "Timed_Out \<in> set events \<Longrightarrow> waitForRunning events b \<noteq> None"
    using wait_for_running_ends [of events b] by (cases "running b") (simp_all add: waitForRunning_def)
  show "waitForRunning events b = Some (r, b') \<Longrightarrow> (r \<longleftrightarrow> running b') \<and> (\<not> r \<longrightarrow> Timed_Out \<in> set events)"
    using wait_for_running_answer [of events b r b'] by (auto simp: waitForRunning_def split: if_splits)
  show "\<exists>b'. waitForRunning (Notified AS_RUNNING # Woken # events) b = Some (True, b')"
    by (simp add: waitForRunning_def onApplicationStateChanged_def running_def)
qed

section \<open>The sinks that wait\<close>

text \<open>The environment of a sink whose control backend answers \<open>r\<close>.\<close>

lemma ready_needs_running:
  assumes "waitForRunning events b = Some (r, b')" "m_sinkPad (w_delegates w h)"
  shows "fst (changeState (g\<lparr>control_running := r\<rparr>) h GST_STATE_CHANGE_NULL_TO_READY w) =
      (if running b' then GST_STATE_CHANGE_SUCCESS else GST_STATE_CHANGE_FAILURE)"
    "fst (push_changeState r e GST_STATE_CHANGE_NULL_TO_READY d) =
      (if running b' then GST_STATE_CHANGE_SUCCESS else GST_STATE_CHANGE_FAILURE)"
  using waiting_for_running(2) [OF assms(1)] assms(2) by auto

end
