(* ===== verification/Gst_Guards.thy ===== *)
theory Gst_Guards
  imports Gst_Types
begin

text \<open>
  \<open>GStreamerUtils.cpp\<close>: \<open>GstMappedBuffer\<close>, which keeps a buffer mapped while it exists, and \<open>GstRefSample\<close>, which
  keeps a reference to a sample. The record \<open>gst_counts\<close> has, for the address of an object, how often it is
  mapped and how many references to it exist. \<open>gst_buffer_map\<close> is GStreamer's: it gives the data, or \<open>None\<close>
  when the buffer cannot be mapped.
\<close>

section \<open>Counting maps and references\<close>

record gst_counts =
  maps :: "nat \<Rightarrow> int"
  refs :: "nat \<Rightarrow> int"

definition change_maps :: "nat \<Rightarrow> int \<Rightarrow> gst_counts \<Rightarrow> gst_counts" where
  "change_maps a n g = g\<lparr>maps := (maps g)(a := maps g a + n)\<rparr>"

definition change_refs :: "nat \<Rightarrow> int \<Rightarrow> gst_counts \<Rightarrow> gst_counts" where
  "change_refs a n g = g\<lparr>refs := (refs g)(a := refs g a + n)\<rparr>"

section \<open>A mapped buffer\<close>

record GstMappedBuffer =
  mb_buffer :: nat
  mb_info :: "u8 list"
  mb_isMapped :: bool

definition new_GstMappedBuffer :: "u8 list option \<Rightarrow> nat \<Rightarrow> gst_counts \<Rightarrow> GstMappedBuffer \<times> gst_counts" where
  "new_GstMappedBuffer mapped buffer g =
     (case mapped of
        None \<Rightarrow> (\<lparr>mb_buffer = buffer, mb_info = [], mb_isMapped = False\<rparr>, g)
      | Some bytes \<Rightarrow> (\<lparr>mb_buffer = buffer, mb_info = bytes, mb_isMapped = True\<rparr>, change_maps buffer 1 g))"

definition delete_GstMappedBuffer :: "GstMappedBuffer \<Rightarrow> gst_counts \<Rightarrow> gst_counts" where
  "delete_GstMappedBuffer m g = (if mb_isMapped m then change_maps (mb_buffer m) (- 1) g else g)"

definition mapped_data :: "GstMappedBuffer \<Rightarrow> u8 list option" where
  "mapped_data m = (if mb_isMapped m then Some (mb_info m) else None)"

definition mapped_size :: "GstMappedBuffer \<Rightarrow> nat" where
  "mapped_size m = (if mb_isMapped m then length (mb_info m) else 0)"

definition mapped_bool :: "GstMappedBuffer \<Rightarrow> bool" where
  "mapped_bool m = mb_isMapped m"

section \<open>A referenced sample\<close>

record GstRefSample =
  rs_sample :: "nat option"

definition new_GstRefSample :: "nat option \<Rightarrow> gst_counts \<Rightarrow> GstRefSample \<times> gst_counts" where
  "new_GstRefSample sample g =
     (\<lparr>rs_sample = sample\<rparr>, case sample of None \<Rightarrow> g | Some a \<Rightarrow> change_refs a 1 g)"

definition delete_GstRefSample :: "GstRefSample \<Rightarrow> gst_counts \<Rightarrow> gst_counts" where
  "delete_GstRefSample s g = (case rs_sample s of None \<Rightarrow> g | Some a \<Rightarrow> change_refs a (- 1) g)"

definition ref_bool :: "GstRefSample \<Rightarrow> bool" where
  "ref_bool s = (rs_sample s \<noteq> None)"

text \<open>\<open>sample_of\<close> is the memory: the samples by their addresses. The getters of the null pointer give null.\<close>

definition ref_getBuffer :: "(nat \<Rightarrow> GstSample) \<Rightarrow> GstRefSample \<Rightarrow> GstBuffer option" where
  "ref_getBuffer sample_of s = map_option (\<lambda>a. sample_buffer (sample_of a)) (rs_sample s)"

definition ref_getCaps :: "(nat \<Rightarrow> GstSample) \<Rightarrow> GstRefSample \<Rightarrow> GstCaps option" where
  "ref_getCaps sample_of s = (case rs_sample s of None \<Rightarrow> None | Some a \<Rightarrow> sample_caps (sample_of a))"

section \<open>The guards are balanced\<close>

text \<open>Whatever happens between the construction and the destruction of a guard, as long as it does not look at
  the guard, the counts end as if the guard had not been there. \<open>h\<close> is what happens in between.\<close>

lemma changes_commute:
  "change_maps a n (change_maps b k g) = change_maps b k (change_maps a n g)"
  "change_refs a n (change_refs b k g) = change_refs b k (change_refs a n g)"
  "change_maps a n (change_refs b k g) = change_refs b k (change_maps a n g)"
  by (auto simp: change_maps_def change_refs_def fun_eq_iff)

lemma changes_cancel: "change_maps a (- n) (change_maps a n g) = g" "change_refs a (- n) (change_refs a n g) = g"
  by (simp_all add: change_maps_def change_refs_def)

definition count_change :: "(gst_counts \<Rightarrow> gst_counts) \<Rightarrow> bool" where
  "count_change h \<longleftrightarrow> (\<forall>a n g. h (change_maps a n g) = change_maps a n (h g) \<and>
     h (change_refs a n g) = change_refs a n (h g))"

lemma mapped_buffer_balanced:
  assumes "count_change h" "new_GstMappedBuffer mapped buffer g = (m, g1)"
  shows "delete_GstMappedBuffer m (h g1) = h g" "mapped_data m = mapped" "mapped_bool m \<longleftrightarrow> mapped \<noteq> None"
    "mapped_size m = (case mapped of None \<Rightarrow> 0 | Some bytes \<Rightarrow> length bytes)"
  using assms
  by (auto simp: new_GstMappedBuffer_def delete_GstMappedBuffer_def mapped_data_def mapped_size_def mapped_bool_def
      count_change_def changes_cancel split: option.splits)

lemma ref_sample_balanced:
  assumes "count_change h" "new_GstRefSample sample g = (s, g1)"
  shows "delete_GstRefSample s (h g1) = h g" "ref_bool s \<longleftrightarrow> sample \<noteq> None"
  using assms
  by (auto simp: new_GstRefSample_def delete_GstRefSample_def ref_bool_def count_change_def changes_cancel split: option.splits)

text \<open>Guards nest: a guard around another is such a change.\<close>

lemma nested_guards:
  assumes "count_change h" "count_change k"
  shows "count_change (\<lambda>g. h (k g))" "count_change (change_maps a n)" "count_change (change_refs a n)"
  using assms by (simp_all add: count_change_def changes_commute)

end
