(* ===== verification/Log_Handler.thy ===== *)
theory Log_Handler
  imports Player_State C_Format
begin

text \<open>
  \<open>LogToGstHandler.cpp\<close>: messages of the Rialto client library become messages of GStreamer. The result of
  \<open>log_message\<close> is the level of the message for GStreamer and its text; GStreamer has no level for fatal errors
  and for milestones. The variant for \<open>USE_ETHANLOG\<close>, which is chosen when the library is built, differs in the
  macros only. The two functions \<open>toString\<close> of \<open>GStreamerMSEMediaPlayerClient.cpp\<close> give names for log output.
\<close>

datatype Level = Fatal | Error | Warning | Milestone | Info | Debug | External

datatype GstDebugLevel = GST_LEVEL_ERROR | GST_LEVEL_WARNING | GST_LEVEL_INFO | GST_LEVEL_DEBUG

text \<open>\<open>std::to_string\<close>\<close>

definition to_string :: "int \<Rightarrow> string" where
  "to_string n = (if n < 0 then CHR ''-'' # print_uint (nat (- n)) else print_uint (nat n))"

definition log_report :: "string \<Rightarrow> int \<Rightarrow> string \<Rightarrow> string \<Rightarrow> string" where
  "log_report file line function message =
     ''M:'' @ file @ '' F:'' @ function @ '' L:'' @ to_string line @ '' > '' @ message"

fun gst_level :: "Level \<Rightarrow> GstDebugLevel" where
  "gst_level Fatal = GST_LEVEL_ERROR"
| "gst_level Error = GST_LEVEL_ERROR"
| "gst_level Warning = GST_LEVEL_WARNING"
| "gst_level Milestone = GST_LEVEL_INFO"
| "gst_level Info = GST_LEVEL_INFO"
| "gst_level Debug = GST_LEVEL_DEBUG"
| "gst_level External = GST_LEVEL_INFO"

definition log_message :: "Level \<Rightarrow> string \<Rightarrow> int \<Rightarrow> string \<Rightarrow> string \<Rightarrow> GstDebugLevel \<times> string" where
  "log_message level file line function message = (gst_level level, log_report file line function message)"

fun error_toString :: "PlaybackError \<Rightarrow> string" where
  "error_toString PE_DECRYPTION = ''DECRYPTION''"
| "error_toString PE_OUTPUT_PROTECTION = ''OUTPUT_PROTECTION''"
| "error_toString PE_UNKNOWN = ''UNKNOWN''"

fun source_toString :: "MediaSourceType \<Rightarrow> string" where
  "source_toString MST_AUDIO = ''AUDIO''"
| "source_toString MST_VIDEO = ''VIDEO''"
| "source_toString MST_SUBTITLE = ''SUBTITLE''"
| "source_toString MST_UNKNOWN = ''UNKNOWN''"

end
