(* ===== verification/Plugin.thy ===== *)
theory Plugin
  imports C_Format
begin

text \<open>
  \<open>RialtoGSteamerPlugin.cpp\<close>: the initialisation of the plugin, which registers the four sinks with GStreamer.
  Their rank comes from the environment: the largest \<open>int\<close> when \<open>RIALTO_SOCKET_PATH\<close> is set and 0 otherwise,
  unless \<open>RIALTO_SINKS_RANK\<close> holds a number. With the rank 0 nothing is registered.

  \<open>errno_range\<close> says that \<open>errno\<close> is \<open>ERANGE\<close> before the call; \<open>strtoul\<close> sets it and never clears it. The
  result of \<open>strtoul\<close> has 64 bits, the rank has 32. Without a number \<open>strtoul\<close> gives 0 and the whole
  string as the rest, so that the empty string counts as the number 0. \<open>register\<close> is the answer of
  \<open>gst_element_register\<close> for a name; the log output about the revision is left out.
\<close>

section \<open>The initialisation\<close>

text \<open>The value, the rest of the string and whether the number was out of range.\<close>

definition strtoul :: "string \<Rightarrow> u64 \<times> string \<times> bool" where
  "strtoul s =
     (let s1 = dropWhile is_space s;
          neg = (s1 \<noteq> [] \<and> hd s1 = CHR ''-'');
          s2 = (if s1 \<noteq> [] \<and> (hd s1 = CHR ''-'' \<or> hd s1 = CHR ''+'') then tl s1 else s1)
      in if s2 \<noteq> [] \<and> is_digit (hd s2)
         then (case scan_digits 0 s2 of (n, rest) \<Rightarrow> (to_ulong neg n, rest, 2 ^ 64 \<le> n))
         else (0, s, False))"

definition max_int :: u32 where "max_int = 2147483647"

definition sink_rank :: "bool \<Rightarrow> string option \<Rightarrow> string option \<Rightarrow> u32" where
  "sink_rank errno_range socketPathStr sinkRankStr =
     (let sinkRank = (if socketPathStr \<noteq> None then max_int else 0)
      in case sinkRankStr of
           None \<Rightarrow> sinkRank
         | Some str \<Rightarrow>
             (case strtoul str of (val, end_of_number, out_of_range) \<Rightarrow>
                if end_of_number \<noteq> [] \<or> errno_range \<or> out_of_range then sinkRank else ucast val))"

definition sink_names :: "string list" where
  "sink_names = [''rialtomsevideosink'', ''rialtomseaudiosink'', ''rialtomsesubtitlesink'', ''rialtowebaudiosink'']"

text \<open>The conjunction of the calls of \<open>gst_element_register\<close>, with the calls that are made.\<close>

fun register_sinks :: "(string \<Rightarrow> bool) \<Rightarrow> u32 \<Rightarrow> string list \<Rightarrow> bool \<times> (string \<times> u32) list" where
  "register_sinks register rank [] = (True, [])"
| "register_sinks register rank (name # names) =
     (if register name
      then (case register_sinks register rank names of (ok, done) \<Rightarrow> (ok, (name, rank) # done))
      else (False, [(name, rank)]))"

definition rialto_mse_sinks_init ::
  "bool \<Rightarrow> string option \<Rightarrow> string option \<Rightarrow> (string \<Rightarrow> bool) \<Rightarrow> bool \<times> (string \<times> u32) list" where
  "rialto_mse_sinks_init errno_range socketPathStr sinkRankStr register =
     (let sinkRank = sink_rank errno_range socketPathStr sinkRankStr
      in if sinkRank = 0 then (True, []) else register_sinks register sinkRank sink_names)"

section \<open>Reading the rank\<close>

lemma strtoul_print:
  assumes "n < 2 ^ 64" "stops rest"
  shows "strtoul (print_uint n @ rest) = (of_nat n, rest, False)"
proof -
  obtain d cs where d: "d < 10" "print_uint n = digit_char d # cs" using print_uint_hd by blast
  with scan_digits_print [OF assms(2), of n] assms(1) show ?thesis
    by (simp add: strtoul_def digit_not_space digit_not_sign to_ulong_def)
qed

lemma strtoul_too_large:
  assumes "2 ^ 64 \<le> n"
  shows "snd (snd (strtoul (print_uint n)))"
proof -
  obtain d cs where d: "d < 10" "print_uint n = digit_char d # cs" using print_uint_hd by blast
  with scan_digits_print [of "[]" n] assms show ?thesis
    by (simp add: strtoul_def digit_not_space digit_not_sign stops_def)
qed

lemma low_bits: "ucast (of_nat n :: u64) = (of_nat n :: u32)"
  by (rule bit_word_eqI) (auto simp: bit_simps)

lemma register_all: "list_all register names \<Longrightarrow> register_sinks register rank names = (True, map (\<lambda>name. (name, rank)) names)"
  by (induction names) simp_all

text \<open>
  The rank of the sinks is the number in the environment, cut to 32 bits. For every number, printed
  in decimal digits, in \<open>RIALTO_SINKS_RANK\<close>, when \<open>errno\<close> is not \<open>ERANGE\<close> before: a number of up to 64 bits is
  taken modulo 2 to the 32, so that all four sinks are registered with that rank, or none when it is 0 (as
  for 4294967296); a larger number is ignored, as any number is when \<open>errno\<close> is \<open>ERANGE\<close>, and the
  rank is the one that \<open>RIALTO_SOCKET_PATH\<close> gives.
\<close>

theorem rank_from_environment:
  fixes errno_range :: bool and socketPathStr :: "string option" and n :: nat
  assumes "list_all register sink_names"
  defines "fallback \<equiv> (if socketPathStr \<noteq> None then max_int else 0)"
    and "rank \<equiv> sink_rank errno_range socketPathStr (Some (print_uint n))"
  shows "unat rank = (if n < 2 ^ 64 \<and> \<not> errno_range then n mod 2 ^ 32 else unat fallback) \<and>
    rialto_mse_sinks_init errno_range socketPathStr (Some (print_uint n)) register =
      (True, if rank = 0 then [] else map (\<lambda>name. (name, rank)) sink_names)"
proof -
  have v: "rank = (if n < 2 ^ 64 \<and> \<not> errno_range then of_nat n else fallback)"
  proof (cases "n < 2 ^ 64")
    case True
    with strtoul_print [OF True, of "[]"] show ?thesis
      by (simp add: rank_def sink_rank_def fallback_def Let_def stops_def low_bits)
  next
    case False
    obtain v r o' where s: "strtoul (print_uint n) = (v, r, o')" by (cases "strtoul (print_uint n)") auto
    with strtoul_too_large [of n] False have "o'" by simp
    with s False show ?thesis by (simp add: rank_def sink_rank_def fallback_def Let_def)
  qed
  have "unat (of_nat n :: u32) = n mod 2 ^ 32" by (simp add: unsigned_of_nat take_bit_eq_mod)
  then have "unat rank = (if n < 2 ^ 64 \<and> \<not> errno_range then n mod 2 ^ 32 else unat fallback)"
    unfolding v by simp
  then show ?thesis
    using register_all [OF assms(1)] by (simp add: rialto_mse_sinks_init_def Let_def rank_def)
qed

theorem rank_from_environment_witness:
  "rialto_mse_sinks_init False (Some ''/tmp/rialto-0'') (Some (print_uint 4294967296)) (\<lambda>_. True) = (True, []) \<and>
   rialto_mse_sinks_init False None (Some (print_uint 300)) (\<lambda>_. True) =
     (True, [(''rialtomsevideosink'', 300), (''rialtomseaudiosink'', 300), (''rialtomsesubtitlesink'', 300),
             (''rialtowebaudiosink'', 300)])"
proof -
  have r: "list_all (\<lambda>_. True) sink_names" by (simp add: sink_names_def)
  have "sink_rank False (Some ''/tmp/rialto-0'') (Some (print_uint 4294967296)) = 0"
    using rank_from_environment [OF r, of False "Some ''/tmp/rialto-0''" 4294967296] by (simp add: unat_eq_0)
  moreover have "unat (sink_rank False None (Some (print_uint 300))) = unat (300 :: u32)"
    using rank_from_environment [OF r, of False None 300] by simp
  then have "sink_rank False None (Some (print_uint 300)) = 300" by (simp only: word_unat_eq_iff)
  ultimately show ?thesis
    using rank_from_environment [OF r, of False "Some ''/tmp/rialto-0''" 4294967296]
      rank_from_environment [OF r, of False None 300] by (simp add: sink_names_def)
qed

end
