(* ===== verification/Spec2Isabelle.thy ===== *)
theory Spec2Isabelle
  imports Message_Queue Timer_Thread Sink_Settings Sink_Queue Sink_Backend Client_Answers Client_Flush Session_Requests Puller_Races Web_Audio_Backend Web_Audio_Sink
    Control_Backend Gst_Guards Log_Handler Plugin
begin

text \<open>
  A verification development for rialto-gstreamer, the GStreamer sinks that play media through a Rialto
  server (all sources are under \<open>src/source\<close>).

  \<^bold>\<open>The program.\<close> An application puts sink elements into a GStreamer pipeline. A sink owns a
  \<^emph>\<open>delegate\<close> between READY and NULL and passes everything that GStreamer asks of it to the delegate:
  state changes, events, buffers, queries, properties. In pull mode the delegates of one pipeline share a
  \<^emph>\<open>media player client\<close>, found through the \<^emph>\<open>media player manager\<close> by the outermost bin of the
  pipeline. The client turns the requests of its sinks into commands of one session with the server and
  runs them in an \<^emph>\<open>event loop\<close>; the server asks for data, which one \<^emph>\<open>buffer puller\<close> per source takes
  from the queue of the delegate, parses and hands over, and it reports states, positions, errors and
  finished flushes, which the client passes back to the sinks. A \<^emph>\<open>synchronizer\<close> orders flushes and data.
  In push mode (web audio) a delegate owns a \<^emph>\<open>web audio client\<close>, which pushes the buffers itself.

  \<^bold>\<open>The theories\<close>, from the bottom:

  \<^item> \<open>Rialto_Prelude\<close>: machine integers, maps as lists of entries, and the locales \<open>invariant_system\<close>
    and \<open>operation_system\<close> for invariants of step relations and of call sequences.
  \<^item> \<open>Flush_Data_Sync\<close> (\<open>FlushAndDataSynchronizer.cpp\<close>): the states of the sources and all operations;
    a flush in progress blocks, data pushed for all sources unblocks. The locale \<open>flush_synchronizer\<close> is
    the contract that the client relies on.
  \<^item> \<open>Message_Queue\<close> (\<open>MessageQueue.cpp\<close>): the queue with its worker and the calling and stopping threads
    as a step relation over critical sections. The concurrent queue refines the sequential execution of
    the accepted messages; callers are released; a stop drains the queue, and one that comes too late
    waits for ever. Because of these results the
    clients below are modelled with atomic operations in their event loops. \<open>Timer_Thread\<close> (\<open>Timer.cpp\<close>)
    does the same for the thread of a timer: once cancelled it is silent, and it can miss the notification.
  \<^item> \<open>Gst_Types\<close>: the data exchanged with GStreamer and Rialto. \<open>Eme_Utils\<close>, \<open>Mse_Utils\<close>, \<open>C_Format\<close> and
    \<open>Buffer_Parser\<close> (\<open>GStreamerEMEUtils.cpp\<close>, \<open>GStreamerMSEUtils.cpp\<close>, the \<open>createMediaSource\<close> functions,
    \<open>sscanf\<close> and \<open>sprintf\<close> as used, \<open>BufferParser.cpp\<close>): decoding of protection data, caps tables, media
    sources and segments, with round trips between the table of caps and the attached sources and between
    an encoded and a decoded sub-sample table.
  \<^item> \<open>Player_State\<close> and \<open>Media_Player_Client\<close> (\<open>GStreamerMSEMediaPlayerClient.cpp\<close> and the leaf methods of
    the delegates): the state of a client and of its delegates, every method, notification, message and
    puller. \<open>Client_Backend\<close> (\<open>MediaPlayerClientBackend.h\<close>) executes the recorded calls on the object
    behind them. \<open>Client_Inv\<close> holds the invariants, \<open>Client_Playback\<close> how the requests of several sinks become
    one command and how the answer completes all of them, \<open>Client_Data\<close> the data path and what the server
    takes of it, \<open>Client_Flush\<close> a flush and everything that may happen until its end,
    \<open>Client_Requests\<close> and \<open>Client_Answers\<close> that every request for data is answered, once, in any interleaving,
    \<open>Client_Frame\<close> and \<open>Client_Teardown\<close> what operations leave alone and the end of a session.
  \<^item> \<open>Media_Player_Manager\<close> (\<open>MediaPlayerManager.cpp\<close>): all clients and sinks of a process (\<open>world\<close>), the
    counting of references and the control over a client. Its locale \<open>session_property\<close> lifts what holds
    of every client to the clients of all pipelines; it is interpreted for the invariants of a session, for
    the number of requests that a client has to answer, and, over runs with an orderly server, for the
    order of the commands.
  \<^item> \<open>Pull_Delegate\<close>, \<open>Audio_Delegate\<close>, \<open>Video_Delegate\<close>, \<open>Subtitle_Delegate\<close> (the \<open>PullMode...\<close> files):
    every method of the delegates. \<open>Sink_System\<close> puts them together with the server and the worker threads
    as \<open>sink_step\<close> and shows that each step is a sequence of operations of the manager and the clients
    (\<open>orderly_sink_step\<close> restricts what the server reports: PAUSED, PLAYING and END\_OF\_STREAM only after
    \<open>allSourcesAttached\<close>; the client does not check this, and only the order of play and pause needs it);
    \<open>Sink_Properties\<close>, \<open>Sink_Settings\<close> and \<open>Sink_Queue\<close> draw the conclusions for whole sessions (and
    \<open>Session_Requests\<close> for their requests for data, in runs labelled by what the server asked), for
    settings made too early (locale \<open>setting_queue\<close>) and for the queue between the streaming thread and
    the pullers. \<open>Sink_Backend\<close> shows that the calls of every client reach the one pipeline of the
    server that its backend holds.
    \<open>Puller_Races\<close> cuts the handler of a puller into the parts that take locks of their own.
  \<^item> \<open>Web_Audio_Client\<close>, \<open>Web_Audio_Push\<close>, \<open>Push_Delegate\<close> (\<open>GStreamerWebAudioPlayerClient.cpp\<close>,
    \<open>PushModeAudioPlaybackDelegate.cpp\<close>): the web audio client, termination of its loop and
    what becomes of every byte, and its delegate. \<open>Web_Audio_Backend\<close> (\<open>WebAudioClientBackend.h\<close>) shows that the calls find the
    player that they are made on, how two threads can break that, and what closing the player does to a
    thread that waits for space.
  \<^item> \<open>Property_Queue\<close>, \<open>Delegate_Laws\<close>, \<open>Base_Sink\<close>, \<open>Sink_Start\<close>, \<open>Sink_Classes\<close>, \<open>Web_Audio_Sink\<close> (the
    \<open>RialtoGStreamer...Sink.cpp\<close> files): the elements. The locale \<open>playback_delegate\<close> is what a sink relies
    on of its delegate; it is interpreted for pull mode and push mode delegates, and from it follows that
    the queue of properties of a sink cannot be observed, unless a value that a setter ignores replaces one
    that it takes (locale \<open>ignoring_delegate\<close>).
  \<^item> \<open>Control_Backend\<close> (\<open>ControlBackend.h\<close>), \<open>Gst_Guards\<close> (\<open>GStreamerUtils.cpp\<close>), \<open>Log_Handler\<close>
    (\<open>LogToGstHandler.cpp\<close>) and \<open>Plugin\<close> (\<open>RialtoGSteamerPlugin.cpp\<close>): waiting for the control service,
    the scope guards of samples and maps, the text of log messages, and the rank and registration of the
    sinks.

  \<^bold>\<open>Conventions.\<close> A struct or class is a record, a method a function on it that
  returns the new state. The calls on the server are recorded in a list, so that theorems speak about
  the commands that were sent and their order. Code outside the repository (GStreamer, the Rialto client
  library) is an argument: the records \<open>env\<close>, \<open>gst_env\<close>, \<open>wa_env\<close>
  and \<open>sink_env\<close> hold its answers, and the theorems hold for all of them unless a
  hypothesis says otherwise. A call that waits for a condition variable gives \<open>Waits\<close>, a
  call that ends the process (null pointer, division by zero) gives \<open>Faults\<close>. The loop that
  pushes web audio samples may run for ever; it is a partial function into \<open>option\<close>, and
  \<open>pushing_ends\<close> shows when it returns. All other loops recurse over lists and need no
  fuel. A method of a delegate and a round of a worker thread are one step, which can be interleaved
  with others in any order, except in \<open>Puller_Races\<close>, \<open>Message_Queue\<close>, \<open>Timer_Thread\<close>
  and \<open>Web_Audio_Backend\<close>, which look at what can come in between. Integers are words where the code keeps them at a width;
  \<open>double\<close> values are real numbers, as they are only stored and passed on.

  \<^bold>\<open>Several theorems describe defects\<close> of the code as it is: a flush of a source
  that is not attached never completes, a volume set between the client and the source is held back, a
  buffer that ends inside a frame stops the web audio loop, a delayed play outlives its session,
  settings are lost by a start that fails, by a web audio sink between two sessions and by the queue of
  properties when an ignored fade replaces one that was taken, a segment that the server answers with an
  error is dropped as if it had been added, a flush that
  overlaps the work of a puller is forgotten by the synchronizer or costs the first new buffer, a volume
  set while another thread closes the web audio player goes through a null pointer, closing that player
  with a full queue leaves the streaming thread waiting, a thread that stops
  a queue which another thread is stopping can wait for ever, a condition variable that wakes up by itself
  overfills the queue of a sink, a timer that is cancelled while its thread goes to sleep holds the
  canceller up until the timeout, and a rank of 2^32 registers no sink.

  \<^bold>\<open>Not modelled.\<close> What only produces output or hands work to GObject: the log messages of the sinks
  (\<open>GstreamerCatLog\<close>, and the printing of the text that \<open>Log_Handler\<close> computes), the declarations of types,
  signals and pad templates beyond their names and defaults, the singletons of the factories. The
  interface headers only declare what the classes define. Tests, scripts and build files are not part of the
  program.
\<close>

end
